theory Spec2Isabelle
  imports Complex_Main
begin

section \<open>The PBR fragment shader \<^verbatim>\<open>src/shader/pbr.frag.ts\<close>\<close>

text \<open>
  The shader is GLSL ES 3.00. Its functions are modelled twice. In this section a GLSL
  \<^verbatim>\<open>float\<close> is a real number, so rounding is left out; the decimal literals of the
  source (\<^verbatim>\<open>3.14159\<close>, \<^verbatim>\<open>0.00001\<close>, \<^verbatim>\<open>0.41666\<close>, ...) are the exact rationals they
  denote. GLSL never traps: a division by zero or a \<^verbatim>\<open>pow\<close> of a negative base yields
  an unspecified value (an IEEE infinity or NaN on current hardware) that is no real
  number. Every such operation returns \<open>None\<close> here, and \<open>None\<close> propagates, as a NaN
  does through the arithmetic of the shader. This model carries the properties of the
  structure of the computation: the pipeline, the loop over the lights, the algebra of
  the BRDF terms and the transfer functions. The properties that rounding, overflow
  or a division by zero decide are stated on the float32 model of the section
  \<open>The float32 arithmetic of the shader\<close>.
\<close>

subsection \<open>Vectors and the GLSL built-ins the shader uses\<close>

datatype vec3 = Vec3 (vx: real) (vy: real) (vz: real)

datatype vec4 = Vec4 (rgb: vec3) (alpha: real)

definition fdiv :: "real \<Rightarrow> real \<Rightarrow> real option" where
  \<comment> \<open>\<^verbatim>\<open>a / b\<close> on floats: no real result when the divisor is zero\<close>
  "fdiv a b = (if b = 0 then None else Some (a / b))"

definition glsl_pow :: "real \<Rightarrow> real \<Rightarrow> real option" where
  \<comment> \<open>\<^verbatim>\<open>pow(x, y)\<close>: undefined if \<open>x < 0\<close>, and if \<open>x = 0\<close> and \<open>y \<le> 0\<close>\<close>
  "glsl_pow b e = (if b < 0 \<or> (b = 0 \<and> e \<le> 0) then None else Some (b powr e))"

definition mix :: "real \<Rightarrow> real \<Rightarrow> real \<Rightarrow> real" where
  \<comment> \<open>\<^verbatim>\<open>mix(x, y, a) = x * (1 - a) + y * a\<close>\<close>
  "mix p q a = p * (1 - a) + q * a"

definition vmix :: "vec3 \<Rightarrow> vec3 \<Rightarrow> real \<Rightarrow> vec3" where
  \<comment> \<open>\<^verbatim>\<open>mix\<close> of two vectors with a scalar weight\<close>
  "vmix a b s = Vec3 (mix (vx a) (vx b) s) (mix (vy a) (vy b) s) (mix (vz a) (vz b) s)"

definition lessThanEqual :: "real \<Rightarrow> real \<Rightarrow> real" where
  \<comment> \<open>one channel of \<^verbatim>\<open>vec3(lessThanEqual(v, w))\<close>: the boolean converted to 1.0 or 0.0\<close>
  "lessThanEqual p q = (if p \<le> q then 1 else 0)"

definition vsplat :: "real \<Rightarrow> vec3" where
  \<comment> \<open>\<^verbatim>\<open>vec3(s)\<close>\<close>
  "vsplat s = Vec3 s s s"

definition vadd :: "vec3 \<Rightarrow> vec3 \<Rightarrow> vec3" where
  "vadd a b = Vec3 (vx a + vx b) (vy a + vy b) (vz a + vz b)"

definition vsub :: "vec3 \<Rightarrow> vec3 \<Rightarrow> vec3" where
  "vsub a b = Vec3 (vx a - vx b) (vy a - vy b) (vz a - vz b)"

definition vmul :: "vec3 \<Rightarrow> vec3 \<Rightarrow> vec3" where
  \<comment> \<open>component-wise product of two vectors\<close>
  "vmul a b = Vec3 (vx a * vx b) (vy a * vy b) (vz a * vz b)"

definition vscale :: "vec3 \<Rightarrow> real \<Rightarrow> vec3" where
  \<comment> \<open>vector times scalar\<close>
  "vscale a s = Vec3 (vx a * s) (vy a * s) (vz a * s)"

definition vec3_opt :: "real option \<Rightarrow> real option \<Rightarrow> real option \<Rightarrow> vec3 option" where
  \<comment> \<open>a vector of three channel results; undefined as soon as one channel is\<close>
  "vec3_opt a b c =
     (case a of None \<Rightarrow> None | Some p \<Rightarrow>
        (case b of None \<Rightarrow> None | Some q \<Rightarrow>
           (case c of None \<Rightarrow> None | Some r \<Rightarrow> Some (Vec3 p q r))))"

definition vdivs :: "vec3 \<Rightarrow> real \<Rightarrow> vec3 option" where
  \<comment> \<open>vector divided by scalar\<close>
  "vdivs a s = vec3_opt (fdiv (vx a) s) (fdiv (vy a) s) (fdiv (vz a) s)"

definition vdiv :: "vec3 \<Rightarrow> vec3 \<Rightarrow> vec3 option" where
  \<comment> \<open>component-wise quotient of two vectors\<close>
  "vdiv a b = vec3_opt (fdiv (vx a) (vx b)) (fdiv (vy a) (vy b)) (fdiv (vz a) (vz b))"

definition dot :: "vec3 \<Rightarrow> vec3 \<Rightarrow> real" where
  "dot a b = vx a * vx b + vy a * vy b + vz a * vz b"

definition vlength :: "vec3 \<Rightarrow> real" where
  \<comment> \<open>\<^verbatim>\<open>length(v)\<close>\<close>
  "vlength a = sqrt (dot a a)"

definition normalize_vec :: "vec3 \<Rightarrow> vec3 option" where
  \<comment> \<open>\<^verbatim>\<open>normalize(v) = v / length(v)\<close>; undefined for the zero vector\<close>
  "normalize_vec a = vdivs a (vlength a)"

subsection \<open>Uniforms, varyings and the light structure\<close>

definition MAX_LIGHTS :: int where
  "MAX_LIGHTS = 10"

record PointLight =
  pos :: vec3
  color :: vec3
  intensity :: real

text \<open>
  The uniform block. The three light arrays are flat \<^verbatim>\<open>float\<close> arrays of the fixed
  sizes \<^verbatim>\<open>MAX_LIGHTS * 3\<close>, \<^verbatim>\<open>MAX_LIGHTS * 3\<close> and \<^verbatim>\<open>MAX_LIGHTS\<close>, modelled as lists;
  \<open>uniforms_wf\<close> states the sizes, and the loop of \<^verbatim>\<open>main\<close> reads below them only
  (\<open>light_at_in_range\<close>), so no property depends on a read out of range. The uniforms
  \<^verbatim>\<open>roughness\<close> and \<^verbatim>\<open>metallic\<close> carry the prefix \<open>u_\<close>, the source's names being
  those of function parameters as well.
\<close>

record uniforms =
  uMaterial_albedo :: vec3
  uLightCount :: int
  uLightPositions :: "real list"
  uLightColors :: "real list"
  uLightIntensities :: "real list"
  u_roughness :: real
  u_metallic :: real

record varyings =
  vPositionWS :: vec3
  vNormalWS :: vec3
  ViewDirectionWS :: vec3

definition uniforms_wf :: "uniforms \<Rightarrow> bool" where
  \<comment> \<open>the array sizes that the declarations of the shader fix\<close>
  "uniforms_wf u \<longleftrightarrow>
     length (uLightPositions u) = nat (MAX_LIGHTS * 3) \<and>
     length (uLightColors u) = nat (MAX_LIGHTS * 3) \<and>
     length (uLightIntensities u) = nat MAX_LIGHTS"

subsection \<open>Colour space\<close>

definition sRGBToLinear_channel :: "real \<Rightarrow> real option" where
  \<comment> \<open>one colour channel of \<^verbatim>\<open>sRGBToLinear\<close>; \<^verbatim>\<open>mix\<close> evaluates both arguments\<close>
  "sRGBToLinear_channel v =
     (case glsl_pow (v * 0.9478672986 + 0.0521327014) 2.4 of
        None \<Rightarrow> None
      | Some p \<Rightarrow> Some (mix p (v * 0.0773993808) (lessThanEqual v 0.04045)))"

definition sRGBToLinear :: "vec4 \<Rightarrow> vec4 option" where
  "sRGBToLinear v =
     (case vec3_opt (sRGBToLinear_channel (vx (rgb v)))
                    (sRGBToLinear_channel (vy (rgb v)))
                    (sRGBToLinear_channel (vz (rgb v))) of
        None \<Rightarrow> None
      | Some c \<Rightarrow> Some (Vec4 c (alpha v)))"

definition LinearTosRGB_channel :: "real \<Rightarrow> real option" where
  \<comment> \<open>one colour channel of \<^verbatim>\<open>LinearTosRGB\<close>\<close>
  "LinearTosRGB_channel v =
     (case glsl_pow v 0.41666 of
        None \<Rightarrow> None
      | Some p \<Rightarrow> Some (mix (p * 1.055 - 0.055) (v * 12.92) (lessThanEqual v 0.0031308)))"

definition LinearTosRGB :: "vec4 \<Rightarrow> vec4 option" where
  "LinearTosRGB v =
     (case vec3_opt (LinearTosRGB_channel (vx (rgb v)))
                    (LinearTosRGB_channel (vy (rgb v)))
                    (LinearTosRGB_channel (vz (rgb v))) of
        None \<Rightarrow> None
      | Some c \<Rightarrow> Some (Vec4 c (alpha v)))"

subsection \<open>Point light, tone map and the BRDF\<close>

definition calculatePointLight :: "PointLight \<Rightarrow> vec3 \<Rightarrow> vec3 option" where
  "calculatePointLight light position =
     (let w_i = vsub (pos light) position;
          distance = vlength w_i
      in case fdiv (intensity light) (4.0 * 3.14159 * distance * distance) of
           None \<Rightarrow> None
         | Some f \<Rightarrow> Some (vscale (color light) f))"

definition tonemap :: "vec3 \<Rightarrow> vec3 option" where
  \<comment> \<open>Reinhard tonemapping\<close>
  "tonemap c = vdiv c (vadd c (vsplat 1.0))"

definition calculateDiffuseBRDF :: "vec3 \<Rightarrow> vec3 option" where
  \<comment> \<open>Lambertian BRDF\<close>
  "calculateDiffuseBRDF albedo = vdivs albedo 3.14159"

definition calculateDistributionGGX :: "vec3 \<Rightarrow> vec3 \<Rightarrow> real \<Rightarrow> real option" where
  "calculateDistributionGGX normal halfVector roughness =
     (let a2 = roughness * roughness;
          nDotH = max (dot normal halfVector) 0.0;
          nDotH2 = nDotH * nDotH;
          denom = (nDotH2 * (a2 - 1.0) + 1.0);
          denom' = 3.14159 * denom * denom
      in fdiv a2 denom')"

definition calculateGeometrySchlick :: "vec3 \<Rightarrow> vec3 \<Rightarrow> real \<Rightarrow> real option" where
  "calculateGeometrySchlick normal dir k =
     (let ndot = max (dot normal dir) 0.0
      in fdiv ndot (ndot * (1.0 - k) + k))"

definition calculateGeometrySmith :: "vec3 \<Rightarrow> vec3 \<Rightarrow> vec3 \<Rightarrow> real \<Rightarrow> real option" where
  "calculateGeometrySmith normal w_i w_o k =
     (case calculateGeometrySchlick normal w_i k of
        None \<Rightarrow> None
      | Some g1 \<Rightarrow>
         (case calculateGeometrySchlick normal w_o k of
            None \<Rightarrow> None
          | Some g2 \<Rightarrow> Some (g1 * g2)))"

definition calculateFresnelSchlick :: "vec3 \<Rightarrow> vec3 \<Rightarrow> vec3 \<Rightarrow> vec3 option" where
  "calculateFresnelSchlick w_i w_o F0 =
     (case normalize_vec (vadd w_i w_o) of
        None \<Rightarrow> None
      | Some h \<Rightarrow>
         (let VoH = max (dot w_o h) 0.0
          in case glsl_pow (1.0 - VoH) 5.0 of
               None \<Rightarrow> None
             | Some p \<Rightarrow> Some (vadd F0 (vscale (vsub (vsplat 1.0) F0) p))))"

definition calculateSpecularBRDF ::
  "vec3 \<Rightarrow> vec3 \<Rightarrow> vec3 \<Rightarrow> vec3 \<Rightarrow> real \<Rightarrow> real \<Rightarrow> vec3 \<Rightarrow> vec3 option" where
  \<comment> \<open>the local \<^verbatim>\<open>F\<close> is assigned and never read, as in the source\<close>
  "calculateSpecularBRDF albedo normal w_o w_i roughness metallic F0 =
     (let k = ((roughness + 1.0) * (roughness + 1.0)) / 8.0;
          D = (case normalize_vec (vadd w_i w_o) of
                 None \<Rightarrow> None
               | Some h \<Rightarrow> calculateDistributionGGX normal h roughness);
          F = calculateFresnelSchlick w_i w_o F0;
          G = calculateGeometrySmith normal w_i w_o k
      in case D of
           None \<Rightarrow> None
         | Some d \<Rightarrow>
            (case G of
               None \<Rightarrow> None
             | Some g \<Rightarrow>
                (case fdiv (d * g)
                        (4.0 * max (dot w_o normal) 0.00001 * max (dot w_i normal) 0.00001) of
                   None \<Rightarrow> None
                 | Some s \<Rightarrow> Some (vsplat s))))"

definition calculateBRDF ::
  "PointLight \<Rightarrow> vec3 \<Rightarrow> vec3 \<Rightarrow> vec3 \<Rightarrow> real \<Rightarrow> real \<Rightarrow> vec3 \<Rightarrow> vec3 option" where
  "calculateBRDF light position normal w_o roughness metallic albedo =
     (case normalize_vec (vsub (pos light) position) of
        None \<Rightarrow> None
      | Some w_i \<Rightarrow>
         (let F0 = vmix (vsplat 0.04) albedo metallic
          in case calculateFresnelSchlick w_i w_o F0 of
               None \<Rightarrow> None
             | Some kS \<Rightarrow>
                (case calculateSpecularBRDF albedo normal w_o w_i roughness metallic F0 of
                   None \<Rightarrow> None
                 | Some spec \<Rightarrow>
                    (case calculateDiffuseBRDF albedo of
                       None \<Rightarrow> None
                     | Some lambert \<Rightarrow>
                        (case calculatePointLight light position of
                           None \<Rightarrow> None
                         | Some radiance \<Rightarrow>
                            (let specularBRDF = vmul kS spec;
                                 diffuseBRDF =
                                   vscale (vmul (vsub (vsplat 1.0) kS) lambert) (1.0 - metallic)
                             in Some (vscale (vmul (vadd diffuseBRDF specularBRDF) radiance)
                                        (max (dot normal w_i) 0.0))))))))"

subsection \<open>The entry point\<close>

definition light_at :: "uniforms \<Rightarrow> int \<Rightarrow> PointLight" where
  \<comment> \<open>the \<^verbatim>\<open>PointLight\<close> that the loop body builds from the flat arrays at index \<open>i\<close>\<close>
  "light_at u i =
     \<lparr> pos = Vec3 (uLightPositions u ! nat (i * 3))
                  (uLightPositions u ! nat (i * 3 + 1))
                  (uLightPositions u ! nat (i * 3 + 2)),
       color = Vec3 (uLightColors u ! nat (i * 3))
                    (uLightColors u ! nat (i * 3 + 1))
                    (uLightColors u ! nat (i * 3 + 2)),
       intensity = uLightIntensities u ! nat i \<rparr>"

definition light_contribution :: "uniforms \<Rightarrow> varyings \<Rightarrow> int \<Rightarrow> vec3 option" where
  \<comment> \<open>the call of \<^verbatim>\<open>calculateBRDF\<close> in the loop body, for the light at index \<open>i\<close>; its
      arguments \<^verbatim>\<open>albedo\<close>, \<^verbatim>\<open>w_o\<close> and \<^verbatim>\<open>normal\<close> are the locals that \<^verbatim>\<open>main\<close>
      computes before the loop, and they are read by this call only\<close>
  "light_contribution u f i =
     (case sRGBToLinear (Vec4 (uMaterial_albedo u) 1.0) of
        None \<Rightarrow> None
      | Some a \<Rightarrow>
         (case normalize_vec (ViewDirectionWS f) of
            None \<Rightarrow> None
          | Some w_o \<Rightarrow>
             (case normalize_vec (vNormalWS f) of
                None \<Rightarrow> None
              | Some normal \<Rightarrow>
                 calculateBRDF (light_at u i) (vPositionWS f) normal w_o
                   (u_roughness u) (u_metallic u) (rgb a))))"

function lights_loop :: "uniforms \<Rightarrow> varyings \<Rightarrow> int \<Rightarrow> vec3 \<Rightarrow> vec3 option" where
  "lights_loop u f i irradiance =
     (if i < MAX_LIGHTS then
        (if i \<ge> uLightCount u then Some irradiance
         else
           (case light_contribution u f i of
              None \<Rightarrow> None
            | Some c \<Rightarrow> lights_loop u f (i + 1) (vadd irradiance c)))
      else Some irradiance)"
  by pat_completeness auto
termination
  by (relation "measure (\<lambda>(u, f, i, irradiance). nat (MAX_LIGHTS - i))") auto

definition main_irradiance :: "uniforms \<Rightarrow> varyings \<Rightarrow> vec3 option" where
  \<comment> \<open>the value of the local \<^verbatim>\<open>irradiance\<close> when the loop of \<^verbatim>\<open>main\<close> ends\<close>
  "main_irradiance u f = lights_loop u f 0 (vsplat 0.0)"

definition main :: "uniforms \<Rightarrow> varyings \<Rightarrow> vec4 option" where
  \<comment> \<open>the value written to \<^verbatim>\<open>outFragColor\<close>\<close>
  "main u f =
     (case main_irradiance u f of
        None \<Rightarrow> None
      | Some irradiance \<Rightarrow>
         (case tonemap irradiance of
            None \<Rightarrow> None
          | Some t \<Rightarrow> LinearTosRGB (Vec4 t 1.0)))"

subsection \<open>Notions used to state the properties\<close>

definition vle :: "vec3 \<Rightarrow> vec3 \<Rightarrow> bool" where
  \<comment> \<open>channel-wise order\<close>
  "vle a b \<longleftrightarrow> vx a \<le> vx b \<and> vy a \<le> vy b \<and> vz a \<le> vz b"

primrec accumulate :: "vec3 option list \<Rightarrow> vec3 \<Rightarrow> vec3 option" where
  \<comment> \<open>the sum of a sequence of contributions, added to a start value from left to right\<close>
  "accumulate [] acc = Some acc"
| "accumulate (c # cs) acc = (case c of None \<Rightarrow> None | Some v \<Rightarrow> accumulate cs (vadd acc v))"

definition shade :: "uniforms \<Rightarrow> varyings \<Rightarrow> vec4 option" where
  \<comment> \<open>the orchestration contract of the shading pipeline, in the four steps of the
      specification: decode the albedo, sum the contributions of the lights below the
      active count, tone-map, encode with alpha 1\<close>
  "shade u f =
     (let albedoLinear = sRGBToLinear (Vec4 (uMaterial_albedo u) 1);
          surfaceNormal = normalize_vec (vNormalWS f);
          viewDirection = normalize_vec (ViewDirectionWS f);
          evaluate = (\<lambda>i.
            case albedoLinear of None \<Rightarrow> None | Some a \<Rightarrow>
              (case viewDirection of None \<Rightarrow> None | Some w \<Rightarrow>
                 (case surfaceNormal of None \<Rightarrow> None | Some n \<Rightarrow>
                    calculateBRDF (light_at u (int i)) (vPositionWS f) n w
                      (u_roughness u) (u_metallic u) (rgb a))));
          irradiance = accumulate (map evaluate [0 ..< nat (uLightCount u)]) (vsplat 0)
      in case irradiance of None \<Rightarrow> None | Some e \<Rightarrow>
           (case tonemap e of None \<Rightarrow> None | Some toneMapped \<Rightarrow>
              (case vec3_opt (LinearTosRGB_channel (vx toneMapped))
                             (LinearTosRGB_channel (vy toneMapped))
                             (LinearTosRGB_channel (vz toneMapped)) of
                 None \<Rightarrow> None
               | Some encoded \<Rightarrow> Some (Vec4 encoded 1))))"

definition same_material :: "uniforms \<Rightarrow> uniforms \<Rightarrow> bool" where
  \<comment> \<open>two uniform blocks with the same material parameters\<close>
  "same_material u v \<longleftrightarrow>
     uMaterial_albedo u = uMaterial_albedo v \<and> u_roughness u = u_roughness v \<and>
     u_metallic u = u_metallic v"

text \<open>
  The end-to-end scenario of the specification: albedo \<open>(1, 1, 1)\<close>, roughness \<open>0.5\<close>,
  metallic \<open>0\<close>, one light at \<open>(0, 0, 5)\<close> with colour \<open>(1, 1, 1)\<close> and intensity
  \<open>2000\<close>, the surface point at the origin with normal and view direction
  \<open>(0, 0, 1)\<close>. The declared light count is a parameter.
\<close>

definition scenario_uniforms :: "int \<Rightarrow> uniforms" where
  "scenario_uniforms n =
     \<lparr>uMaterial_albedo = Vec3 1 1 1, uLightCount = n,
       uLightPositions = [0, 0, 5] @ replicate 27 0,
       uLightColors = [1, 1, 1] @ replicate 27 0,
       uLightIntensities = 2000 # replicate 9 0,
       u_roughness = 1 / 2, u_metallic = 0\<rparr>"

definition scenario_fragment :: varyings where
  "scenario_fragment =
     \<lparr>vPositionWS = Vec3 0 0 0, vNormalWS = Vec3 0 0 1, ViewDirectionWS = Vec3 0 0 1\<rparr>"

definition vclose :: "vec3 \<Rightarrow> vec3 \<Rightarrow> real \<Rightarrow> bool" where
  \<comment> \<open>two colours that differ by at most a tolerance on every channel\<close>
  "vclose a b tol \<longleftrightarrow>
     \<bar>vx a - vx b\<bar> \<le> tol \<and> \<bar>vy a - vy b\<bar> \<le> tol \<and> \<bar>vz a - vz b\<bar> \<le> tol"


section \<open>The float32 arithmetic of the shader\<close>

text \<open>
  The shader computes in GLSL \<^verbatim>\<open>highp float\<close>. Where rounding, overflow or a
  division by zero decide a property, the functions are modelled a second time, on
  IEEE 754 binary32 values: a finite value is a real number, every operation rounds
  its exact result to the nearest binary32 value, ties to even, with gradual
  underflow and overflow to infinity; a division of a non-zero value by zero gives
  an infinity, and the invalid operations (\<open>0 / 0\<close>, \<open>\<infinity> / \<infinity>\<close>, \<open>\<infinity> * 0\<close>, \<open>\<infinity> - \<infinity>\<close>)
  give NaN. The two zeros are identified; every zero divisor that the properties
  below meet is a positive zero. The names of this model carry the suffix \<open>_f32\<close>.
\<close>

subsection \<open>Binary32 values and rounding\<close>

datatype f32 = Fin real | PInf | NInf | NaN

definition rhe :: "real \<Rightarrow> int" where
  \<comment> \<open>round to the nearest integer, ties to the even one\<close>
  "rhe r =
     (let f = \<lfloor>r\<rfloor>; d = r - of_int f
      in if d < 1 / 2 then f else if 1 / 2 < d then f + 1 else if even f then f else f + 1)"

definition exponent32 :: "real \<Rightarrow> int" where
  \<comment> \<open>the binary exponent of a non-zero real, not below that of the subnormal range\<close>
  "exponent32 x = max \<lfloor>log 2 \<bar>x\<bar>\<rfloor> (- 126)"

definition rv32 :: "real \<Rightarrow> real" where
  \<comment> \<open>the nearest real with 24 significant bits, in units of \<open>2 ^ (exponent - 23)\<close>\<close>
  "rv32 x =
     (if x = 0 then 0
      else of_int (rhe (x / 2 powi (exponent32 x - 23))) * 2 powi (exponent32 x - 23))"

definition round32 :: "real \<Rightarrow> f32" where
  \<comment> \<open>the binary32 value of a real: overflow to infinity from \<open>2 ^ 128\<close> on\<close>
  "round32 x =
     (if 2 ^ 128 \<le> \<bar>rv32 x\<bar> then (if 0 < x then PInf else NInf) else Fin (rv32 x))"

definition is_f32 :: "real \<Rightarrow> bool" where
  \<comment> \<open>the reals that are finite binary32 values: rounding leaves them as they are\<close>
  "is_f32 x \<longleftrightarrow> round32 x = Fin x"

definition finf :: "real \<Rightarrow> f32" where
  \<comment> \<open>the infinity with the sign of a real; NaN for zero\<close>
  "finf s = (if 0 < s then PInf else if s < 0 then NInf else NaN)"

fun fneg :: "f32 \<Rightarrow> f32" where
  "fneg (Fin a) = Fin (- a)"
| "fneg PInf = NInf"
| "fneg NInf = PInf"
| "fneg NaN = NaN"

fun fadd :: "f32 \<Rightarrow> f32 \<Rightarrow> f32" where
  "fadd (Fin a) (Fin b) = round32 (a + b)"
| "fadd NaN b = NaN"
| "fadd a NaN = NaN"
| "fadd PInf NInf = NaN"
| "fadd NInf PInf = NaN"
| "fadd PInf b = PInf"
| "fadd a PInf = PInf"
| "fadd NInf b = NInf"
| "fadd a NInf = NInf"

definition fsub :: "f32 \<Rightarrow> f32 \<Rightarrow> f32" where
  "fsub a b = fadd a (fneg b)"

fun fmul :: "f32 \<Rightarrow> f32 \<Rightarrow> f32" where
  "fmul (Fin a) (Fin b) = round32 (a * b)"
| "fmul NaN b = NaN"
| "fmul a NaN = NaN"
| "fmul (Fin a) PInf = finf a"
| "fmul (Fin a) NInf = finf (- a)"
| "fmul PInf (Fin b) = finf b"
| "fmul NInf (Fin b) = finf (- b)"
| "fmul PInf PInf = PInf"
| "fmul NInf NInf = PInf"
| "fmul PInf NInf = NInf"
| "fmul NInf PInf = NInf"

fun fdiv32 :: "f32 \<Rightarrow> f32 \<Rightarrow> f32" where
  "fdiv32 (Fin a) (Fin b) = (if b = 0 then finf a else round32 (a / b))"
| "fdiv32 NaN b = NaN"
| "fdiv32 a NaN = NaN"
| "fdiv32 (Fin a) PInf = Fin 0"
| "fdiv32 (Fin a) NInf = Fin 0"
| "fdiv32 PInf (Fin b) = (if b < 0 then NInf else PInf)"
| "fdiv32 NInf (Fin b) = (if b < 0 then PInf else NInf)"
| "fdiv32 PInf PInf = NaN"
| "fdiv32 PInf NInf = NaN"
| "fdiv32 NInf PInf = NaN"
| "fdiv32 NInf NInf = NaN"

fun fmax :: "f32 \<Rightarrow> f32 \<Rightarrow> f32" where
  \<comment> \<open>\<^verbatim>\<open>max\<close>; with one NaN operand the other operand, as the IEEE maximum does. The
      properties below do not depend on this choice.\<close>
  "fmax NaN b = b"
| "fmax a NaN = a"
| "fmax PInf b = PInf"
| "fmax a PInf = PInf"
| "fmax NInf b = b"
| "fmax a NInf = a"
| "fmax (Fin a) (Fin b) = Fin (max a b)"

fun fsqrt :: "f32 \<Rightarrow> f32" where
  "fsqrt (Fin a) = (if a < 0 then NaN else round32 (sqrt a))"
| "fsqrt PInf = PInf"
| "fsqrt a = NaN"

fun fpow :: "f32 \<Rightarrow> f32 \<Rightarrow> f32" where
  \<comment> \<open>\<^verbatim>\<open>pow\<close>; NaN where GLSL leaves the result undefined (a negative base, a zero base
      with an exponent that is not positive). The exponents of the shader are finite
      literals; NaN stands for the other cases.\<close>
  "fpow (Fin a) (Fin b) = (if a < 0 \<or> (a = 0 \<and> b \<le> 0) then NaN else round32 (a powr b))"
| "fpow PInf (Fin b) = (if 0 < b then PInf else if b < 0 then Fin 0 else Fin 1)"
| "fpow a b = NaN"

definition lit32 :: "real \<Rightarrow> f32" where
  \<comment> \<open>a decimal literal of the source\<close>
  "lit32 x = round32 x"

definition fmix :: "f32 \<Rightarrow> f32 \<Rightarrow> f32 \<Rightarrow> f32" where
  \<comment> \<open>\<^verbatim>\<open>mix(x, y, a) = x * (1 - a) + y * a\<close>\<close>
  "fmix p q a = fadd (fmul p (fsub (Fin 1) a)) (fmul q a)"

subsection \<open>Vectors\<close>

datatype fvec3 = FVec3 (fx: f32) (fy: f32) (fz: f32)

definition fsplat :: "f32 \<Rightarrow> fvec3" where
  "fsplat s = FVec3 s s s"

definition fvadd :: "fvec3 \<Rightarrow> fvec3 \<Rightarrow> fvec3" where
  "fvadd a b = FVec3 (fadd (fx a) (fx b)) (fadd (fy a) (fy b)) (fadd (fz a) (fz b))"

definition fvsub :: "fvec3 \<Rightarrow> fvec3 \<Rightarrow> fvec3" where
  "fvsub a b = FVec3 (fsub (fx a) (fx b)) (fsub (fy a) (fy b)) (fsub (fz a) (fz b))"

definition fvmul :: "fvec3 \<Rightarrow> fvec3 \<Rightarrow> fvec3" where
  "fvmul a b = FVec3 (fmul (fx a) (fx b)) (fmul (fy a) (fy b)) (fmul (fz a) (fz b))"

definition fvscale :: "fvec3 \<Rightarrow> f32 \<Rightarrow> fvec3" where
  "fvscale a s = FVec3 (fmul (fx a) s) (fmul (fy a) s) (fmul (fz a) s)"

definition fvdivs :: "fvec3 \<Rightarrow> f32 \<Rightarrow> fvec3" where
  "fvdivs a s = FVec3 (fdiv32 (fx a) s) (fdiv32 (fy a) s) (fdiv32 (fz a) s)"

definition fvdiv :: "fvec3 \<Rightarrow> fvec3 \<Rightarrow> fvec3" where
  "fvdiv a b = FVec3 (fdiv32 (fx a) (fx b)) (fdiv32 (fy a) (fy b)) (fdiv32 (fz a) (fz b))"

definition fvmix :: "fvec3 \<Rightarrow> fvec3 \<Rightarrow> f32 \<Rightarrow> fvec3" where
  "fvmix a b s = FVec3 (fmix (fx a) (fx b) s) (fmix (fy a) (fy b) s) (fmix (fz a) (fz b) s)"

definition fdot :: "fvec3 \<Rightarrow> fvec3 \<Rightarrow> f32" where
  "fdot a b = fadd (fadd (fmul (fx a) (fx b)) (fmul (fy a) (fy b))) (fmul (fz a) (fz b))"

definition flength :: "fvec3 \<Rightarrow> f32" where
  "flength a = fsqrt (fdot a a)"

definition fnormalize :: "fvec3 \<Rightarrow> fvec3" where
  "fnormalize a = fvdivs a (flength a)"

subsection \<open>Point light, tone map and the BRDF on float32\<close>

record PointLight_f32 =
  pos_f :: fvec3
  color_f :: fvec3
  intensity_f :: f32

definition calculatePointLight_f32 :: "PointLight_f32 \<Rightarrow> fvec3 \<Rightarrow> fvec3" where
  "calculatePointLight_f32 light position =
     (let w_i = fvsub (pos_f light) position;
          distance = flength w_i
      in fvscale (color_f light)
           (fdiv32 (intensity_f light)
              (fmul (fmul (fmul (lit32 4.0) (lit32 3.14159)) distance) distance)))"

definition tonemap_f32 :: "fvec3 \<Rightarrow> fvec3" where
  \<comment> \<open>Reinhard tonemapping\<close>
  "tonemap_f32 c = fvdiv c (fvadd c (fsplat (lit32 1.0)))"

definition calculateDiffuseBRDF_f32 :: "fvec3 \<Rightarrow> fvec3" where
  \<comment> \<open>Lambertian BRDF\<close>
  "calculateDiffuseBRDF_f32 albedo = fvdivs albedo (lit32 3.14159)"

definition calculateDistributionGGX_f32 :: "fvec3 \<Rightarrow> fvec3 \<Rightarrow> f32 \<Rightarrow> f32" where
  "calculateDistributionGGX_f32 normal halfVector roughness =
     (let a2 = fmul roughness roughness;
          nDotH = fmax (fdot normal halfVector) (lit32 0.0);
          nDotH2 = fmul nDotH nDotH;
          denom = fadd (fmul nDotH2 (fsub a2 (lit32 1.0))) (lit32 1.0);
          denom' = fmul (fmul (lit32 3.14159) denom) denom
      in fdiv32 a2 denom')"

definition calculateGeometrySchlick_f32 :: "fvec3 \<Rightarrow> fvec3 \<Rightarrow> f32 \<Rightarrow> f32" where
  "calculateGeometrySchlick_f32 normal dir k =
     (let ndot = fmax (fdot normal dir) (lit32 0.0)
      in fdiv32 ndot (fadd (fmul ndot (fsub (lit32 1.0) k)) k))"

definition calculateGeometrySmith_f32 :: "fvec3 \<Rightarrow> fvec3 \<Rightarrow> fvec3 \<Rightarrow> f32 \<Rightarrow> f32" where
  "calculateGeometrySmith_f32 normal w_i w_o k =
     fmul (calculateGeometrySchlick_f32 normal w_i k) (calculateGeometrySchlick_f32 normal w_o k)"

definition calculateFresnelSchlick_f32 :: "fvec3 \<Rightarrow> fvec3 \<Rightarrow> fvec3 \<Rightarrow> fvec3" where
  "calculateFresnelSchlick_f32 w_i w_o F0 =
     (let h = fnormalize (fvadd w_i w_o);
          VoH = fmax (fdot w_o h) (lit32 0.0)
      in fvadd F0 (fvscale (fvsub (fsplat (lit32 1.0)) F0)
                     (fpow (fsub (lit32 1.0) VoH) (lit32 5.0))))"

definition calculateSpecularBRDF_f32 ::
  "fvec3 \<Rightarrow> fvec3 \<Rightarrow> fvec3 \<Rightarrow> fvec3 \<Rightarrow> f32 \<Rightarrow> f32 \<Rightarrow> fvec3 \<Rightarrow> fvec3" where
  \<comment> \<open>the local \<^verbatim>\<open>F\<close> is assigned and never read, as in the source\<close>
  "calculateSpecularBRDF_f32 albedo normal w_o w_i roughness metallic F0 =
     (let k = fdiv32 (fmul (fadd roughness (lit32 1.0)) (fadd roughness (lit32 1.0))) (lit32 8.0);
          D = calculateDistributionGGX_f32 normal (fnormalize (fvadd w_i w_o)) roughness;
          F = calculateFresnelSchlick_f32 w_i w_o F0;
          G = calculateGeometrySmith_f32 normal w_i w_o k
      in fsplat (fdiv32 (fmul D G)
                   (fmul (fmul (lit32 4.0) (fmax (fdot w_o normal) (lit32 0.00001)))
                         (fmax (fdot w_i normal) (lit32 0.00001)))))"

definition calculateBRDF_f32 ::
  "PointLight_f32 \<Rightarrow> fvec3 \<Rightarrow> fvec3 \<Rightarrow> fvec3 \<Rightarrow> f32 \<Rightarrow> f32 \<Rightarrow> fvec3 \<Rightarrow> fvec3" where
  "calculateBRDF_f32 light position normal w_o roughness metallic albedo =
     (let w_i = fnormalize (fvsub (pos_f light) position);
          F0 = fvmix (fsplat (lit32 0.04)) albedo metallic;
          kS = calculateFresnelSchlick_f32 w_i w_o F0;
          specularBRDF =
            fvmul kS (calculateSpecularBRDF_f32 albedo normal w_o w_i roughness metallic F0);
          diffuseBRDF =
            fvscale (fvmul (fvsub (fsplat (lit32 1.0)) kS) (calculateDiffuseBRDF_f32 albedo))
              (fsub (lit32 1.0) metallic)
      in fvscale (fvmul (fvadd diffuseBRDF specularBRDF) (calculatePointLight_f32 light position))
           (fmax (fdot normal w_i) (lit32 0.0)))"

subsection \<open>Notions used to state the float32 properties\<close>

fun fle :: "f32 \<Rightarrow> f32 \<Rightarrow> bool" where
  \<comment> \<open>the comparison \<^verbatim>\<open><=\<close> of two floats: false when an operand is NaN\<close>
  "fle (Fin a) (Fin b) = (a \<le> b)"
| "fle NaN b = False"
| "fle a NaN = False"
| "fle NInf b = True"
| "fle a PInf = True"
| "fle PInf b = False"
| "fle a NInf = False"

fun finite32 :: "f32 \<Rightarrow> bool" where
  \<comment> \<open>neither an infinity nor NaN\<close>
  "finite32 (Fin a) = True"
| "finite32 a = False"

fun fin_in :: "real \<Rightarrow> real \<Rightarrow> f32 \<Rightarrow> bool" where
  \<comment> \<open>a finite float in a closed interval\<close>
  "fin_in a b (Fin y) = (a \<le> y \<and> y \<le> b)"
| "fin_in a b v = False"

definition vfin_in :: "real \<Rightarrow> real \<Rightarrow> fvec3 \<Rightarrow> bool" where
  \<comment> \<open>a vector of finite floats in a closed interval\<close>
  "vfin_in a b v \<longleftrightarrow> fin_in a b (fx v) \<and> fin_in a b (fy v) \<and> fin_in a b (fz v)"

definition reinhard_f32 :: "f32 \<Rightarrow> f32" where
  \<comment> \<open>one channel of \<^verbatim>\<open>tonemap\<close>\<close>
  "reinhard_f32 c = fdiv32 c (fadd c (lit32 1.0))"

definition GGX_denom_f32 :: "fvec3 \<Rightarrow> fvec3 \<Rightarrow> f32 \<Rightarrow> f32" where
  \<comment> \<open>the final value of the local \<^verbatim>\<open>denom\<close> of \<^verbatim>\<open>calculateDistributionGGX\<close>, the divisor\<close>
  "GGX_denom_f32 normal halfVector roughness =
     (let a2 = fmul roughness roughness;
          nDotH = fmax (fdot normal halfVector) (lit32 0.0);
          nDotH2 = fmul nDotH nDotH;
          denom = fadd (fmul nDotH2 (fsub a2 (lit32 1.0))) (lit32 1.0)
      in fmul (fmul (lit32 3.14159) denom) denom)"

definition BRDF_radiance_f32 ::
  "PointLight_f32 \<Rightarrow> fvec3 \<Rightarrow> fvec3 \<Rightarrow> fvec3 \<Rightarrow> f32 \<Rightarrow> f32 \<Rightarrow> fvec3 \<Rightarrow> fvec3" where
  \<comment> \<open>the left factor of the product that \<^verbatim>\<open>calculateBRDF\<close> returns:
      \<^verbatim>\<open>(diffuseBRDF + specularBRDF) * calculatePointLight(light, position)\<close>\<close>
  "BRDF_radiance_f32 light position normal w_o roughness metallic albedo =
     (let w_i = fnormalize (fvsub (pos_f light) position);
          F0 = fvmix (fsplat (lit32 0.04)) albedo metallic;
          kS = calculateFresnelSchlick_f32 w_i w_o F0;
          specularBRDF =
            fvmul kS (calculateSpecularBRDF_f32 albedo normal w_o w_i roughness metallic F0);
          diffuseBRDF =
            fvscale (fvmul (fvsub (fsplat (lit32 1.0)) kS) (calculateDiffuseBRDF_f32 albedo))
              (fsub (lit32 1.0) metallic)
      in fvmul (fvadd diffuseBRDF specularBRDF) (calculatePointLight_f32 light position))"

definition backface_channel :: "f32 \<Rightarrow> f32" where
  \<comment> \<open>the product of a float with a zero cosine\<close>
  "backface_channel v = (if finite32 v then Fin 0 else NaN)"
section \<open>Auxiliary facts\<close>

subsection \<open>Vectors\<close>

lemma cauchy_schwarz3: "(dot a b)\<^sup>2 \<le> dot a a * dot b b"
proof -
  have "dot a a * dot b b - (dot a b)\<^sup>2 =
        (vx a * vy b - vy a * vx b)\<^sup>2 + (vx a * vz b - vz a * vx b)\<^sup>2 + (vy a * vz b - vz a * vy b)\<^sup>2"
    by (simp add: dot_def power2_eq_square algebra_simps)
  moreover have "0 \<le> (vx a * vy b - vy a * vx b)\<^sup>2 + (vx a * vz b - vz a * vx b)\<^sup>2 + (vy a * vz b - vz a * vy b)\<^sup>2"
    by simp
  ultimately show ?thesis by linarith
qed

lemma dot_self_nonneg: "0 \<le> dot a a"
  by (simp add: dot_def)

lemma vlength_one_dot: "vlength a = 1 \<longleftrightarrow> dot a a = 1"
  by (simp add: vlength_def)

lemma dot_unit_le_one: "vlength a = 1 \<Longrightarrow> vlength b = 1 \<Longrightarrow> dot a b \<le> 1"
proof -
  assume "vlength a = 1" "vlength b = 1"
  then have "(dot a b)\<^sup>2 \<le> 1" using cauchy_schwarz3 [of a b] by (simp add: vlength_one_dot)
  then have "\<bar>dot a b\<bar> \<le> 1" by (simp add: abs_square_le_1)
  then show ?thesis by linarith
qed

lemma normalize_unit:
  assumes "normalize_vec a = Some w"
  shows "vlength w = 1"
proof -
  have nz: "vlength a \<noteq> 0" using assms
    by (auto simp: normalize_vec_def vdivs_def vec3_opt_def fdiv_def split: if_splits)
  then have w: "w = Vec3 (vx a / vlength a) (vy a / vlength a) (vz a / vlength a)"
    using assms by (simp add: normalize_vec_def vdivs_def vec3_opt_def fdiv_def)
  have "dot w w = dot a a / (vlength a)\<^sup>2"
    by (simp add: w dot_def power2_eq_square add_divide_distrib)
  also have "(vlength a)\<^sup>2 = dot a a"
    by (simp add: vlength_def dot_self_nonneg)
  finally show ?thesis using nz by (simp add: vlength_one_dot vlength_def)
qed

subsection \<open>Tone map\<close>

lemma reinhard_mono:
  fixes c d :: real
  assumes "0 \<le> c" "c \<le> d"
  shows "c / (c + 1) \<le> d / (d + 1)"
  using assms by (simp add: field_simps)

subsection \<open>GGX distribution\<close>

lemma GGX_inner_pos:
  fixes t r :: real
  assumes "0 \<le> t" "t \<le> 1" "r \<noteq> 0"
  shows "0 < t * t * (r * r - 1) + 1"
proof -
  have tt: "0 \<le> t * t" "t * t \<le> 1" using assms by (simp_all add: mult_le_one)
  have rr: "0 < r * r" using assms by (auto simp: zero_less_mult_iff)
  have "t * t * (r * r - 1) + 1 = t * t * (r * r) + (1 - t * t)" by (simp add: algebra_simps)
  moreover have "0 < t * t * (r * r) + (1 - t * t)"
  proof (cases "t * t = 0")
    case True then show ?thesis by simp
  next
    case False
    then have "0 < t * t" using tt by linarith
    then have "0 < t * t * (r * r)" using rr by simp
    then show ?thesis using tt by linarith
  qed
  ultimately show ?thesis by simp
qed

lemma clamped_dot_range:
  assumes "vlength a = 1" "vlength b = 1"
  shows "0 \<le> max (dot a b) 0" and "max (dot a b) 0 \<le> 1"
  using dot_unit_le_one [OF assms] by simp_all

subsection \<open>The loop over the lights\<close>

lemma lights_loop_accumulate:
  "0 \<le> i \<Longrightarrow>
   lights_loop u f i acc =
     accumulate (map (\<lambda>j. light_contribution u f (int j))
                   [nat i ..< nat (min (uLightCount u) MAX_LIGHTS)]) acc"
proof (induction u f i acc rule: lights_loop.induct)
  case (1 u f i irradiance)
  show ?case
  proof (cases "i < MAX_LIGHTS \<and> i < uLightCount u")
    case False
    then have "nat (min (uLightCount u) MAX_LIGHTS) \<le> nat i" by auto
    then show ?thesis using False by (subst lights_loop.simps) auto
  next
    case True
    then have lt: "nat i < nat (min (uLightCount u) MAX_LIGHTS)" using "1.prems" by auto
    have nxt: "nat (i + 1) = Suc (nat i)" using "1.prems" by simp
    show ?thesis
    proof (cases "light_contribution u f i")
      case None
      then show ?thesis using True lt "1.prems"
        by (subst lights_loop.simps) (simp add: upt_conv_Cons)
    next
      case (Some c)
      have "lights_loop u f (i + 1) (vadd irradiance c) =
            accumulate (map (\<lambda>j. light_contribution u f (int j))
                   [nat (i + 1) ..< nat (min (uLightCount u) MAX_LIGHTS)]) (vadd irradiance c)"
        using "1.IH" [of c] True Some "1.prems" by simp
      then show ?thesis using True lt Some "1.prems" nxt
        by (subst lights_loop.simps) (simp add: upt_conv_Cons)
    qed
  qed
qed

lemma light_at_in_range:
  assumes "uniforms_wf u" and "0 \<le> i" and "i < MAX_LIGHTS"
  shows "nat (i * 3 + 2) < length (uLightPositions u) \<and>
         nat (i * 3 + 2) < length (uLightColors u) \<and>
         nat i < length (uLightIntensities u)"
  using assms by (auto simp: uniforms_wf_def MAX_LIGHTS_def nat_less_iff)

lemma scenario_uniforms_wf: "uniforms_wf (scenario_uniforms n)"
  by (simp add: uniforms_wf_def scenario_uniforms_def MAX_LIGHTS_def)

lemma main_irradiance_accumulate:
  "main_irradiance u f =
     accumulate (map (\<lambda>j. light_contribution u f (int j))
                   [0 ..< nat (min (uLightCount u) MAX_LIGHTS)]) (vsplat 0)"
  using lights_loop_accumulate [of 0 u f "vsplat 0"] by (simp add: main_irradiance_def)

lemma light_contribution_shade:
  "light_contribution u f i =
     (case sRGBToLinear (Vec4 (uMaterial_albedo u) 1) of None \<Rightarrow> None | Some a \<Rightarrow>
              (case normalize_vec (ViewDirectionWS f) of None \<Rightarrow> None | Some w \<Rightarrow>
                 (case normalize_vec (vNormalWS f) of None \<Rightarrow> None | Some n \<Rightarrow>
                    calculateBRDF (light_at u i) (vPositionWS f) n w
                      (u_roughness u) (u_metallic u) (rgb a))))"
  by (simp add: light_contribution_def)

lemma light_contribution_cong:
  assumes "same_material u v" "light_at u i = light_at v i"
  shows "light_contribution u f i = light_contribution v f i"
  using assms by (simp add: light_contribution_def same_material_def cong: option.case_cong)

subsection \<open>The BRDF\<close>

lemma fresnel_Some:
  assumes "vlength w_o = 1" and "normalize_vec (vadd w_i w_o) = Some h"
  shows "calculateFresnelSchlick w_i w_o F0 =
           Some (vadd F0 (vscale (vsub (vsplat 1) F0) ((1 - max (dot w_o h) 0) ^ 5)))"
proof -
  have "vlength h = 1" using assms(2) by (rule normalize_unit)
  then have "max (dot w_o h) 0 \<le> 1" using clamped_dot_range(2) [OF assms(1)] by simp
  then show ?thesis
    by (simp add: calculateFresnelSchlick_def assms(2) glsl_pow_def Let_def)
qed

lemma fresnel_factor_range:
  assumes "vlength w_o = 1" and "vlength h = 1"
  shows "0 \<le> (1 - max (dot w_o h) 0) ^ 5" and "(1 - max (dot w_o h) 0) ^ 5 \<le> 1"
proof -
  have r: "0 \<le> 1 - max (dot w_o h) 0" "1 - max (dot w_o h) 0 \<le> 1"
    using clamped_dot_range [OF assms] by simp_all
  show "0 \<le> (1 - max (dot w_o h) 0) ^ 5" using r by simp
  show "(1 - max (dot w_o h) 0) ^ 5 \<le> 1" using r by (simp add: power_le_one)
qed

lemma schlick_denominator_pos:
  fixes t k :: real
  assumes "0 \<le> t" "t \<le> 1" "0 < k"
  shows "0 < t * (1 - k) + k"
proof -
  have "t * (1 - k) + k = t + k * (1 - t)" by (simp add: algebra_simps)
  moreover have "0 < t + k * (1 - t)"
  proof (cases "t = 1")
    case True then show ?thesis by simp
  next
    case False
    then have "0 < 1 - t" using assms by simp
    then have "0 < k * (1 - t)" using assms by simp
    then show ?thesis using assms by linarith
  qed
  ultimately show ?thesis by simp
qed

lemma schlick_Some:
  assumes "vlength n = 1" "vlength d = 1" "0 < k"
  shows "calculateGeometrySchlick n d k =
           Some (max (dot n d) 0 / (max (dot n d) 0 * (1 - k) + k))"
  using schlick_denominator_pos [OF clamped_dot_range [OF assms(1,2)] assms(3)]
  by (simp add: calculateGeometrySchlick_def fdiv_def Let_def)

lemma smith_Some:
  assumes "vlength n = 1" "vlength w_i = 1" "vlength w_o = 1" "0 < k"
  shows "calculateGeometrySmith n w_i w_o k =
           Some (max (dot n w_i) 0 / (max (dot n w_i) 0 * (1 - k) + k) *
                 (max (dot n w_o) 0 / (max (dot n w_o) 0 * (1 - k) + k)))"
  using assms by (simp add: calculateGeometrySmith_def schlick_Some)

lemma schlick_k_pos: "0 < r \<Longrightarrow> 0 < (r + 1) * (r + 1) / (8::real)"
  by simp

lemma specular_denominator_pos:
  "0 < 4 * max (a::real) 0.00001 * max b 0.00001"
proof -
  have "0 < max a 0.00001" "0 < max b 0.00001" by (simp_all add: less_max_iff_disj)
  then show ?thesis by simp
qed

lemma calculateSpecularBRDF_eq:
  assumes "normalize_vec (vadd w_i w_o) = Some h"
    and "calculateDistributionGGX n h r = Some D"
    and "calculateGeometrySmith n w_i w_o ((r + 1) * (r + 1) / 8) = Some G"
  shows "calculateSpecularBRDF albedo n w_o w_i r m F0 =
           Some (vsplat (D * G / (4 * max (dot w_o n) 0.00001 * max (dot w_i n) 0.00001)))"
proof -
  have "4 * max (dot w_o n) 0.00001 * max (dot w_i n) 0.00001 \<noteq> 0"
    using specular_denominator_pos [of "dot w_o n" "dot w_i n"] by linarith
  then show ?thesis
    using assms by (simp add: calculateSpecularBRDF_def Let_def fdiv_def del: mult_eq_0_iff)
qed

lemma calculateDiffuseBRDF_eq:
  "calculateDiffuseBRDF albedo =
     Some (Vec3 (vx albedo / 3.14159) (vy albedo / 3.14159) (vz albedo / 3.14159))"
  by (simp add: calculateDiffuseBRDF_def vdivs_def vec3_opt_def fdiv_def)

lemma calculateBRDF_eq:
  assumes "normalize_vec (vsub (pos light) p) = Some w_i"
    and "calculateFresnelSchlick w_i w_o (vmix (vsplat 0.04) albedo m) = Some kS"
    and "calculateSpecularBRDF albedo n w_o w_i r m (vmix (vsplat 0.04) albedo m) = Some spec"
    and "calculatePointLight light p = Some radiance"
  shows "calculateBRDF light p n w_o r m albedo =
           Some (vscale
                   (vmul (vadd (vscale (vmul (vsub (vsplat 1) kS)
                                          (Vec3 (vx albedo / 3.14159) (vy albedo / 3.14159)
                                                (vz albedo / 3.14159)))
                                  (1 - m))
                               (vmul kS spec))
                         radiance)
                   (max (dot n w_i) 0))"
  using assms
  by (simp add: calculateBRDF_def Let_def calculateDiffuseBRDF_eq)

lemma vlength_axis: "vlength (Vec3 0 0 c) = \<bar>c\<bar>"
  by (simp add: vlength_def dot_def)

lemma normalize_axis: "c \<noteq> 0 \<Longrightarrow> normalize_vec (Vec3 0 0 c) = Some (Vec3 0 0 (c / \<bar>c\<bar>))"
  by (simp add: normalize_vec_def vlength_axis vdivs_def vec3_opt_def fdiv_def)

subsection \<open>The constant \<open>3.14159\<close> is not \<open>\<pi>\<close>\<close>

lemma cos_coeff_sum_14:
  "(\<Sum>m<14. cos_coeff m * x ^ m) =
     1 - x^2 / 2 + x^4 / 24 - x^6 / 720 + x^8 / 40320 - x^10 / 3628800 + x^12 / 479001600"
proof -
  show ?thesis by (simp add: lessThan_nat_numeral lessThan_Suc cos_coeff_def fact_numeral)
qed

lemma cos_lower_bound_14:
  fixes x :: real
  shows "1 - x^2 / 2 + x^4 / 24 - x^6 / 720 + x^8 / 40320 - x^10 / 3628800 + x^12 / 479001600
           - x^14 / 87178291200 \<le> cos x"
proof -
  obtain t where t: "cos x = (\<Sum>m<14. cos_coeff m * x ^ m) + (cos (t + 1/2 * real 14 * pi) / fact 14) * x ^ 14"
    using Maclaurin_cos_expansion [of x 14] by blast
  have "- 1 \<le> cos (t + 1/2 * real 14 * pi)" by (rule cos_ge_minus_one)
  moreover have "0 \<le> x ^ 14 / fact 14" by simp
  ultimately have "- (x ^ 14 / fact 14) \<le> cos (t + 1/2 * real 14 * pi) * (x ^ 14 / fact 14)"
    using mult_right_mono [of "- 1" "cos (t + 1/2 * real 14 * pi)" "x ^ 14 / fact 14"] by simp
  moreover have "(fact 14 :: real) = 87178291200" by (simp add: fact_numeral)
  ultimately show ?thesis unfolding t cos_coeff_sum_14 by simp
qed

lemma pi_neq_314159: "pi \<noteq> 3.14159"
proof
  assume p: "pi = 3.14159"
  have "0 < 1 - x^2 / 2 + x^4 / 24 - x^6 / 720 + x^8 / 40320 - x^10 / 3628800 + x^12 / 479001600
           - x^14 / 87178291200" if "x = (314159 / 200000 :: real)" for x
    unfolding that by (simp add: power_divide)
  then have "0 < cos (314159 / 200000 :: real)"
    using cos_lower_bound_14 [of "314159 / 200000"] by fastforce
  moreover have "cos (pi / 2) = 0" by simp
  ultimately show False unfolding p by simp
qed

subsection \<open>Evaluations at concrete inputs\<close>

lemma normalize_345: "normalize_vec (Vec3 3 0 4) = Some (Vec3 (3 / 5) 0 (4 / 5))"
  by (simp add: normalize_vec_def vlength_def dot_def vdivs_def vec3_opt_def fdiv_def)

lemma half_vector_345:
  "normalize_vec (vadd (Vec3 (3 / 5) 0 (4 / 5)) (Vec3 (- (3 / 5)) 0 (4 / 5))) = Some (Vec3 0 0 1)"
  by (simp add: vadd_def normalize_axis)

lemma fresnel_345:
  "calculateFresnelSchlick (Vec3 (3 / 5) 0 (4 / 5)) (Vec3 (- (3 / 5)) 0 (4 / 5)) F0 =
     Some (vadd F0 (vscale (vsub (vsplat 1) F0) (1 / 3125)))"
  by (simp add: calculateFresnelSchlick_def half_vector_345 dot_def glsl_pow_def Let_def power_divide)

lemma GGX_345: "calculateDistributionGGX (Vec3 0 0 1) (Vec3 0 0 1) (1 / 2) = Some (400000 / 314159)"
  by (simp add: calculateDistributionGGX_def dot_def fdiv_def Let_def)

lemma smith_345:
  "calculateGeometrySmith (Vec3 0 0 1) (Vec3 (3 / 5) 0 (4 / 5)) (Vec3 (- (3 / 5)) 0 (4 / 5))
     ((1 / 2 + 1) * (1 / 2 + 1) / 8) = Some (128 / 137 * (128 / 137))"
  by (simp add: calculateGeometrySmith_def calculateGeometrySchlick_def dot_def fdiv_def Let_def)

lemma point_light_345:
  "calculatePointLight \<lparr>pos = Vec3 3 0 4, color = Vec3 1 1 1, intensity = 2000\<rparr> (Vec3 0 0 0) =
     Some (vsplat (2000 / (4 * 3.14159 * 25)))"
  by (simp add: calculatePointLight_def vsub_def vlength_def dot_def fdiv_def vscale_def vsplat_def
      Let_def)

lemma decode_white: "sRGBToLinear (Vec4 (Vec3 1 1 1) 1) = Some (Vec4 (Vec3 1 1 1) 1)"
  by (simp add: sRGBToLinear_def sRGBToLinear_channel_def glsl_pow_def mix_def lessThanEqual_def vec3_opt_def)

lemma scene_brdf:
  "calculateBRDF \<lparr>pos = Vec3 0 0 5, color = Vec3 1 1 1, intensity = 2000\<rparr> (Vec3 0 0 0)
      (Vec3 0 0 1) (Vec3 0 0 1) (1 / 2) 0 (Vec3 1 1 1) = Some (vsplat (20 / (3.14159 * 3.14159)))"
  by (simp add: calculateBRDF_def calculateFresnelSchlick_def calculateSpecularBRDF_def
      calculateDistributionGGX_def calculateGeometrySmith_def calculateGeometrySchlick_def
      calculateDiffuseBRDF_def calculatePointLight_def
      vsub_def vadd_def vmul_def vscale_def vsplat_def vmix_def mix_def vdivs_def vec3_opt_def fdiv_def
      normalize_axis vlength_axis dot_def glsl_pow_def Let_def)

subsection \<open>Powers with real exponents\<close>

lemma powr_rat_le:
  fixes x y :: real
  assumes "0 < x" "0 \<le> y" "0 < q" "x ^ p \<le> y ^ q"
  shows "x powr (real p / real q) \<le> y"
proof -
  have "x powr (real p / real q) = (x powr real p) powr (1 / real q)"
    by (simp add: powr_powr)
  also have "\<dots> = (x ^ p) powr (1 / real q)"
    using assms(1) by (simp add: powr_realpow)
  also have "\<dots> \<le> (y ^ q) powr (1 / real q)"
    using assms by (intro powr_mono2) simp_all
  also have "\<dots> = y"
  proof (cases "y = 0")
    case True then show ?thesis using assms(3) by simp
  next
    case False
    then have "0 < y" using assms(2) by simp
    then have "(y ^ q) powr (1 / real q) = (y powr real q) powr (1 / real q)"
      by (simp add: powr_realpow)
    also have "\<dots> = y" using assms(3) \<open>0 < y\<close> by (simp add: powr_powr)
    finally show ?thesis .
  qed
  finally show ?thesis .
qed

lemma powr_rat_ge:
  fixes x y :: real
  assumes "0 < x" "0 \<le> y" "0 < q" "y ^ q \<le> x ^ p"
  shows "y \<le> x powr (real p / real q)"
proof -
  have "y = (y ^ q) powr (1 / real q)"
  proof (cases "y = 0")
    case True then show ?thesis using assms(3) by simp
  next
    case False
    then have "0 < y" using assms(2) by simp
    then have "(y ^ q) powr (1 / real q) = (y powr real q) powr (1 / real q)"
      by (simp add: powr_realpow)
    also have "\<dots> = y" using assms(3) \<open>0 < y\<close> by (simp add: powr_powr)
    finally show ?thesis by simp
  qed
  also have "\<dots> \<le> (x ^ p) powr (1 / real q)"
    using assms by (intro powr_mono2) simp_all
  also have "\<dots> = (x powr real p) powr (1 / real q)"
    using assms(1) by (simp add: powr_realpow)
  also have "\<dots> = x powr (real p / real q)"
    by (simp add: powr_powr)
  finally show ?thesis .
qed

lemma powr_near_one:
  fixes x x0 e :: real
  assumes "0 < x0" "x0 \<le> x" "x \<le> 1" "0 \<le> e" "e < x0"
  shows "x \<le> x powr (1 - e)" and "x powr (1 - e) \<le> x + e / (1 - e / x0)"
proof -
  have xpos: "0 < x" using assms by linarith
  show "x \<le> x powr (1 - e)"
    using powr_mono' [of "1 - e" 1 x] assms xpos by simp
  define t where "t = e * (1 / x - 1)"
  have "0 \<le> 1 / x - 1" using xpos assms(3) by simp
  then have t0: "0 \<le> t" using assms(4) by (simp add: t_def)
  have "e / x \<le> e / x0" using assms xpos by (simp add: frac_le)
  then have tle: "t \<le> e / x0" using assms by (simp add: t_def algebra_simps)
  have "e / x0 < 1" using assms by simp
  then have t1: "t < 1" using tle by linarith
  have "ln (1 / x) \<le> 1 / x - 1" using xpos by (intro ln_le_minus_one) simp
  then have "- ln x \<le> 1 / x - 1" using xpos by (simp add: ln_div)
  then have "e * (- ln x) \<le> t" unfolding t_def using assms(4) by (rule mult_left_mono)
  then have et: "exp (- (e * ln x)) \<le> exp t" by simp
  have "exp t \<le> 1 / (1 - t)"
  proof -
    have "1 + (- t) \<le> exp (- t)" by (rule exp_ge_add_one_self)
    then have "(1 - t) * exp t \<le> exp (- t) * exp t"
      by (intro mult_right_mono) simp_all
    then have "(1 - t) * exp t \<le> 1" by (simp add: exp_minus)
    then show ?thesis using t1 by (simp add: field_simps)
  qed
  with et have "exp (- (e * ln x)) \<le> 1 / (1 - t)" by (rule order_trans)
  then have p: "x powr (- e) \<le> 1 / (1 - t)"
    using xpos by (simp add: powr_def)
  have "x powr (1 - e) = x * x powr (- e)"
    using xpos by (simp add: powr_diff powr_minus field_simps)
  also have "\<dots> \<le> x * (1 / (1 - t))" using p xpos by (intro mult_left_mono) simp_all
  also have "\<dots> = x + x * t / (1 - t)" using t1 by (simp add: field_simps)
  also have "x * t = e * (1 - x)" using xpos by (simp add: t_def field_simps)
  also have "x + e * (1 - x) / (1 - t) \<le> x + e / (1 - e / x0)"
  proof -
    have "e * (1 - x) \<le> e" using assms xpos by (simp add: mult_left_le)
    moreover have "0 < 1 - e / x0" "1 - e / x0 \<le> 1 - t" using \<open>e / x0 < 1\<close> tle by simp_all
    moreover have "0 \<le> e * (1 - x)" using assms by simp
    ultimately have "e * (1 - x) / (1 - t) \<le> e / (1 - e / x0)"
      using assms(4) by (intro frac_le) simp_all
    then show ?thesis by simp
  qed
  finally show "x powr (1 - e) \<le> x + e / (1 - e / x0)" .
qed

subsection \<open>The transfer functions on one channel\<close>

lemma decode_channel:
  assumes "0 \<le> c * 0.9478672986 + 0.0521327014"
  shows "sRGBToLinear_channel c =
           Some (if c \<le> 0.04045 then c * 0.0773993808
                 else (c * 0.9478672986 + 0.0521327014) powr 2.4)"
  using assms by (simp add: sRGBToLinear_channel_def glsl_pow_def mix_def lessThanEqual_def)

lemma encode_channel:
  assumes "0 \<le> l"
  shows "LinearTosRGB_channel l =
           Some (if l \<le> 0.0031308 then l * 12.92 else l powr 0.41666 * 1.055 - 0.055)"
  using assms by (simp add: LinearTosRGB_channel_def glsl_pow_def mix_def lessThanEqual_def)

lemma encode_power_lower:
  fixes l :: real
  assumes "0.0031308 \<le> l" "l \<le> 1"
  shows "0.0896 \<le> l powr 0.41666"
proof -
  have "(0.0896::real) \<le> 0.0031308 powr (real 5 / real 12)"
    by (rule powr_rat_ge) (simp_all add: power_divide)
  also have "\<dots> \<le> l powr (real 5 / real 12)"
    using assms by (intro powr_mono2) simp_all
  also have "\<dots> \<le> l powr 0.41666"
    using assms by (intro powr_mono') simp_all
  finally show ?thesis .
qed

lemma encode_power_upper:
  fixes l :: real
  assumes "0 < l" "l \<le> 0.0031309"
  shows "l powr 0.41666 \<le> 0.0914"
proof -
  have "l powr 0.41666 \<le> l powr (real 22 / real 53)"
    using assms by (intro powr_mono') simp_all
  also have "\<dots> \<le> 0.0031309 powr (real 22 / real 53)"
    using assms by (intro powr_mono2) simp_all
  also have "\<dots> \<le> 0.0914"
    by (rule powr_rat_le) (simp_all add: power_divide)
  finally show ?thesis .
qed

lemma encode_power_0032:
  fixes c :: real
  assumes "0.0032 \<le> c" "c \<le> 1"
  shows "0.0905 \<le> c powr 0.41666"
proof -
  have "(0.0905::real) \<le> 0.0032 powr (real 5 / real 12)"
    by (rule powr_rat_ge) (simp_all add: power_divide)
  also have "\<dots> \<le> c powr (real 5 / real 12)"
    using assms by (intro powr_mono2) simp_all
  also have "\<dots> \<le> c powr 0.41666"
    using assms by (intro powr_mono') simp_all
  finally show ?thesis .
qed

lemma decode_power_0905: "(0.0031308::real) \<le> 0.0905 powr 2.4"
proof -
  have "(0.0031308::real) \<le> 0.0905 powr (real 12 / real 5)"
    by (rule powr_rat_ge) (simp_all add: power_divide)
  then show ?thesis by simp
qed

lemma decode_power_0904: "(0.0031::real) \<le> 0.0904 powr 2.4"
proof -
  have "(0.0031::real) \<le> 0.0904 powr (real 12 / real 5)"
    by (rule powr_rat_ge) (simp_all add: power_divide)
  then show ?thesis by simp
qed

lemma encode_after_decode_channel:
  fixes c :: real
  assumes "0 \<le> c" "c \<le> 1"
  shows "\<exists>l e. sRGBToLinear_channel c = Some l \<and> LinearTosRGB_channel l = Some e \<and>
           \<bar>e - c\<bar> \<le> 1 / 1000"
proof (cases "c \<le> 0.04045")
  case True
  define l where "l = c * 0.0773993808"
  have dec: "sRGBToLinear_channel c = Some l"
    using assms True by (simp add: decode_channel l_def)
  have l0: "0 \<le> l" using assms by (simp add: l_def)
  show ?thesis
  proof (cases "l \<le> 0.0031308")
    case True
    have enc: "LinearTosRGB_channel l = Some (l * 12.92)"
      using l0 True by (simp add: encode_channel)
    have "\<bar>l * 12.92 - c\<bar> \<le> 1 / 1000" using assms unfolding l_def by simp
    with dec enc show ?thesis by blast
  next
    case False
    have enc: "LinearTosRGB_channel l = Some (l powr 0.41666 * 1.055 - 0.055)"
      using l0 False by (simp add: encode_channel)
    have lu: "l \<le> 0.0031309" using \<open>c \<le> 0.04045\<close> unfolding l_def by simp
    have lo: "0.0896 \<le> l powr 0.41666"
      using False lu by (intro encode_power_lower) simp_all
    have up: "l powr 0.41666 \<le> 0.0914"
      using False lu by (intro encode_power_upper) simp_all
    have cl: "0.04044 \<le> c" using False unfolding l_def by simp
    have "\<bar>l powr 0.41666 * 1.055 - 0.055 - c\<bar> \<le> 1 / 1000"
      using lo up cl \<open>c \<le> 0.04045\<close> by (simp; argo)
    with dec enc show ?thesis by blast
  qed
next
  case False
  define u where "u = c * 0.9478672986 + 0.0521327014"
  define l where "l = u powr 2.4"
  have ul: "0.0904 \<le> u" and uu: "u \<le> 1" using False assms unfolding u_def by simp_all
  have dec: "sRGBToLinear_channel c = Some l"
    using assms False by (simp add: decode_channel l_def u_def)
  have l0: "0 \<le> l" by (simp add: l_def)
  show ?thesis
  proof (cases "l \<le> 0.0031308")
    case True
    have enc: "LinearTosRGB_channel l = Some (l * 12.92)"
      using l0 True by (simp add: encode_channel)
    have "u \<le> 0.0905"
    proof (rule ccontr)
      assume "\<not> u \<le> 0.0905"
      then have "0.0905 powr 2.4 < u powr 2.4"
        by (intro powr_less_mono2) simp_all
      with decode_power_0905 True show False by (simp add: l_def)
    qed
    then have cu: "c \<le> 0.04048" unfolding u_def by simp
    have "0.0904 powr 2.4 \<le> u powr 2.4" using ul by (intro powr_mono2) simp_all
    with decode_power_0904 have ll: "0.0031 \<le> l" by (simp add: l_def)
    have "\<bar>l * 12.92 - c\<bar> \<le> 1 / 1000" using ll True cu False by simp
    with dec enc show ?thesis by blast
  next
    case False
    have enc: "LinearTosRGB_channel l = Some (l powr 0.41666 * 1.055 - 0.055)"
      using l0 False by (simp add: encode_channel)
    have "l powr 0.41666 = u powr (1 - 1 / 62500)"
      by (simp add: l_def powr_powr)
    moreover have "u \<le> u powr (1 - 1 / 62500)"
      and "u powr (1 - 1 / 62500) \<le> u + (1 / 62500) / (1 - (1 / 62500) / 0.09)"
      using ul uu by (intro powr_near_one [where ?x0.0 = "0.09"]; simp)+
    ultimately have "u \<le> l powr 0.41666" and "l powr 0.41666 \<le> u + 1 / 60000"
      by simp_all
    then have "\<bar>l powr 0.41666 * 1.055 - 0.055 - c\<bar> \<le> 1 / 1000"
      using assms unfolding u_def by (simp; argo)
    with dec enc show ?thesis by blast
  qed
qed

lemma decode_after_encode_channel:
  fixes c :: real
  assumes "0 \<le> c" "c \<le> 1"
  shows "\<exists>g e. LinearTosRGB_channel c = Some g \<and> sRGBToLinear_channel g = Some e \<and>
           \<bar>e - c\<bar> \<le> 1 / 1000"
proof (cases "c \<le> 0.0031308")
  case True
  have enc: "LinearTosRGB_channel c = Some (c * 12.92)"
    using assms True by (simp add: encode_channel)
  have dec: "sRGBToLinear_channel (c * 12.92) = Some (c * 12.92 * 0.0773993808)"
    using assms True by (simp add: decode_channel)
  have "\<bar>c * 12.92 * 0.0773993808 - c\<bar> \<le> 1 / 1000" using assms by simp
  with enc dec show ?thesis by blast
next
  case False
  define w where "w = c powr 0.41666"
  define g where "g = w * 1.055 - 0.055"
  define v where "v = g * 0.9478672986 + 0.0521327014"
  have enc: "LinearTosRGB_channel c = Some g"
    using assms False by (simp add: encode_channel g_def w_def)
  have wl: "0.0896 \<le> w"
    unfolding w_def using False assms by (intro encode_power_lower) simp_all
  have "c powr 0.41666 \<le> 1 powr 0.41666" using assms by (intro powr_mono2) simp_all
  then have wu: "w \<le> 1" by (simp add: w_def)
  have vl: "(1 - 1 / 10 ^ 9) * w \<le> v"
    using wl unfolding v_def g_def by (simp; argo)
  have vu: "v \<le> (1 + 1 / 10 ^ 9) * w"
    using wl unfolding v_def g_def by (simp; argo)
  have v0: "0 \<le> v" using vl wl by (simp; argo)
  have dec: "sRGBToLinear_channel g =
      Some (if g \<le> 0.04045 then g * 0.0773993808 else v powr 2.4)"
    using v0 unfolding v_def by (rule decode_channel)
  show ?thesis
  proof (cases "g \<le> 0.04045")
    case True
    have "c \<le> 0.0032"
    proof (rule ccontr)
      assume "\<not> c \<le> 0.0032"
      then have "0.0905 \<le> w"
        unfolding w_def using assms by (intro encode_power_0032) simp_all
      with True show False unfolding g_def by simp
    qed
    then have "\<bar>g * 0.0773993808 - c\<bar> \<le> 1 / 1000"
      using wl True False unfolding g_def by (simp; argo)
    moreover have "sRGBToLinear_channel g = Some (g * 0.0773993808)"
      unfolding dec using True by (simp only: if_True)
    ultimately show ?thesis using enc by blast
  next
    case g: False
    have "w powr 2.4 = c powr (1 - 1 / 62500)"
      by (simp add: w_def powr_powr)
    moreover have "c \<le> c powr (1 - 1 / 62500)"
      and "c powr (1 - 1 / 62500) \<le> c + (1 / 62500) / (1 - (1 / 62500) / 0.0031308)"
      using False assms by (intro powr_near_one [where ?x0.0 = "0.0031308"]; simp)+
    ultimately have Wl: "c \<le> w powr 2.4" and Wu: "w powr 2.4 \<le> c + 1 / 60000"
      by simp_all
    have w0: "0 \<le> w" using wl by simp
    have "v powr 2.4 \<le> ((1 + 1 / 10 ^ 9) * w) powr 2.4"
      using v0 vu by (intro powr_mono2) simp_all
    also have "\<dots> = (1 + 1 / 10 ^ 9) powr 2.4 * w powr 2.4"
      by (rule powr_mult)
    also have "\<dots> \<le> (1 + 1 / 10 ^ 9) powr 3 * w powr 2.4"
      by (intro mult_right_mono powr_mono) simp_all
    also have "\<dots> = (1 + 1 / 10 ^ 9) ^ 3 * w powr 2.4"
      by simp
    finally have eu: "v powr 2.4 \<le> (1 + 1 / 10 ^ 9) ^ 3 * w powr 2.4" .
    have "(1 - 1 / 10 ^ 9) ^ 3 * w powr 2.4 = (1 - 1 / 10 ^ 9) powr 3 * w powr 2.4"
      by simp
    also have "\<dots> \<le> (1 - 1 / 10 ^ 9) powr 2.4 * w powr 2.4"
      by (intro mult_right_mono powr_mono') simp_all
    also have "\<dots> = ((1 - 1 / 10 ^ 9) * w) powr 2.4"
      by (rule powr_mult [symmetric])
    also have "\<dots> \<le> v powr 2.4"
      using vl w0 by (intro powr_mono2) simp_all
    finally have el: "(1 - 1 / 10 ^ 9) ^ 3 * w powr 2.4 \<le> v powr 2.4" .
    have "(1 + 1 / 10 ^ 9) ^ 3 * w powr 2.4 \<le> (1 + 1 / 10 ^ 8) * w powr 2.4"
      by (intro mult_right_mono) (simp_all add: power_divide)
    with eu have eu': "v powr 2.4 \<le> (1 + 1 / 10 ^ 8) * w powr 2.4" by (rule order_trans)
    have "(1 - 1 / 10 ^ 8) * w powr 2.4 \<le> (1 - 1 / 10 ^ 9) ^ 3 * w powr 2.4"
      by (intro mult_right_mono) (simp_all add: power_divide)
    then have el': "(1 - 1 / 10 ^ 8) * w powr 2.4 \<le> v powr 2.4" using el by (rule order_trans)
    define W where "W = w powr 2.4"
    define E where "E = v powr 2.4"
    have "E \<le> (1 + 1 / 100000000) * W" "(1 - 1 / 100000000) * W \<le> E"
      "c \<le> W" "W \<le> c + 1 / 60000"
      using eu' el' Wl Wu by (simp_all add: W_def E_def)
    then have "\<bar>E - c\<bar> \<le> 1 / 1000" using assms by argo
    then have "\<bar>v powr 2.4 - c\<bar> \<le> 1 / 1000" by (simp add: E_def)
    moreover have "sRGBToLinear_channel g = Some (v powr 2.4)"
      unfolding dec using g by (simp only: if_False)
    ultimately show ?thesis using enc by blast
  qed
qed

lemma encode_after_decode:
  assumes "vle (vsplat 0) c" and "vle c (vsplat 1)"
  shows "\<exists>l e. sRGBToLinear (Vec4 c al) = Some l \<and> LinearTosRGB l = Some e \<and>
           alpha e = al \<and> vclose (rgb e) c (1 / 1000)"
proof -
  from assms have r: "0 \<le> vx c" "vx c \<le> 1" "0 \<le> vy c" "vy c \<le> 1" "0 \<le> vz c" "vz c \<le> 1"
    by (simp_all add: vle_def vsplat_def)
  obtain lx ex where x: "sRGBToLinear_channel (vx c) = Some lx" "LinearTosRGB_channel lx = Some ex"
    "\<bar>ex - vx c\<bar> \<le> 1 / 1000"
    using encode_after_decode_channel [OF r(1,2)] by blast
  obtain ly ey where y: "sRGBToLinear_channel (vy c) = Some ly" "LinearTosRGB_channel ly = Some ey"
    "\<bar>ey - vy c\<bar> \<le> 1 / 1000"
    using encode_after_decode_channel [OF r(3,4)] by blast
  obtain lz ez where z: "sRGBToLinear_channel (vz c) = Some lz" "LinearTosRGB_channel lz = Some ez"
    "\<bar>ez - vz c\<bar> \<le> 1 / 1000"
    using encode_after_decode_channel [OF r(5,6)] by blast
  have "sRGBToLinear (Vec4 c al) = Some (Vec4 (Vec3 lx ly lz) al)"
    by (simp add: sRGBToLinear_def vec3_opt_def x(1) y(1) z(1))
  moreover have "LinearTosRGB (Vec4 (Vec3 lx ly lz) al) = Some (Vec4 (Vec3 ex ey ez) al)"
    by (simp add: LinearTosRGB_def vec3_opt_def x(2) y(2) z(2))
  moreover have "vclose (rgb (Vec4 (Vec3 ex ey ez) al)) c (1 / 1000)"
    using x(3) y(3) z(3) by (simp add: vclose_def)
  ultimately show ?thesis by force
qed

lemma decode_after_encode:
  assumes "vle (vsplat 0) c" and "vle c (vsplat 1)"
  shows "\<exists>g e. LinearTosRGB (Vec4 c al) = Some g \<and> sRGBToLinear g = Some e \<and>
           alpha e = al \<and> vclose (rgb e) c (1 / 1000)"
proof -
  from assms have r: "0 \<le> vx c" "vx c \<le> 1" "0 \<le> vy c" "vy c \<le> 1" "0 \<le> vz c" "vz c \<le> 1"
    by (simp_all add: vle_def vsplat_def)
  obtain gx ex where x: "LinearTosRGB_channel (vx c) = Some gx" "sRGBToLinear_channel gx = Some ex"
    "\<bar>ex - vx c\<bar> \<le> 1 / 1000"
    using decode_after_encode_channel [OF r(1,2)] by blast
  obtain gy ey where y: "LinearTosRGB_channel (vy c) = Some gy" "sRGBToLinear_channel gy = Some ey"
    "\<bar>ey - vy c\<bar> \<le> 1 / 1000"
    using decode_after_encode_channel [OF r(3,4)] by blast
  obtain gz ez where z: "LinearTosRGB_channel (vz c) = Some gz" "sRGBToLinear_channel gz = Some ez"
    "\<bar>ez - vz c\<bar> \<le> 1 / 1000"
    using decode_after_encode_channel [OF r(5,6)] by blast
  have "LinearTosRGB (Vec4 c al) = Some (Vec4 (Vec3 gx gy gz) al)"
    by (simp add: LinearTosRGB_def vec3_opt_def x(1) y(1) z(1))
  moreover have "sRGBToLinear (Vec4 (Vec3 gx gy gz) al) = Some (Vec4 (Vec3 ex ey ez) al)"
    by (simp add: sRGBToLinear_def vec3_opt_def x(2) y(2) z(2))
  moreover have "vclose (rgb (Vec4 (Vec3 ex ey ez) al)) c (1 / 1000)"
    using x(3) y(3) z(3) by (simp add: vclose_def)
  ultimately show ?thesis by force
qed

lemma round_trip_inexact:
  "sRGBToLinear (Vec4 (vsplat (1 / 100)) 1) = Some (Vec4 (vsplat 0.000773993808) 1) \<and>
   LinearTosRGB (Vec4 (vsplat 0.000773993808) 1) = Some (Vec4 (vsplat 0.00999999999936) 1) \<and>
   vsplat 0.00999999999936 \<noteq> vsplat (1 / 100)"
  by (simp add: sRGBToLinear_def LinearTosRGB_def vec3_opt_def vsplat_def decode_channel
      encode_channel)

section \<open>Facts about the float32 model\<close>

subsection \<open>Rounding\<close>

lemma rhe_of_int [simp]: "rhe (of_int k) = k"
  by (simp add: rhe_def)

lemma rhe_cases: "rhe r = \<lfloor>r\<rfloor> \<or> rhe r = \<lfloor>r\<rfloor> + 1"
  by (simp add: rhe_def Let_def)

lemma rhe_ge: "of_int k \<le> r \<Longrightarrow> k \<le> rhe r"
  using rhe_cases [of r] le_floor_iff [of k r] by auto

lemma rhe_le: "r \<le> of_int k \<Longrightarrow> rhe r \<le> k"
proof (cases "r = of_int k")
  case True then show ?thesis by simp
next
  case False
  assume "r \<le> of_int k"
  with False have "r < of_int k" by simp
  then have "\<lfloor>r\<rfloor> < k" by (simp add: floor_less_iff)
  then show ?thesis using rhe_cases [of r] by auto
qed

lemma rhe_near: "\<bar>r - of_int k\<bar> < 1 / 2 \<Longrightarrow> rhe r = k"
proof (cases "of_int k \<le> r")
  case True
  assume a: "\<bar>r - of_int k\<bar> < 1 / 2"
  with True have "\<lfloor>r\<rfloor> = k" by (intro floor_unique) auto
  with a True show ?thesis by (simp add: rhe_def Let_def)
next
  case False
  assume a: "\<bar>r - of_int k\<bar> < 1 / 2"
  with False have f: "\<lfloor>r\<rfloor> = k - 1" by (intro floor_unique) auto
  have "1 / 2 < r - of_int (k - 1)" using a False by auto
  then show ?thesis using f by (simp add: rhe_def Let_def)
qed

lemma rhe_tie: "rhe (of_int k + 1 / 2) = (if even k then k else k + 1)"
proof -
  have "\<lfloor>of_int k + (1 / 2 :: real)\<rfloor> = k" by (intro floor_unique) auto
  then show ?thesis by (simp add: rhe_def Let_def)
qed

lemma floor_log2:
  assumes "2 powi e \<le> x" and "x < 2 powi (e + 1)"
  shows "\<lfloor>log 2 x\<rfloor> = e"
proof -
  have x: "0 < x" using assms(1) zero_less_power_int [of "2::real" e] by linarith
  have "(2::real) powr real_of_int e = 2 powi e" "(2::real) powr (real_of_int e + 1) = 2 powi (e + 1)"
    using powr_real_of_int' [of "2::real" e] powr_real_of_int' [of "2::real" "e + 1"] by simp_all
  then show ?thesis using assms x by (simp add: floor_log_eq_powr_iff)
qed



lemma rhe_mono: "r \<le> s \<Longrightarrow> rhe r \<le> rhe s"
proof (cases "\<lfloor>r\<rfloor> < \<lfloor>s\<rfloor>")
  case True
  have "rhe r \<le> \<lfloor>r\<rfloor> + 1" using rhe_cases [of r] by auto
  moreover have "\<lfloor>s\<rfloor> \<le> rhe s" using rhe_cases [of s] by auto
  ultimately show ?thesis using True by linarith
next
  case False
  assume rs: "r \<le> s"
  then have "\<lfloor>r\<rfloor> \<le> \<lfloor>s\<rfloor>" by (rule floor_mono)
  with False have f: "\<lfloor>r\<rfloor> = \<lfloor>s\<rfloor>" by simp
  show ?thesis using rs by (auto simp: rhe_def Let_def f)
qed

lemma rhe_minus: "rhe (- r) = - rhe r"
proof (cases "r = of_int \<lfloor>r\<rfloor>")
  case True
  have "rhe (- of_int \<lfloor>r\<rfloor>) = - \<lfloor>r\<rfloor>"
    using rhe_of_int [of "- \<lfloor>r\<rfloor>"] by simp
  moreover have "rhe (of_int \<lfloor>r\<rfloor>) = \<lfloor>r\<rfloor>" by (rule rhe_of_int)
  ultimately show ?thesis using True by metis
next
  case False
  then have lt: "of_int \<lfloor>r\<rfloor> < r" using of_int_floor_le [of r] by linarith
  have f: "\<lfloor>- r\<rfloor> = - \<lfloor>r\<rfloor> - 1"
    using lt by (intro floor_unique) (auto, linarith)
  show ?thesis
    using lt by (auto simp: rhe_def Let_def f)
qed

lemma round32_rv32:
  "round32 x = (if 2 ^ 128 \<le> \<bar>rv32 x\<bar> then (if 0 < x then PInf else NInf) else Fin (rv32 x))"
  by (simp add: round32_def)

lemma exponent32_minus [simp]: "exponent32 (- x) = exponent32 x"
  by (simp add: exponent32_def)

lemma rv32_minus: "rv32 (- x) = - rv32 x"
  by (simp add: rv32_def rhe_minus)

lemma exponent32_normal:
  assumes "2 powi e \<le> x" and "x < 2 powi (e + 1)" and "- 126 \<le> e"
  shows "exponent32 x = e"
proof -
  have "0 < x" using assms(1) zero_less_power_int [of "2::real" e] by linarith
  then show ?thesis using floor_log2 [OF assms(1,2)] assms(3) by (simp add: exponent32_def)
qed

lemma log2_binade:
  assumes "0 < x"
  shows "2 powi \<lfloor>log 2 x\<rfloor> \<le> x" and "x < 2 powi (\<lfloor>log 2 x\<rfloor> + 1)"
proof -
  define e where "e = \<lfloor>log 2 x\<rfloor>"
  have p: "(2::real) powr real_of_int e = 2 powi e" "(2::real) powr (real_of_int e + 1) = 2 powi (e + 1)"
    using powr_real_of_int' [of "2::real" e] powr_real_of_int' [of "2::real" "e + 1"] by simp_all
  have "2 powi e \<le> x \<and> x < 2 powi (e + 1)"
    using floor_log_eq_powr_iff [of x 2 e] assms p by (simp add: e_def)
  then show "2 powi \<lfloor>log 2 x\<rfloor> \<le> x" and "x < 2 powi (\<lfloor>log 2 x\<rfloor> + 1)"
    by (simp_all add: e_def)
qed

lemma exponent32_subnormal:
  assumes "0 < x" and "x < 2 powi (- 126)"
  shows "exponent32 x = - 126"
proof -
  have "\<lfloor>log 2 x\<rfloor> < - 126"
  proof (rule ccontr)
    assume "\<not> \<lfloor>log 2 x\<rfloor> < - 126"
    then have "(2::real) powi (- 126) \<le> 2 powi \<lfloor>log 2 x\<rfloor>"
      by (intro power_int_increasing) simp_all
    with log2_binade(1) [OF assms(1)] assms(2) show False by linarith
  qed
  then show ?thesis using assms(1) by (simp add: exponent32_def)
qed

lemma exponent32_cases:
  assumes "0 < x"
  shows "(x < 2 powi (- 126) \<and> exponent32 x = - 126) \<or>
         (- 126 \<le> exponent32 x \<and> 2 powi (exponent32 x) \<le> x \<and> x < 2 powi (exponent32 x + 1))"
proof (cases "x < 2 powi (- 126)")
  case True
  then show ?thesis using exponent32_subnormal [OF assms] by simp
next
  case False
  have "- 126 \<le> \<lfloor>log 2 x\<rfloor>"
  proof (rule ccontr)
    assume "\<not> - 126 \<le> \<lfloor>log 2 x\<rfloor>"
    then have "\<lfloor>log 2 x\<rfloor> + 1 \<le> - 126" by linarith
    then have "(2::real) powi (\<lfloor>log 2 x\<rfloor> + 1) \<le> 2 powi (- 126)"
      by (intro power_int_increasing) simp_all
    with log2_binade(2) [OF assms] False show False by linarith
  qed
  then have "exponent32 x = \<lfloor>log 2 x\<rfloor>" using assms by (simp add: exponent32_def)
  then show ?thesis using log2_binade [OF assms] \<open>- 126 \<le> \<lfloor>log 2 x\<rfloor>\<close> by simp
qed



lemma pow2_split: "(2::real) powi e = 2 ^ 23 * 2 powi (e - 23)"
  using power_int_add [of "2::real" 23 "e - 23"] by simp

lemma pow2_split24: "(2::real) powi (e + 1) = 2 ^ 24 * 2 powi (e - 23)"
  using power_int_add [of "2::real" 24 "e - 23"] by (simp add: add.commute)

lemma rhe_ge_real: "of_int k \<le> r \<Longrightarrow> (of_int k :: real) \<le> of_int (rhe r)"
  by (simp add: rhe_ge)

lemma rhe_le_real: "r \<le> of_int k \<Longrightarrow> (of_int (rhe r) :: real) \<le> of_int k"
  by (simp add: rhe_le)

lemma rv32_normal:
  assumes "2 powi e \<le> x" and "x < 2 powi (e + 1)" and "- 126 \<le> e"
  shows "rv32 x = of_int (rhe (x / 2 powi (e - 23))) * 2 powi (e - 23)"
    and "2 powi e \<le> rv32 x" and "rv32 x \<le> 2 powi (e + 1)"
proof -
  define u :: real where "u = 2 powi (e - 23)"
  have u: "0 < u" by (simp add: u_def)
  have x: "0 < x" using assms(1) zero_less_power_int [of "2::real" e] by linarith
  have E: "exponent32 x = e" using assms by (rule exponent32_normal)
  show r: "rv32 x = of_int (rhe (x / 2 powi (e - 23))) * 2 powi (e - 23)"
    using x by (simp add: rv32_def E)
  have "of_int (2 ^ 23) \<le> x / u"
    using assms(1) u unfolding pow2_split [of e] u_def [symmetric] by (simp add: field_simps)
  then have "(of_int (2 ^ 23) :: real) \<le> of_int (rhe (x / u))" by (rule rhe_ge_real)
  then have "(2 ^ 23 :: real) \<le> of_int (rhe (x / u))" by simp
  then have "2 ^ 23 * u \<le> of_int (rhe (x / u)) * u" using u by simp
  then show "2 powi e \<le> rv32 x" unfolding r pow2_split [of e] u_def .
  have "x / u \<le> of_int (2 ^ 24)"
    using assms(2) u unfolding pow2_split24 [of e] u_def [symmetric] by (simp add: field_simps)
  then have "(of_int (rhe (x / u)) :: real) \<le> of_int (2 ^ 24)" by (rule rhe_le_real)
  then have "of_int (rhe (x / u)) \<le> (2 ^ 24 :: real)" by simp
  then have "of_int (rhe (x / u)) * u \<le> 2 ^ 24 * u" using u by simp
  then show "rv32 x \<le> 2 powi (e + 1)" unfolding r pow2_split24 [of e] u_def .
qed

lemma rv32_subnormal:
  assumes "0 < x" and "x < 2 powi (- 126)"
  shows "rv32 x = of_int (rhe (x / 2 powi (- 149))) * 2 powi (- 149)"
    and "0 \<le> rv32 x" and "rv32 x \<le> 2 powi (- 126)"
proof -
  define u :: real where "u = 2 powi (- 149)"
  have u: "0 < u" by (simp add: u_def)
  have E: "exponent32 x = - 126" using assms by (rule exponent32_subnormal)
  show r: "rv32 x = of_int (rhe (x / 2 powi (- 149))) * 2 powi (- 149)"
    using assms(1) by (simp add: rv32_def E)
  have "of_int 0 \<le> x / u" using assms(1) u by simp
  then have "0 \<le> rhe (x / u)" by (rule rhe_ge)
  then show "0 \<le> rv32 x" unfolding r u_def [symmetric] using u by simp
  have "x / u \<le> of_int (2 ^ 23)"
    using assms(2) u unfolding pow2_split [of "- 126"] by (simp add: u_def field_simps)
  then have "(of_int (rhe (x / u)) :: real) \<le> of_int (2 ^ 23)" by (rule rhe_le_real)
  then have "of_int (rhe (x / u)) \<le> (2 ^ 23 :: real)" by simp
  then have "of_int (rhe (x / u)) * u \<le> 2 ^ 23 * u" using u by simp
  then show "rv32 x \<le> 2 powi (- 126)" unfolding r pow2_split [of "- 126"] by (simp add: u_def)
qed

lemma rv32_pos_bounds:
  assumes "0 < x"
  shows "0 \<le> rv32 x" and "rv32 x \<le> 2 powi (exponent32 x + 1)"
    and "2 powi (- 126) \<le> x \<Longrightarrow> 2 powi (exponent32 x) \<le> rv32 x"
proof -
  from exponent32_cases [OF assms]
  consider (sub) "x < 2 powi (- 126)" "exponent32 x = - 126"
    | (nor) "- 126 \<le> exponent32 x" "2 powi (exponent32 x) \<le> x" "x < 2 powi (exponent32 x + 1)"
    by blast
  then have "0 \<le> rv32 x \<and> rv32 x \<le> 2 powi (exponent32 x + 1) \<and>
             (2 powi (- 126) \<le> x \<longrightarrow> 2 powi (exponent32 x) \<le> rv32 x)"
  proof cases
    case sub
    have "(2::real) powi (- 126) \<le> 2 powi (- 126 + 1)" by (intro power_int_increasing) simp_all
    then show ?thesis using rv32_subnormal(2,3) [OF assms sub(1)] sub(1) unfolding sub(2) by linarith
  next
    case nor
    have "(0::real) \<le> 2 powi (exponent32 x)" by simp
    then show ?thesis using rv32_normal(2,3) [OF nor(2,3,1)] by linarith
  qed
  then show "0 \<le> rv32 x" and "rv32 x \<le> 2 powi (exponent32 x + 1)"
    and "2 powi (- 126) \<le> x \<Longrightarrow> 2 powi (exponent32 x) \<le> rv32 x"
    by simp_all
qed

lemma exponent32_mono:
  assumes "0 < x" and "x \<le> y"
  shows "exponent32 x \<le> exponent32 y"
proof -
  have "log 2 x \<le> log 2 y" using assms by simp
  then have "\<lfloor>log 2 x\<rfloor> \<le> \<lfloor>log 2 y\<rfloor>" by (rule floor_mono)
  then show ?thesis using assms by (simp add: exponent32_def)
qed

lemma rv32_mono_pos:
  assumes "0 < x" and "x \<le> y"
  shows "rv32 x \<le> rv32 y"
proof (cases "exponent32 x = exponent32 y")
  case True
  define u :: real where "u = 2 powi (exponent32 y - 23)"
  have u: "0 < u" by (simp add: u_def)
  have "x / u \<le> y / u" using assms(2) u by (simp add: divide_right_mono)
  then have "rhe (x / u) \<le> rhe (y / u)" by (rule rhe_mono)
  then have "of_int (rhe (x / u)) * u \<le> of_int (rhe (y / u)) * u" using u by simp
  then show ?thesis using assms by (simp add: rv32_def True u_def)
next
  case False
  have y: "0 < y" using assms by linarith
  have lt: "exponent32 x < exponent32 y" using exponent32_mono [OF assms] False by simp
  have "- 126 \<le> exponent32 x" by (simp add: exponent32_def)
  with lt have l: "- 126 < exponent32 y" by simp
  have "2 powi (exponent32 y) \<le> y \<and> y < 2 powi (exponent32 y + 1)"
  proof (rule disjE [OF exponent32_cases [OF y]])
    assume "y < 2 powi (- 126) \<and> exponent32 y = - 126"
    then have "exponent32 y = - 126" by (rule conjunct2)
    with l show ?thesis by linarith
  next
    assume "- 126 \<le> exponent32 y \<and> 2 powi (exponent32 y) \<le> y \<and> y < 2 powi (exponent32 y + 1)"
    then show ?thesis by (rule conjunct2)
  qed
  then have "2 powi (exponent32 y) \<le> rv32 y" using l by (intro rv32_normal(2)) simp_all
  moreover have "(2::real) powi (exponent32 x + 1) \<le> 2 powi (exponent32 y)"
    using lt by (intro power_int_increasing) simp_all
  ultimately show ?thesis using rv32_pos_bounds(2) [OF assms(1)] by linarith
qed

lemma rv32_zero [simp]: "rv32 0 = 0"
  by (simp add: rv32_def)

lemma rv32_mono: "x \<le> y \<Longrightarrow> rv32 x \<le> rv32 y"
proof -
  assume xy: "x \<le> y"
  consider "0 < x" | "x \<le> 0" "0 \<le> y" | "y < 0" by linarith
  then show ?thesis
  proof cases
    case 1 then show ?thesis using xy by (rule rv32_mono_pos)
  next
    case 2
    have "rv32 x \<le> 0"
    proof (cases "x = 0")
      case True then show ?thesis by simp
    next
      case False
      then have "0 < - x" using 2 by simp
      then have "0 \<le> rv32 (- x)" by (rule rv32_pos_bounds(1))
      then show ?thesis by (simp add: rv32_minus)
    qed
    moreover have "0 \<le> rv32 y"
    proof (cases "y = 0")
      case True then show ?thesis by simp
    next
      case False
      then have "0 < y" using 2 by simp
      then show ?thesis by (rule rv32_pos_bounds(1))
    qed
    ultimately show ?thesis by linarith
  next
    case 3
    then have "0 < - y" "- y \<le> - x" using xy by simp_all
    then have "rv32 (- y) \<le> rv32 (- x)" by (rule rv32_mono_pos)
    then show ?thesis by (simp add: rv32_minus)
  qed
qed

lemma round32_between:
  assumes "round32 a = Fin a'" and "round32 b = Fin b'" and "a \<le> x" and "x \<le> b"
  shows "\<exists>y. round32 x = Fin y \<and> a' \<le> y \<and> y \<le> b'"
proof -
  have a: "a' = rv32 a" "\<bar>rv32 a\<bar> < 2 ^ 128"
    using assms(1) by (auto simp: round32_rv32 split: if_splits)
  have b: "b' = rv32 b" "\<bar>rv32 b\<bar> < 2 ^ 128"
    using assms(2) by (auto simp: round32_rv32 split: if_splits)
  have "rv32 a \<le> rv32 x" "rv32 x \<le> rv32 b"
    using assms(3,4) by (simp_all add: rv32_mono)
  then have "\<bar>rv32 x\<bar> < 2 ^ 128" using a(2) b(2) by linarith
  then have "round32 x = Fin (rv32 x)" by (simp add: round32_rv32)
  then show ?thesis using \<open>rv32 a \<le> rv32 x\<close> \<open>rv32 x \<le> rv32 b\<close> a(1) b(1) by simp
qed


lemma rv32_repr_pos:
  assumes "0 < m" and "m < 2 ^ 24" and "- 149 \<le> e"
  shows "rv32 (of_int m * 2 powi e) = of_int m * 2 powi e"
proof -
  define x :: real where "x = of_int m * 2 powi e"
  define E where "E = exponent32 x"
  have x: "0 < x" using assms(1) by (simp add: x_def)
  have xu: "x < 2 powi (e + 24)"
  proof -
    have "of_int m < (2 ^ 24 :: real)" using assms(2) by (metis of_int_less_iff of_int_numeral of_int_power)
    then have "of_int m * 2 powi e < 2 ^ 24 * (2::real) powi e" by simp
    also have "\<dots> = 2 powi (e + 24)" using power_int_add [of "2::real" e 24] by simp
    finally show ?thesis by (simp add: x_def)
  qed
  have EE: "E \<le> e + 23"
  proof (rule disjE [OF exponent32_cases [OF x]])
    assume "x < 2 powi (- 126) \<and> exponent32 x = - 126"
    then show ?thesis using assms(3) by (simp add: E_def)
  next
    assume a: "- 126 \<le> exponent32 x \<and> 2 powi (exponent32 x) \<le> x \<and> x < 2 powi (exponent32 x + 1)"
    show ?thesis
    proof (rule ccontr)
      assume "\<not> E \<le> e + 23"
      then have "e + 24 \<le> E" by simp
      then have "(2::real) powi (e + 24) \<le> 2 powi E" by (intro power_int_increasing) simp_all
      with a xu show False by (simp add: E_def)
    qed
  qed
  define k where "k = e - (E - 23)"
  have k: "0 \<le> k" using EE by (simp add: k_def)
  have s: "(2::real) powi e = 2 powi k * 2 powi (E - 23)"
    using power_int_add [of "2::real" k "E - 23"] by (simp add: k_def)
  have "x / 2 powi (E - 23) = of_int m * 2 powi k"
    by (simp add: x_def s)
  also have "\<dots> = of_int (m * 2 ^ nat k)" using k by (simp add: power_int_def)
  finally have "x / 2 powi (E - 23) = of_int (m * 2 ^ nat k)" .
  then have "rhe (x / 2 powi (E - 23)) = m * 2 ^ nat k" by (simp only: rhe_of_int)
  then have "rv32 x = of_int (m * 2 ^ nat k) * 2 powi (E - 23)"
    using x by (simp add: rv32_def E_def)
  also have "\<dots> = of_int m * (2 powi k * 2 powi (E - 23))" using k by (simp add: power_int_def)
  also have "\<dots> = x" by (simp add: x_def s)
  finally show ?thesis by (simp add: x_def)
qed

lemma rv32_repr_int:
  assumes "\<bar>m\<bar> < 2 ^ 24" and "- 149 \<le> e"
  shows "rv32 (of_int m * 2 powi e) = of_int m * 2 powi e"
proof -
  consider "m = 0" | "0 < m" | "m < 0" by linarith
  then show ?thesis
  proof cases
    case 1 then show ?thesis by simp
  next
    case 2
    then show ?thesis using rv32_repr_pos [of m e] assms by simp
  next
    case 3
    then have "rv32 (of_int (- m) * 2 powi e) = of_int (- m) * 2 powi e"
      using assms by (intro rv32_repr_pos) simp_all
    then have "rv32 (- (of_int m * 2 powi e)) = - (of_int m * 2 powi e)" by simp
    then show ?thesis by (simp only: rv32_minus neg_equal_iff_equal)
  qed
qed

lemma is_f32I:
  assumes "\<bar>m\<bar> < 2 ^ 24" and "- 149 \<le> e" and "e \<le> 104"
  shows "is_f32 (of_int m * 2 powi e)"
proof -
  have "\<bar>of_int m\<bar> < (2 ^ 24 :: real)"
    using assms(1) by (metis of_int_abs of_int_less_iff of_int_numeral of_int_power)
  moreover have "(2::real) powi e \<le> 2 powi 104" using assms(3) by (intro power_int_increasing) simp_all
  moreover have p: "0 < (2::real) powi e" by (rule zero_less_power_int) simp
  ultimately have "\<bar>of_int m\<bar> * 2 powi e < 2 ^ 24 * (2::real) powi e"
    "2 ^ 24 * (2::real) powi e \<le> 2 ^ 24 * 2 powi 104"
    by (simp_all only: mult_strict_right_mono mult_left_mono zero_le_numeral zero_le_power)
  then have "\<bar>of_int m\<bar> * 2 powi e < 2 ^ 24 * (2::real) powi 104" by linarith
  then have "\<bar>of_int m * 2 powi e\<bar> < (2 ^ 128 :: real)" using p by (simp add: abs_mult)
  then show ?thesis
    unfolding is_f32_def round32_rv32 rv32_repr_int [OF assms(1,2)] by simp
qed

lemma round32_repr: "is_f32 x \<Longrightarrow> round32 x = Fin x"
  by (simp add: is_f32_def)

lemma is_f32_rv32: "is_f32 x \<Longrightarrow> rv32 x = x \<and> \<bar>x\<bar> < 2 ^ 128"
  unfolding is_f32_def round32_rv32 by (auto split: if_splits)

lemma round32_minus: "round32 (- x) = fneg (round32 x)"
  by (simp add: round32_rv32 rv32_minus)

lemma is_f32_minus: "is_f32 x \<Longrightarrow> is_f32 (- x)"
  by (simp add: is_f32_def round32_minus)

lemma is_f32_zero [simp]: "is_f32 0"
  by (simp add: is_f32_def round32_rv32)

lemma is_f32_int: "\<bar>m\<bar> < 2 ^ 24 \<Longrightarrow> is_f32 (of_int m)"
  using is_f32I [of m 0] by simp

lemma is_f32_dyadic: "\<bar>m\<bar> < 2 ^ 24 \<Longrightarrow> k \<le> 149 \<Longrightarrow> is_f32 (of_int m / 2 ^ k)"
  using is_f32I [of m "- int k"] by (simp add: power_int_minus field_simps)

lemma is_f32_scaled: "\<bar>m\<bar> < 2 ^ 24 \<Longrightarrow> k \<le> 104 \<Longrightarrow> is_f32 (of_int m * 2 ^ k)"
  using is_f32I [of m "int k"] by simp

lemma exponent32_abs: "exponent32 x = exponent32 \<bar>x\<bar>"
  by (simp add: exponent32_def)

lemma round32_near:
  assumes "2 powi e \<le> \<bar>x\<bar>" and "\<bar>x\<bar> < 2 powi (e + 1)" and "- 126 \<le> e"
    and "\<bar>x / 2 powi (e - 23) - of_int k\<bar> < 1 / 2"
    and "\<bar>of_int k * 2 powi (e - 23)\<bar> < (2 ^ 128 :: real)"
  shows "round32 x = Fin (of_int k * 2 powi (e - 23))"
proof -
  have E: "exponent32 x = e"
    using exponent32_normal [OF assms(1,2,3)] exponent32_abs [of x] by simp
  have "0 < (2::real) powi e" by (rule zero_less_power_int) simp
  then have "x \<noteq> 0" using assms(1) by linarith
  moreover have "rhe (x / 2 powi (e - 23)) = k" using assms(4) by (rule rhe_near)
  ultimately have "rv32 x = of_int k * 2 powi (e - 23)" by (simp add: rv32_def E)
  then show ?thesis using assms(5) by (simp add: round32_rv32)
qed

lemma round32_tie:
  assumes "2 powi e \<le> x" and "x < 2 powi (e + 1)" and "- 126 \<le> e"
    and "x / 2 powi (e - 23) = of_int k + 1 / 2" and "even k"
    and "\<bar>of_int k * 2 powi (e - 23)\<bar> < (2 ^ 128 :: real)"
  shows "round32 x = Fin (of_int k * 2 powi (e - 23))"
proof -
  have E: "exponent32 x = e" using assms(1,2,3) by (rule exponent32_normal)
  have "0 < (2::real) powi e" by (rule zero_less_power_int) simp
  then have "x \<noteq> 0" using assms(1) by linarith
  moreover have "rhe (x / 2 powi (e - 23)) = k" unfolding assms(4) using assms(5) by (simp add: rhe_tie)
  ultimately have "rv32 x = of_int k * 2 powi (e - 23)" by (simp add: rv32_def E)
  then show ?thesis using assms(6) by (simp add: round32_rv32)
qed

lemma round32_overflow:
  assumes "2 ^ 128 \<le> x"
  shows "round32 x = PInf"
proof -
  have "(2::real) powi 128 \<le> 2 ^ 128" "(2 ^ 128 :: real) < 2 powi (128 + 1)" by simp_all
  then have "2 powi 128 \<le> rv32 (2 ^ 128)" by (intro rv32_normal(2)) simp_all
  moreover have "rv32 (2 ^ 128) \<le> rv32 x" using assms by (rule rv32_mono)
  ultimately have "2 ^ 128 \<le> rv32 x" by simp
  moreover have "0 < x" using assms by (smt (verit) zero_less_power)
  ultimately show ?thesis by (simp add: round32_rv32)
qed

lemma round32_zero [simp]: "round32 0 = Fin 0"
  by (simp add: round32_rv32)

lemma round32_one [simp]: "round32 1 = Fin 1"
  using round32_repr [OF is_f32_int [of 1]] by simp

lemma rhe_err: "\<bar>of_int (rhe r) - r\<bar> \<le> 1 / 2"
  unfolding rhe_def Let_def by (auto; linarith)

lemma rv32_err: "\<bar>rv32 x - x\<bar> \<le> 2 powi (exponent32 x - 24)"
proof (cases "x = 0")
  case True
  then show ?thesis by simp
next
  case False
  define u :: real where "u = 2 powi (exponent32 x - 23)"
  have u: "0 < u" unfolding u_def by (rule zero_less_power_int) simp
  have h: "2 powi (exponent32 x - 24) = u / 2"
    using power_int_add [of "2::real" "exponent32 x - 24" 1] by (simp add: u_def)
  have "rv32 x - x = (of_int (rhe (x / u)) - x / u) * u"
    using False u by (simp add: rv32_def u_def [symmetric] field_simps)
  then have "\<bar>rv32 x - x\<bar> = \<bar>of_int (rhe (x / u)) - x / u\<bar> * u"
    using u by (simp add: abs_mult)
  also have "\<dots> \<le> 1 / 2 * u" using rhe_err [of "x / u"] u by (intro mult_right_mono) simp_all
  finally show ?thesis by (simp add: h)
qed

subsection \<open>Intervals of finite floats\<close>

lemma fin_inE: "fin_in a b v \<Longrightarrow> \<exists>y. v = Fin y \<and> a \<le> y \<and> y \<le> b"
  by (cases v) simp_all

lemma fin_in_mono: "fin_in a b v \<Longrightarrow> a' \<le> a \<Longrightarrow> b \<le> b' \<Longrightarrow> fin_in a' b' v"
  by (cases v) simp_all

lemma round32_in:
  assumes "is_f32 a" and "is_f32 b" and "a \<le> x" and "x \<le> b"
  shows "fin_in a b (round32 x)"
  using round32_between [OF round32_repr [OF assms(1)] round32_repr [OF assms(2)] assms(3,4)]
  by auto

lemma fadd_in:
  assumes "fin_in a b u" and "fin_in c d v" and "is_f32 lo" and "is_f32 hi"
    and "lo \<le> a + c" and "b + d \<le> hi"
  shows "fin_in lo hi (fadd u v)"
proof -
  obtain x y where "u = Fin x" "a \<le> x" "x \<le> b" "v = Fin y" "c \<le> y" "y \<le> d"
    using fin_inE [OF assms(1)] fin_inE [OF assms(2)] by blast
  then show ?thesis using assms(5,6) by (simp add: round32_in [OF assms(3,4)])
qed

lemma fsub_in:
  assumes "fin_in a b u" and "fin_in c d v" and "is_f32 lo" and "is_f32 hi"
    and "lo \<le> a - d" and "b - c \<le> hi"
  shows "fin_in lo hi (fsub u v)"
proof -
  obtain x y where "u = Fin x" "a \<le> x" "x \<le> b" "v = Fin y" "c \<le> y" "y \<le> d"
    using fin_inE [OF assms(1)] fin_inE [OF assms(2)] by blast
  then show ?thesis using assms(5,6) by (simp add: fsub_def round32_in [OF assms(3,4)])
qed

lemma fmul_in:
  assumes "fin_in a b u" and "fin_in c d v" and "0 \<le> a" and "0 \<le> c"
    and "is_f32 lo" and "is_f32 hi" and "lo \<le> a * c" and "b * d \<le> hi"
  shows "fin_in lo hi (fmul u v)"
proof -
  obtain x y where xy: "u = Fin x" "a \<le> x" "x \<le> b" "v = Fin y" "c \<le> y" "y \<le> d"
    using fin_inE [OF assms(1)] fin_inE [OF assms(2)] by blast
  have "a * c \<le> x * y" using xy assms(3,4) by (intro mult_mono) simp_all
  moreover have "x * y \<le> b * d" using xy assms(3,4) by (intro mult_mono) simp_all
  ultimately show ?thesis using assms(7,8) xy by (simp add: round32_in [OF assms(5,6)])
qed

lemma fmul_in_abs:
  assumes "fin_in (- M) M u" and "fin_in (- N) N v" and "is_f32 K" and "M * N \<le> K"
  shows "fin_in (- K) K (fmul u v)"
proof -
  obtain x y where xy: "u = Fin x" "\<bar>x\<bar> \<le> M" "v = Fin y" "\<bar>y\<bar> \<le> N"
    using fin_inE [OF assms(1)] fin_inE [OF assms(2)] by (auto simp: abs_le_iff)
  have "\<bar>x * y\<bar> \<le> M * N" unfolding abs_mult using xy by (intro mult_mono) simp_all
  then have "- K \<le> x * y" "x * y \<le> K" using assms(4) by (simp_all add: abs_le_iff)
  then show ?thesis using xy by (simp add: round32_in [OF is_f32_minus [OF assms(3)] assms(3)])
qed

lemma fdiv32_in:
  assumes "fin_in a b u" and "fin_in c d v" and "0 \<le> a" and "0 < c"
    and "is_f32 lo" and "is_f32 hi" and "lo \<le> a / d" and "b / c \<le> hi"
  shows "fin_in lo hi (fdiv32 u v)"
proof -
  obtain x y where xy: "u = Fin x" "a \<le> x" "x \<le> b" "v = Fin y" "c \<le> y" "y \<le> d"
    using fin_inE [OF assms(1)] fin_inE [OF assms(2)] by blast
  have "a / d \<le> x / y" using xy assms(3,4) by (intro frac_le) simp_all
  moreover have "x / y \<le> b / c" using xy assms(3,4) by (intro frac_le) simp_all
  ultimately show ?thesis using assms(4,7,8) xy by (simp add: round32_in [OF assms(5,6)])
qed

lemma fsqrt_in:
  assumes "fin_in a b u" and "0 \<le> lo" and "lo * lo \<le> a" and "0 \<le> hi" and "b \<le> hi * hi"
    and "is_f32 lo" and "is_f32 hi"
  shows "fin_in lo hi (fsqrt u)"
proof -
  obtain x where x: "u = Fin x" "a \<le> x" "x \<le> b" using fin_inE [OF assms(1)] by blast
  have "0 \<le> x" using x assms(2,3) by (meson mult_nonneg_nonneg order_trans)
  have "sqrt (lo * lo) \<le> sqrt x" using x assms(3) by (intro real_sqrt_le_mono) simp
  then have "lo \<le> sqrt x" using assms(2) by simp
  moreover have "sqrt x \<le> sqrt (hi * hi)" using x assms(5) by (intro real_sqrt_le_mono) simp
  then have "sqrt x \<le> hi" using assms(4) by simp
  ultimately show ?thesis using x \<open>0 \<le> x\<close> by (simp add: round32_in [OF assms(6,7)])
qed

lemma fmul_zero_right: "finite32 v \<Longrightarrow> fmul v (Fin 0) = Fin 0"
  by (cases v) simp_all

lemma fmul_zero_left: "finite32 v \<Longrightarrow> fmul (Fin 0) v = Fin 0"
  by (cases v) simp_all

lemma fin_in_finite32: "fin_in a b v \<Longrightarrow> finite32 v"
  by (cases v) simp_all

subsection \<open>The tone map on float32\<close>

lemma is_f32_le_max:
  assumes "is_f32 x"
  shows "x \<le> 16777215 * 2 ^ 104"
proof (rule ccontr)
  assume "\<not> x \<le> 16777215 * 2 ^ 104"
  then have gt: "16777215 * 2 ^ 104 < x" by simp
  have rv: "rv32 x = x" "\<bar>x\<bar> < 2 ^ 128" using is_f32_rv32 [OF assms] by simp_all
  have lo: "(2::real) powi 127 \<le> x" using gt by simp
  have hi: "x < 2 powi (127 + 1)" using rv(2) by simp
  define k where "k = rhe (x / 2 powi (127 - 23))"
  have x: "x = of_int k * 2 ^ 104"
    using rv32_normal(1) [OF lo hi] rv(1) by (simp add: k_def)
  then have "(16777215::real) < of_int k" using gt by simp
  then have "16777215 < k" by linarith
  then have "16777216 \<le> k" by simp
  then have "(16777216::real) \<le> of_int k" by linarith
  then have "16777216 * 2 ^ 104 \<le> x" unfolding x by simp
  then show False using rv(2) by simp
qed

lemma round32_max_succ: "round32 (16777215 * 2 ^ 104 + 1) = Fin (16777215 * 2 ^ 104)"
  using round32_near [of 127 "16777215 * 2 ^ 104 + 1" 16777215] by simp

lemma lit32_one [simp]: "lit32 1 = Fin 1"
  by (simp add: lit32_def)

lemma lit32_zero [simp]: "lit32 0 = Fin 0"
  by (simp add: lit32_def)

lemma exponent32_below_one:
  assumes "0 < y" and "y < 1"
  shows "exponent32 y \<le> - 1"
proof (rule disjE [OF exponent32_cases [OF assms(1)]])
  assume "y < 2 powi (- 126) \<and> exponent32 y = - 126"
  then show ?thesis by simp
next
  assume a: "- 126 \<le> exponent32 y \<and> 2 powi (exponent32 y) \<le> y \<and> y < 2 powi (exponent32 y + 1)"
  show ?thesis
  proof (rule ccontr)
    assume "\<not> exponent32 y \<le> - 1"
    then have "0 \<le> exponent32 y" by simp
    then have "(2::real) powi 0 \<le> 2 powi (exponent32 y)" by (intro power_int_increasing) simp_all
    then show False using a assms(2) by simp
  qed
qed

lemma rv32_err_unit:
  assumes "0 \<le> y" and "y \<le> 1"
  shows "\<bar>rv32 y - y\<bar> \<le> 1 / 2 ^ 25"
proof -
  consider "y = 0" | "y = 1" | "0 < y" "y < 1" using assms by linarith
  then show ?thesis
  proof cases
    case 1 then show ?thesis by simp
  next
    case 2
    have "rv32 1 = 1" using is_f32_rv32 [OF is_f32_int [of 1]] by simp
    then show ?thesis using 2 by simp
  next
    case 3
    have "exponent32 y - 24 \<le> - 25" using exponent32_below_one [OF 3] by simp
    then have "(2::real) powi (exponent32 y - 24) \<le> 2 powi (- 25)"
      by (intro power_int_increasing) simp_all
    then show ?thesis using rv32_err [of y] by simp
  qed
qed

lemma abs_triangle_sum:
  fixes q y A e d :: real
  shows "\<bar>q - y\<bar> \<le> e \<Longrightarrow> \<bar>y - A\<bar> \<le> d \<Longrightarrow> \<bar>q - A\<bar> \<le> e + d"
  by linarith

lemma abs_close_mono:
  fixes p q A B e :: real
  shows "\<bar>p - A\<bar> \<le> e \<Longrightarrow> \<bar>q - B\<bar> \<le> e \<Longrightarrow> A \<le> B \<Longrightarrow> p \<le> q + 2 * e"
  by linarith

lemma reinhard_f32_bounds:
  assumes "is_f32 c" and "0 \<le> c"
  shows "\<exists>q. reinhard_f32 (Fin c) = Fin q \<and> 0 \<le> q \<and> q \<le> 1 \<and> \<bar>q - c / (c + 1)\<bar> \<le> 3 / 2 ^ 25"
proof -
  define s where "s = rv32 (c + 1)"
  have c1: "1 \<le> c + 1" "c + 1 \<le> 16777215 * 2 ^ 104 + 1"
    using assms(2) is_f32_le_max [OF assms(1)] by simp_all
  obtain s' where s': "round32 (c + 1) = Fin s'" "1 \<le> s'"
    using round32_between [OF round32_one round32_max_succ c1] by blast
  have rs: "round32 (c + 1) = Fin s" "1 \<le> s"
    using s' by (auto simp: round32_rv32 s_def split: if_splits)
  have "rv32 c \<le> rv32 (c + 1)" by (rule rv32_mono) simp
  then have cs: "c \<le> s" using is_f32_rv32 [OF assms(1)] by (simp add: s_def)
  have "(2::real) powi (- 126) \<le> 1" by simp
  then have "2 powi (- 126) \<le> c + 1" using c1(1) by linarith
  then have "2 powi (exponent32 (c + 1)) \<le> s"
    unfolding s_def using c1(1) by (intro rv32_pos_bounds(3)) simp_all
  moreover have "(2::real) powi (exponent32 (c + 1) - 24) = 2 powi (exponent32 (c + 1)) / 2 ^ 24"
    using power_int_add [of "2::real" "exponent32 (c + 1) - 24" 24] by simp
  ultimately have es: "\<bar>s - (c + 1)\<bar> \<le> s / 2 ^ 24"
    using rv32_err [of "c + 1"] by (simp add: s_def divide_right_mono order_trans)
  define y where "y = c / s"
  have y: "0 \<le> y" "y \<le> 1" using assms(2) rs(2) cs by (simp_all add: y_def)
  have "y - c / (c + 1) = (c / (c + 1)) * ((c + 1 - s) / s)"
    using assms(2) rs(2) by (simp add: y_def field_simps)
  then have "\<bar>y - c / (c + 1)\<bar> = (c / (c + 1)) * (\<bar>s - (c + 1)\<bar> / s)"
    using assms(2) rs(2) by (simp add: abs_mult abs_minus_commute)
  also have "\<dots> \<le> 1 * (1 / 2 ^ 24)"
  proof (intro mult_mono)
    show "c / (c + 1) \<le> 1" using assms(2) by simp
    show "\<bar>s - (c + 1)\<bar> / s \<le> 1 / 2 ^ 24" using es rs(2) by (simp add: field_simps)
  qed (use assms(2) rs(2) in simp_all)
  finally have ey: "\<bar>y - c / (c + 1)\<bar> \<le> 1 / 2 ^ 24" by simp
  obtain q where q: "round32 y = Fin q" "0 \<le> q" "q \<le> 1"
    using round32_between [OF round32_zero round32_one y] by blast
  then have qv: "q = rv32 y" by (auto simp: round32_rv32 split: if_splits)
  have eq: "\<bar>q - y\<bar> \<le> 1 / 2 ^ 25" unfolding qv using y by (rule rv32_err_unit)
  have "\<bar>q - c / (c + 1)\<bar> \<le> 3 / 2 ^ 25" using abs_triangle_sum [OF eq ey] by simp
  moreover have "reinhard_f32 (Fin c) = Fin q"
    using rs q(1) by (simp add: reinhard_f32_def y_def)
  ultimately show ?thesis using q(2,3) by blast
qed

lemma reinhard_f32_pair:
  assumes "is_f32 a" and "is_f32 b" and "0 \<le> a" and "a \<le> b"
  shows "\<exists>p q. reinhard_f32 (Fin a) = Fin p \<and> reinhard_f32 (Fin b) = Fin q \<and>
           0 \<le> p \<and> p \<le> 1 \<and> 0 \<le> q \<and> q \<le> 1 \<and>
           \<bar>p - a / (a + 1)\<bar> \<le> 3 / 2 ^ 25 \<and> \<bar>q - b / (b + 1)\<bar> \<le> 3 / 2 ^ 25 \<and>
           p \<le> q + 3 / 2 ^ 24"
proof -
  obtain p where p: "reinhard_f32 (Fin a) = Fin p" "0 \<le> p" "p \<le> 1" "\<bar>p - a / (a + 1)\<bar> \<le> 3 / 2 ^ 25"
    using reinhard_f32_bounds [OF assms(1,3)] by blast
  have "0 \<le> b" using assms(3,4) by simp
  then obtain q where q: "reinhard_f32 (Fin b) = Fin q" "0 \<le> q" "q \<le> 1" "\<bar>q - b / (b + 1)\<bar> \<le> 3 / 2 ^ 25"
    using reinhard_f32_bounds [OF assms(2)] by blast
  have "p \<le> q + 3 / 2 ^ 24"
    using abs_close_mono [OF p(4) q(4) reinhard_mono [OF assms(3,4)]] by simp
  then show ?thesis using p q by blast
qed

lemma tonemap_f32_channels:
  "tonemap_f32 (FVec3 x y z) = FVec3 (reinhard_f32 x) (reinhard_f32 y) (reinhard_f32 z)"
  by (simp add: tonemap_f32_def reinhard_f32_def fvdiv_def fvadd_def fsplat_def)

lemma reinhard_f32_saturates: "reinhard_f32 (Fin (2 ^ 24)) = Fin 1"
proof -
  have "round32 (2 ^ 24 + 1) = Fin (2 ^ 24)"
    using round32_tie [of 24 "2 ^ 24 + 1" "2 ^ 23"] by simp
  then show ?thesis by (simp add: reinhard_f32_def)
qed

lemma reinhard_f32_above: "reinhard_f32 (Fin (3 + 1 / 2 ^ 22)) = Fin (3 / 4 + 1 / 2 ^ 24)"
proof -
  have "round32 (3 + 1 / 2 ^ 22 + 1) = Fin 4"
    using round32_tie [of 2 "3 + 1 / 2 ^ 22 + 1" "2 ^ 23"] by simp
  moreover have "round32 (12582913 / 2 ^ 24) = Fin (12582913 / 2 ^ 24)"
    using round32_repr [OF is_f32_dyadic [of 12582913 24]] by simp
  ultimately show ?thesis by (simp add: reinhard_f32_def)
qed

lemma reinhard_f32_below: "reinhard_f32 (Fin (3 + 1 / 2 ^ 21)) = Fin (3 / 4)"
proof -
  have "round32 (8388609 / 2 ^ 21) = Fin (8388609 / 2 ^ 21)"
    using round32_repr [OF is_f32_dyadic [of 8388609 21]] by simp
  then have "round32 (3 + 1 / 2 ^ 21 + 1) = Fin (8388609 / 2 ^ 21)" by simp
  moreover have "round32 ((3 + 1 / 2 ^ 21) / (8388609 / 2 ^ 21)) = Fin (3 / 4)"
    using round32_near [of "- 1" "(3 + 1 / 2 ^ 21) / (8388609 / 2 ^ 21)" 12582912] by simp
  ultimately show ?thesis by (simp add: reinhard_f32_def)
qed

lemma is_f32_examples:
  "is_f32 1" "is_f32 3" "is_f32 (2 ^ 24)" "is_f32 (3 + 1 / 2 ^ 22)" "is_f32 (3 + 1 / 2 ^ 21)"
  using is_f32_int [of 1] is_f32_int [of 3] is_f32_scaled [of 1 24]
    is_f32_dyadic [of 12582913 22] is_f32_dyadic [of 6291457 21]
  by simp_all

lemma reinhard_f32_one: "reinhard_f32 (Fin 1) = Fin (1 / 2)"
  using round32_repr [OF is_f32_int [of 2]] round32_repr [OF is_f32_dyadic [of 1 1]]
  by (simp add: reinhard_f32_def)

lemma reinhard_f32_three: "reinhard_f32 (Fin 3) = Fin (3 / 4)"
  using round32_repr [OF is_f32_int [of 4]] round32_repr [OF is_f32_dyadic [of 3 2]]
  by (simp add: reinhard_f32_def)

subsection \<open>The GGX distribution on float32\<close>

lemma lit32_pi: "lit32 3.14159 = Fin (823549 / 262144)"
  unfolding lit32_def using round32_near [of 1 "3.14159" 13176784] by simp

lemma round32_below_minus_one: "round32 (- 1 + 1 / 2 ^ 26) = Fin (- 1)"
  using round32_near [of "- 1" "- 1 + 1 / 2 ^ 26" "- (2 ^ 24)"] by simp

lemma round32_minus_one [simp]: "round32 (- 1) = Fin (- 1)"
  using round32_minus [of 1] by simp

lemma fdot_axis: "fdot (FVec3 (Fin 0) (Fin 0) (Fin 1)) (FVec3 (Fin 0) (Fin 0) (Fin 1)) = Fin 1"
  by (simp add: fdot_def)

lemma calculateDistributionGGX_f32_eq:
  "calculateDistributionGGX_f32 n h r = fdiv32 (fmul r r) (GGX_denom_f32 n h r)"
  by (simp add: calculateDistributionGGX_f32_def GGX_denom_f32_def Let_def)

lemma GGX_f32_small_roughness:
  assumes "\<bar>r\<bar> \<le> 1 / 2 ^ 13" and "fdot n h = Fin 1"
  shows "GGX_denom_f32 n h (Fin r) = Fin 0"
    and "calculateDistributionGGX_f32 n h (Fin r) = (if round32 (r * r) = Fin 0 then NaN else PInf)"
proof -
  have "\<bar>r\<bar> * \<bar>r\<bar> \<le> 1 / 2 ^ 13 * (1 / 2 ^ 13)" using assms(1) by (intro mult_mono) simp_all
  then have rr: "0 \<le> r * r" "r * r \<le> 1 / 2 ^ 26" by (simp_all add: abs_mult [symmetric])
  have "fin_in 0 (1 / 2 ^ 26) (round32 (r * r))"
    using is_f32_dyadic [of 1 26] rr by (intro round32_in) simp_all
  then obtain a where a: "round32 (r * r) = Fin a" "0 \<le> a" "a \<le> 1 / 2 ^ 26"
    using fin_inE by blast
  have "- 1 \<le> a - 1" "a - 1 \<le> - 1 + 1 / 2 ^ 26" using a by simp_all
  then have s: "round32 (a - 1) = Fin (- 1)"
    using round32_between [OF round32_minus_one round32_below_minus_one] by fastforce
  show d: "GGX_denom_f32 n h (Fin r) = Fin 0"
    using lit32_pi by (simp add: GGX_denom_f32_def Let_def assms(2) a(1) fsub_def s)
  show "calculateDistributionGGX_f32 n h (Fin r) = (if round32 (r * r) = Fin 0 then NaN else PInf)"
    using a(2) by (simp add: calculateDistributionGGX_f32_eq d a(1) finf_def)
qed

lemma fmul_in_unit_neg:
  assumes "fin_in 0 1 u" and "fin_in c 0 v" and "is_f32 c"
  shows "fin_in c 0 (fmul u v)"
proof -
  obtain x y where xy: "u = Fin x" "0 \<le> x" "x \<le> 1" "v = Fin y" "c \<le> y" "y \<le> 0"
    using fin_inE [OF assms(1)] fin_inE [OF assms(2)] by blast
  have "x * y \<le> 0" using xy by (simp add: mult_nonneg_nonpos)
  moreover have "x * (- y) \<le> 1 * (- y)" using xy by (intro mult_right_mono) simp_all
  then have "c \<le> x * y" using xy by simp
  ultimately show ?thesis using xy by (simp add: round32_in [OF assms(3) is_f32_zero])
qed

lemma GGX_f32_divisor_pos:
  assumes "1 / 2 ^ 12 \<le> r" and "r \<le> 1" and "fdot n h = Fin t" and "t \<le> 1"
  shows "\<exists>d q. GGX_denom_f32 n h (Fin r) = Fin d \<and> 0 < d \<and>
           calculateDistributionGGX_f32 n h (Fin r) = Fin q \<and> 0 \<le> q"
proof -
  have f: "is_f32 (1 / 2 ^ 24)" "is_f32 1" "is_f32 (- (16777215 / 2 ^ 24))" "is_f32 2" "is_f32 4"
    "is_f32 (1 / 2 ^ 23)" "is_f32 (1 / 2 ^ 47)" "is_f32 (1 / 2 ^ 26)" "is_f32 (2 ^ 47)"
    "is_f32 (823549 / 262144)"
  proof -
    have "is_f32 (16777215 / 2 ^ 24)" using is_f32_dyadic [of 16777215 24] by simp
    then show "is_f32 (- (16777215 / 2 ^ 24))" by (rule is_f32_minus)
  qed (use is_f32_dyadic [of 1 24] is_f32_int [of 1]
      is_f32_int [of 2] is_f32_int [of 4] is_f32_dyadic [of 1 23] is_f32_dyadic [of 1 47]
      is_f32_dyadic [of 1 26] is_f32_scaled [of 1 47] is_f32_dyadic [of 823549 18] in simp_all)
  define A where "A = fmul (Fin r) (Fin r)"
  define N where "N = fmax (fdot n h) (lit32 0.0)"
  define N2 where "N2 = fmul N N"
  define S where "S = fsub A (lit32 1.0)"
  define P where "P = fmul N2 S"
  define D where "D = fadd P (lit32 1.0)"
  define M where "M = fmul (fmul (lit32 3.14159) D) D"
  have "1 / 2 ^ 12 * (1 / 2 ^ 12) \<le> r * r" using assms(1) by (intro mult_mono) simp_all
  moreover have "r * r \<le> 1 * 1" using assms(1,2) by (intro mult_mono) simp_all
  ultimately have A: "fin_in (1 / 2 ^ 24) 1 A"
    unfolding A_def fmul.simps by (intro round32_in f) (use f in simp_all)
  have N: "fin_in 0 1 N" using assms(3,4) by (simp add: N_def)
  have N2: "fin_in 0 1 N2" unfolding N2_def by (rule fmul_in [OF N N]) (use f in simp_all)
  have S: "fin_in (- (16777215 / 2 ^ 24)) 0 S"
    unfolding S_def by (rule fsub_in [OF A, of 1 1]) (use f in simp_all)
  have P: "fin_in (- (16777215 / 2 ^ 24)) 0 P"
    unfolding P_def by (rule fmul_in_unit_neg [OF N2 S f(3)])
  have D: "fin_in (1 / 2 ^ 24) 1 D"
    unfolding D_def by (rule fadd_in [OF P, of 1 1]) (use f in simp_all)
  have pi: "fin_in 2 4 (lit32 3.14159)" using lit32_pi by simp
  have M1: "fin_in (1 / 2 ^ 23) 4 (fmul (lit32 3.14159) D)"
    by (rule fmul_in [OF pi D]) (use f in simp_all)
  have M: "fin_in (1 / 2 ^ 47) 4 M"
    unfolding M_def by (rule fmul_in [OF M1 D]) (use f in simp_all)
  have Q: "fin_in (1 / 2 ^ 26) (2 ^ 47) (fdiv32 A M)"
    by (rule fdiv32_in [OF A M]) (use f in simp_all)
  have d: "GGX_denom_f32 n h (Fin r) = M"
    by (simp add: GGX_denom_f32_def Let_def M_def D_def P_def S_def N2_def N_def A_def)
  have q: "calculateDistributionGGX_f32 n h (Fin r) = fdiv32 A M"
    by (simp add: calculateDistributionGGX_f32_eq d A_def)
  obtain dv where dv: "M = Fin dv" "1 / 2 ^ 47 \<le> dv" using fin_inE [OF M] by blast
  obtain qv where qv: "fdiv32 A M = Fin qv" "1 / 2 ^ 26 \<le> qv" using fin_inE [OF Q] by blast
  have "0 < dv" using dv(2) by (smt (verit) divide_pos_pos zero_less_power)
  moreover have "0 \<le> qv" using qv(2) by (smt (verit) divide_pos_pos zero_less_power)
  ultimately show ?thesis using d q dv(1) qv(1) by simp
qed

subsection \<open>The point light on float32\<close>

lemma lit32_four [simp]: "lit32 4 = Fin 4"
  unfolding lit32_def using round32_repr [OF is_f32_int [of 4]] by simp

lemma four_pi_f32: "fmul (lit32 4.0) (lit32 3.14159) = Fin (823549 / 65536)"
  using lit32_pi round32_repr [OF is_f32_dyadic [of 823549 16]] by simp

lemma fsub_self [simp]: "fsub (Fin x) (Fin x) = Fin 0"
  by (simp add: fsub_def)

lemma fsub_Fin: "fsub (Fin x) (Fin y) = round32 (x - y)"
  by (simp add: fsub_def)

lemma fsqrt_zero [simp]: "fsqrt (Fin 0) = Fin 0"
  by simp

lemma calculatePointLight_f32_coincident:
  "calculatePointLight_f32
     \<lparr>pos_f = FVec3 (Fin x) (Fin y) (Fin z), color_f = c, intensity_f = Fin i\<rparr>
     (FVec3 (Fin x) (Fin y) (Fin z)) = fvscale c (finf i)"
  using four_pi_f32
  by (simp add: calculatePointLight_f32_def Let_def fvsub_def flength_def fdot_def)

lemma fmul_square_in:
  assumes "fin_in (- M) M u" and "is_f32 (M * M)"
  shows "fin_in 0 (M * M) (fmul u u)"
proof -
  obtain x where x: "u = Fin x" "\<bar>x\<bar> \<le> M" using fin_inE [OF assms(1)] by (auto simp: abs_le_iff)
  have "\<bar>x\<bar> * \<bar>x\<bar> \<le> M * M" using x by (intro mult_mono) simp_all
  then have "x * x \<le> M * M" by (simp add: abs_mult [symmetric])
  then show ?thesis using x by (simp add: round32_in [OF is_f32_zero assms(2)])
qed

lemma fsub_in_abs:
  assumes "\<bar>x - y\<bar> \<le> M" and "is_f32 M"
  shows "fin_in (- M) M (fsub (Fin x) (Fin y))"
  unfolding fsub_Fin using assms(1)
  by (intro round32_in is_f32_minus assms(2)) (simp_all add: abs_le_iff)

lemma calculatePointLight_f32_overflow:
  assumes "\<bar>lx - px\<bar> \<le> 1 / 2 ^ 62" and "\<bar>ly - py\<bar> \<le> 1 / 2 ^ 62" and "\<bar>lz - pz\<bar> \<le> 1 / 2 ^ 62"
    and "1024 \<le> i"
  shows "calculatePointLight_f32
           \<lparr>pos_f = FVec3 (Fin lx) (Fin ly) (Fin lz), color_f = c, intensity_f = Fin i\<rparr>
           (FVec3 (Fin px) (Fin py) (Fin pz)) = fvscale c PInf"
proof -
  have f: "is_f32 (1 / 2 ^ 62)" "is_f32 (1 / 2 ^ 62 * (1 / 2 ^ 62))" "is_f32 (2 / 2 ^ 124)"
    "is_f32 (3 / 2 ^ 124)" "is_f32 (1 / 2 ^ 61)" "is_f32 (1 / 2 ^ 57)" "is_f32 (1 / 2 ^ 118)"
    using is_f32_dyadic [of 1 62] is_f32_dyadic [of 1 124] is_f32_dyadic [of 2 124]
      is_f32_dyadic [of 3 124] is_f32_dyadic [of 1 61] is_f32_dyadic [of 1 57]
      is_f32_dyadic [of 1 118]
    by simp_all
  define wx where "wx = fsub (Fin lx) (Fin px)"
  define wy where "wy = fsub (Fin ly) (Fin py)"
  define wz where "wz = fsub (Fin lz) (Fin pz)"
  define dist where "dist = flength (FVec3 wx wy wz)"
  define dv where "dv = fmul (fmul (fmul (lit32 4.0) (lit32 3.14159)) dist) dist"
  have w: "fin_in (- (1 / 2 ^ 62)) (1 / 2 ^ 62) wx" "fin_in (- (1 / 2 ^ 62)) (1 / 2 ^ 62) wy"
    "fin_in (- (1 / 2 ^ 62)) (1 / 2 ^ 62) wz"
    unfolding wx_def wy_def wz_def using assms(1,2,3) f(1) by (simp_all only: fsub_in_abs)
  have sq: "fin_in 0 (1 / 2 ^ 62 * (1 / 2 ^ 62)) (fmul wx wx)"
    "fin_in 0 (1 / 2 ^ 62 * (1 / 2 ^ 62)) (fmul wy wy)"
    "fin_in 0 (1 / 2 ^ 62 * (1 / 2 ^ 62)) (fmul wz wz)"
    using w f(2) by (simp_all only: fmul_square_in)
  have s2: "fin_in 0 (2 / 2 ^ 124) (fadd (fmul wx wx) (fmul wy wy))"
    by (rule fadd_in [OF sq(1,2)]) (use f in simp_all)
  have s3: "fin_in 0 (3 / 2 ^ 124) (fadd (fadd (fmul wx wx) (fmul wy wy)) (fmul wz wz))"
    by (rule fadd_in [OF s2 sq(3)]) (use f in simp_all)
  have d: "fin_in 0 (1 / 2 ^ 61) dist"
    unfolding dist_def flength_def fdot_def fvec3.sel
    by (rule fsqrt_in [OF s3]) (use f in simp_all)
  have p: "fin_in 8 16 (fmul (lit32 4.0) (lit32 3.14159))" using four_pi_f32 by simp
  have m1: "fin_in 0 (1 / 2 ^ 57) (fmul (fmul (lit32 4.0) (lit32 3.14159)) dist)"
    by (rule fmul_in [OF p d]) (use f in simp_all)
  have m2: "fin_in 0 (1 / 2 ^ 118) dv"
    unfolding dv_def by (rule fmul_in [OF m1 d]) (use f in simp_all)
  obtain v where v: "dv = Fin v" "0 \<le> v" "v \<le> 1 / 2 ^ 118" using fin_inE [OF m2] by blast
  have "fdiv32 (Fin i) dv = PInf"
  proof (cases "v = 0")
    case True
    then show ?thesis using assms(4) v(1) by (simp add: finf_def)
  next
    case False
    then have vp: "0 < v" using v(2) by simp
    have "1024 / (1 / 2 ^ 118) \<le> i / v" using assms(4) v(3) vp by (intro frac_le) simp_all
    then have "2 ^ 128 \<le> i / v" by simp
    then show ?thesis using False v(1) by (simp add: round32_overflow)
  qed
  then show ?thesis
    by (simp add: calculatePointLight_f32_def Let_def fvsub_def dv_def dist_def wx_def wy_def wz_def)
qed

subsection \<open>The cosine factor on float32\<close>

lemma calculateBRDF_f32_eq:
  "calculateBRDF_f32 light position normal w_o roughness metallic albedo =
     fvscale (BRDF_radiance_f32 light position normal w_o roughness metallic albedo)
       (fmax (fdot normal (fnormalize (fvsub (pos_f light) position))) (lit32 0.0))"
  by (simp add: calculateBRDF_f32_def BRDF_radiance_f32_def Let_def)

lemma BRDF_radiance_f32_factor:
  "\<exists>X. BRDF_radiance_f32 light position normal w_o roughness metallic albedo =
         fvmul X (calculatePointLight_f32 light position)"
  unfolding BRDF_radiance_f32_def Let_def by (rule exI) (rule refl)

lemma fmax_backface: "fle d (Fin 0) \<Longrightarrow> fmax d (Fin 0) = Fin 0"
  by (cases d) simp_all

lemma fmul_zero_cosine: "fmul v (Fin 0) = backface_channel v"
  by (cases v) (simp_all add: backface_channel_def finf_def)

lemma calculateBRDF_f32_backface:
  assumes "fle (fdot normal (fnormalize (fvsub (pos_f light) position))) (Fin 0)"
  shows "calculateBRDF_f32 light position normal w_o roughness metallic albedo =
     FVec3 (backface_channel (fx (BRDF_radiance_f32 light position normal w_o roughness metallic albedo)))
           (backface_channel (fy (BRDF_radiance_f32 light position normal w_o roughness metallic albedo)))
           (backface_channel (fz (BRDF_radiance_f32 light position normal w_o roughness metallic albedo)))"
  by (simp add: calculateBRDF_f32_eq fmax_backface [OF assms] fvscale_def fmul_zero_cosine)

lemma fmul_PInf_not_finite: "\<not> finite32 (fmul s PInf)"
  by (cases s) (simp_all add: finf_def)

lemma backface_channel_infinite: "backface_channel (fmul s PInf) = NaN"
  by (simp add: backface_channel_def fmul_PInf_not_finite)

lemma sqrt_pow124: "sqrt (1 / 2 ^ 124) = 1 / 2 ^ 62"
  by (rule real_sqrt_unique) (simp_all add: power_divide)

lemma sqrt_pow124_num:
  "sqrt (1 / 21267647932558653966460912964485513216) = 1 / 4611686018427387904"
  using sqrt_pow124 by simp

lemma sqrt_25: "sqrt 25 = 5"
  by (rule real_sqrt_unique) simp_all

lemma round32_small_vals:
  "round32 (1 / 2 ^ 62) = Fin (1 / 2 ^ 62)" "round32 (1 / 2 ^ 124) = Fin (1 / 2 ^ 124)"
  "round32 5 = Fin 5" "round32 25 = Fin 25" "round32 2 = Fin 2"
  using round32_repr [OF is_f32_dyadic [of 1 62]] round32_repr [OF is_f32_dyadic [of 1 124]]
    round32_repr [OF is_f32_int [of 5]] round32_repr [OF is_f32_int [of 25]]
    round32_repr [OF is_f32_int [of 2]]
  by simp_all

lemma round32_neg_vals:
  "round32 (- (1 / 2 ^ 62)) = Fin (- (1 / 2 ^ 62))" "round32 (- 5) = Fin (- 5)"
  using round32_small_vals(1,3) by (simp_all add: round32_minus)

lemma near_light_direction:
  "fnormalize (fvsub (FVec3 (Fin 0) (Fin 0) (Fin (- (1 / 2 ^ 62)))) (FVec3 (Fin 0) (Fin 0) (Fin 0))) =
     FVec3 (Fin 0) (Fin 0) (Fin (- 1))"
  using round32_small_vals round32_neg_vals
  by (simp add: fnormalize_def fvdivs_def flength_def fdot_def fvsub_def fsub_Fin sqrt_pow124_num)

lemma far_light_direction:
  "fnormalize (fvsub (FVec3 (Fin 0) (Fin 0) (Fin (- 5))) (FVec3 (Fin 0) (Fin 0) (Fin 0))) =
     FVec3 (Fin 0) (Fin 0) (Fin (- 1))"
  using round32_small_vals round32_neg_vals sqrt_25
  by (simp add: fnormalize_def fvdivs_def flength_def fdot_def fvsub_def fsub_Fin)

lemma fdot_behind: "fdot (FVec3 (Fin 0) (Fin 0) (Fin 1)) (FVec3 (Fin 0) (Fin 0) (Fin (- 1))) = Fin (- 1)"
  by (simp add: fdot_def)

lemma fin_in_Fin_self: "fin_in a a (Fin a)"
  by simp

lemma fmul_one_right_in:
  assumes "fin_in a b v" and "is_f32 a" and "is_f32 b"
  shows "fin_in a b (fmul v (Fin 1))"
proof -
  obtain x where "v = Fin x" "a \<le> x" "x \<le> b" using fin_inE [OF assms(1)] by blast
  then show ?thesis by (simp add: round32_in [OF assms(2,3)])
qed

lemma fmul_one_left_in:
  assumes "fin_in a b v" and "is_f32 a" and "is_f32 b"
  shows "fin_in a b (fmul (Fin 1) v)"
proof -
  obtain x where "v = Fin x" "a \<le> x" "x \<le> b" using fin_inE [OF assms(1)] by blast
  then show ?thesis by (simp add: round32_in [OF assms(2,3)])
qed

lemma fadd_zero_right_in:
  assumes "fin_in a b v" and "is_f32 a" and "is_f32 b"
  shows "fin_in a b (fadd v (Fin 0))"
proof -
  obtain x where "v = Fin x" "a \<le> x" "x \<le> b" using fin_inE [OF assms(1)] by blast
  then show ?thesis by (simp add: round32_in [OF assms(2,3)])
qed

lemma fadd_zero_left_in:
  assumes "fin_in a b v" and "is_f32 a" and "is_f32 b"
  shows "fin_in a b (fadd (Fin 0) v)"
proof -
  obtain x where "v = Fin x" "a \<le> x" "x \<le> b" using fin_inE [OF assms(1)] by blast
  then show ?thesis by (simp add: round32_in [OF assms(2,3)])
qed

lemma fmul_zero_right_in: "fin_in a b v \<Longrightarrow> fmul v (Fin 0) = Fin 0"
  by (cases v) simp_all

lemma vfin_in_splat [simp]: "vfin_in a b (fsplat v) \<longleftrightarrow> fin_in a b v"
  by (simp add: vfin_in_def fsplat_def)

lemma vfin_in_finite32:
  "vfin_in a b v \<Longrightarrow> finite32 (fx v) \<and> finite32 (fy v) \<and> finite32 (fz v)"
  unfolding vfin_in_def by (meson fin_in_finite32)

lemma vfin_in_mono: "vfin_in a b v \<Longrightarrow> a' \<le> a \<Longrightarrow> b \<le> b' \<Longrightarrow> vfin_in a' b' v"
  unfolding vfin_in_def by (meson fin_in_mono)

lemma fvadd_in:
  assumes "vfin_in a b u" and "vfin_in c d v" and "is_f32 lo" and "is_f32 hi"
    and "lo \<le> a + c" and "b + d \<le> hi"
  shows "vfin_in lo hi (fvadd u v)"
  using assms(1,2) unfolding vfin_in_def fvadd_def fvec3.sel
  by (simp add: fadd_in [OF _ _ assms(3,4,5,6)])

lemma fvsub_in:
  assumes "vfin_in a b u" and "vfin_in c d v" and "is_f32 lo" and "is_f32 hi"
    and "lo \<le> a - d" and "b - c \<le> hi"
  shows "vfin_in lo hi (fvsub u v)"
  using assms(1,2) unfolding vfin_in_def fvsub_def fvec3.sel
  by (simp add: fsub_in [OF _ _ assms(3,4,5,6)])

lemma fvmul_in_abs:
  assumes "vfin_in (- M) M u" and "vfin_in (- N) N v" and "is_f32 K" and "M * N \<le> K"
  shows "vfin_in (- K) K (fvmul u v)"
  using assms(1,2) unfolding vfin_in_def fvmul_def fvec3.sel
  by (simp add: fmul_in_abs [OF _ _ assms(3,4)])

lemma fvscale_in_abs:
  assumes "vfin_in (- M) M u" and "fin_in (- N) N s" and "is_f32 K" and "M * N \<le> K"
  shows "vfin_in (- K) K (fvscale u s)"
  using assms(1,2) unfolding vfin_in_def fvscale_def fvec3.sel
  by (simp add: fmul_in_abs [OF _ _ assms(3,4)])

lemma fvscale_in:
  assumes "vfin_in a b u" and "fin_in c d s" and "0 \<le> a" and "0 \<le> c"
    and "is_f32 lo" and "is_f32 hi" and "lo \<le> a * c" and "b * d \<le> hi"
  shows "vfin_in lo hi (fvscale u s)"
  using assms(1,2) unfolding vfin_in_def fvscale_def fvec3.sel
  by (simp add: fmul_in [OF _ _ assms(3,4,5,6,7,8)])

lemma fvdivs_in:
  assumes "vfin_in a b u" and "fin_in c d s" and "0 \<le> a" and "0 < c"
    and "is_f32 lo" and "is_f32 hi" and "lo \<le> a / d" and "b / c \<le> hi"
  shows "vfin_in lo hi (fvdivs u s)"
  using assms(1,2) unfolding vfin_in_def fvdivs_def fvec3.sel
  by (simp add: fdiv32_in [OF _ _ assms(3,4,5,6,7,8)])

lemma is_f32_small:
  "is_f32 1" "is_f32 2" "is_f32 4" "is_f32 8" "is_f32 16" "is_f32 (1 / 2)" "is_f32 (1 / 4)"
  "is_f32 (1 / 16)" "is_f32 (1 / 32)" "is_f32 (- 1)" "is_f32 (- (1 / 2))" "is_f32 (- 4)"
  "is_f32 256" "is_f32 512" "is_f32 5"
proof -
  show "is_f32 1" "is_f32 2" "is_f32 4" "is_f32 8" "is_f32 16" "is_f32 256" "is_f32 512" "is_f32 5"
    using is_f32_int [of 1] is_f32_int [of 2] is_f32_int [of 4] is_f32_int [of 8] is_f32_int [of 16]
      is_f32_int [of 256] is_f32_int [of 512] is_f32_int [of 5]
    by simp_all
  show h: "is_f32 (1 / 2)" "is_f32 (1 / 4)" "is_f32 (1 / 16)" "is_f32 (1 / 32)"
    using is_f32_dyadic [of 1 1] is_f32_dyadic [of 1 2] is_f32_dyadic [of 1 4] is_f32_dyadic [of 1 5]
    by simp_all
  show "is_f32 (- 1)" "is_f32 (- (1 / 2))" "is_f32 (- 4)"
    using is_f32_minus [OF \<open>is_f32 1\<close>] is_f32_minus [OF h(1)] is_f32_minus [OF \<open>is_f32 4\<close>]
    by simp_all
qed

lemma half_vector_f32:
  "\<exists>hx. 1 / 2 \<le> hx \<and> hx \<le> 1 \<and>
     fnormalize (fvadd (FVec3 (Fin 0) (Fin 0) (Fin (- 1))) (FVec3 (Fin 1) (Fin 0) (Fin 0))) =
       FVec3 (Fin hx) (Fin 0) (Fin (- hx))"
proof -
  have v: "fvadd (FVec3 (Fin 0) (Fin 0) (Fin (- 1))) (FVec3 (Fin 1) (Fin 0) (Fin 0)) =
      FVec3 (Fin 1) (Fin 0) (Fin (- 1))"
    by (simp add: fvadd_def)
  have d: "fdot (FVec3 (Fin 1) (Fin 0) (Fin (- 1))) (FVec3 (Fin 1) (Fin 0) (Fin (- 1))) = Fin 2"
    using round32_small_vals(5) by (simp add: fdot_def)
  have "fin_in 1 2 (fsqrt (Fin 2))"
    by (rule fsqrt_in [of 2 2]) (use is_f32_small in simp_all)
  then obtain s where "fsqrt (Fin 2) = Fin s" and s: "1 \<le> s" "s \<le> 2" using fin_inE by blast
  then have rs: "round32 (sqrt 2) = Fin s" by simp
  have "1 / 2 \<le> 1 / s" "1 / s \<le> 1" using s by (simp_all add: field_simps)
  then have "fin_in (1 / 2) 1 (round32 (1 / s))"
    by (intro round32_in) (use is_f32_small in simp_all)
  then obtain hx where hx: "round32 (1 / s) = Fin hx" "1 / 2 \<le> hx" "hx \<le> 1" using fin_inE by blast
  have "round32 (- (1 / s)) = Fin (- hx)" by (simp add: round32_minus hx(1))
  then have "fnormalize (FVec3 (Fin 1) (Fin 0) (Fin (- 1))) = FVec3 (Fin hx) (Fin 0) (Fin (- hx))"
    using s(1) hx(1) by (simp add: fnormalize_def flength_def d rs fvdivs_def)
  then show ?thesis using hx(2,3) v by auto
qed

lemma fresnel_f32_in:
  assumes "vfin_in (1 / 32) (1 / 16) F0"
    and "fin_in (1 / 2) 1 (fdot w_o (fnormalize (fvadd w_i w_o)))"
  shows "vfin_in 0 2 (calculateFresnelSchlick_f32 w_i w_o F0)"
proof -
  obtain t where t: "fdot w_o (fnormalize (fvadd w_i w_o)) = Fin t" "1 / 2 \<le> t" "t \<le> 1"
    using fin_inE [OF assms(2)] by blast
  have "fin_in (1 / 2) 1 (fmax (Fin t) (Fin 0))" using t by simp
  then have "fin_in 0 (1 / 2) (fsub (Fin 1) (fmax (Fin t) (Fin 0)))"
    by (rule fsub_in [OF fin_in_Fin_self]) (use is_f32_small in simp_all)
  then obtain a where a: "fsub (Fin 1) (fmax (Fin t) (Fin 0)) = Fin a" "0 \<le> a" "a \<le> 1 / 2"
    using fin_inE by blast
  have five: "lit32 5 = Fin 5" using round32_small_vals(3) by (simp add: lit32_def)
  have "a powr 5 \<le> 1" using a by (intro powr_le1) simp_all
  then have "fin_in 0 1 (round32 (a powr 5))"
    by (intro round32_in) (use is_f32_small in simp_all)
  then have pw: "fin_in 0 1 (fpow (Fin a) (Fin 5))"
    using a(2) by simp
  have "vfin_in 0 1 (fvsub (fsplat (Fin 1)) F0)"
    by (rule fvsub_in [OF _ assms(1), of 1 1]) (use is_f32_small in simp_all)
  then have "vfin_in 0 1 (fvscale (fvsub (fsplat (Fin 1)) F0) (fpow (Fin a) (Fin 5)))"
    by (rule fvscale_in [OF _ pw]) (use is_f32_small in simp_all)
  then have "vfin_in 0 2 (fvadd F0 (fvscale (fvsub (fsplat (Fin 1)) F0) (fpow (Fin a) (Fin 5))))"
    by (rule fvadd_in [OF assms(1)]) (use is_f32_small in simp_all)
  then show ?thesis
    using a(1) by (simp add: calculateFresnelSchlick_f32_def Let_def t(1) five del: fpow.simps)
qed

lemma round32_k_vals:
  "round32 (3 / 2) = Fin (3 / 2)" "round32 (9 / 4) = Fin (9 / 4)" "round32 (9 / 32) = Fin (9 / 32)"
  "round32 (23 / 32) = Fin (23 / 32)" "round32 8 = Fin 8" "round32 2000 = Fin 2000"
  using round32_repr [OF is_f32_dyadic [of 3 1]] round32_repr [OF is_f32_dyadic [of 9 2]]
    round32_repr [OF is_f32_dyadic [of 9 5]] round32_repr [OF is_f32_dyadic [of 23 5]]
    round32_repr [OF is_f32_int [of 8]] round32_repr [OF is_f32_int [of 2000]]
  by simp_all

lemma lit32_eps: "fin_in (1 / 2 ^ 17) (1 / 2 ^ 16) (lit32 0.00001)"
  unfolding lit32_def
  by (rule round32_in) (use is_f32_dyadic [of 1 17] is_f32_dyadic [of 1 16] in simp_all)

lemma schlick_k_f32:
  "fdiv32 (fmul (fadd (Fin (1 / 2)) (lit32 1.0)) (fadd (Fin (1 / 2)) (lit32 1.0))) (lit32 8.0) =
     Fin (9 / 32)"
  using round32_k_vals by (simp add: lit32_def)

lemma geometry_schlick_f32_zero:
  assumes "fdot n dir = Fin t" and "t \<le> 0"
  shows "calculateGeometrySchlick_f32 n dir (Fin (9 / 32)) = Fin 0"
  using round32_k_vals assms(2)
  by (simp add: calculateGeometrySchlick_f32_def Let_def assms(1) fsub_Fin max_def)

lemma specular_divisor_f32:
  assumes "t \<le> 0" and "u \<le> 0"
  shows "\<exists>v. 0 < v \<and>
    fmul (fmul (lit32 4.0) (fmax (Fin t) (lit32 0.00001))) (fmax (Fin u) (lit32 0.00001)) = Fin v"
proof -
  obtain e where e: "lit32 0.00001 = Fin e" "1 / 2 ^ 17 \<le> e" "e \<le> 1 / 2 ^ 16"
    using fin_inE [OF lit32_eps] by blast
  have ep: "0 < e" using e(2) by (smt (verit) divide_pos_pos zero_less_power)
  have m: "fmax (Fin t) (Fin e) = Fin e" "fmax (Fin u) (Fin e) = Fin e"
    using assms ep by (simp_all add: max_def)
  have e1: "fin_in (1 / 2 ^ 17) (1 / 2 ^ 16) (Fin e)" using e by simp
  have "fin_in (1 / 2 ^ 15) (1 / 2 ^ 14) (fmul (Fin 4) (Fin e))"
    by (rule fmul_in [OF fin_in_Fin_self e1])
      (use is_f32_dyadic [of 1 15] is_f32_dyadic [of 1 14] in simp_all)
  then have "fin_in (1 / 2 ^ 32) (1 / 2 ^ 30) (fmul (fmul (Fin 4) (Fin e)) (Fin e))"
    by (rule fmul_in [OF _ e1])
      (use is_f32_dyadic [of 1 32] is_f32_dyadic [of 1 30] in simp_all)
  then obtain v where v: "fmul (fmul (Fin 4) (Fin e)) (Fin e) = Fin v" "1 / 2 ^ 32 \<le> v"
    using fin_inE by blast
  have "0 < v" using v(2) by (smt (verit) divide_pos_pos zero_less_power)
  then show ?thesis using v(1) e(1) m by (simp del: fmul.simps fmax.simps)
qed

lemma f32_zero_ops:
  "fadd (Fin 0) (Fin 0) = Fin 0" "fmul (Fin a) (Fin 0) = Fin 0" "fmul (Fin 0) (Fin a) = Fin 0"
  by simp_all

lemma fdot_view_normal:
  "fdot (FVec3 (Fin 1) (Fin 0) (Fin 0)) (FVec3 (Fin 0) (Fin 0) (Fin 1)) = Fin 0"
  "fdot (FVec3 (Fin 0) (Fin 0) (Fin 1)) (FVec3 (Fin 1) (Fin 0) (Fin 0)) = Fin 0"
  "fdot (FVec3 (Fin 0) (Fin 0) (Fin (- 1))) (FVec3 (Fin 0) (Fin 0) (Fin 1)) = Fin (- 1)"
  by (simp_all add: fdot_def)

lemma specular_f32_zero:
  "calculateSpecularBRDF_f32 albedo (FVec3 (Fin 0) (Fin 0) (Fin 1)) (FVec3 (Fin 1) (Fin 0) (Fin 0))
     (FVec3 (Fin 0) (Fin 0) (Fin (- 1))) (Fin (1 / 2)) metallic F0 = fsplat (Fin 0)"
proof -
  obtain hx where hx: "1 / 2 \<le> hx" "hx \<le> 1"
    "fnormalize (fvadd (FVec3 (Fin 0) (Fin 0) (Fin (- 1))) (FVec3 (Fin 1) (Fin 0) (Fin 0))) =
       FVec3 (Fin hx) (Fin 0) (Fin (- hx))"
    using half_vector_f32 by blast
  have "fin_in (- 1) (- (1 / 2)) (round32 (- hx))"
    by (rule round32_in) (use is_f32_small hx in simp_all)
  then have "fin_in (- 1) (- (1 / 2)) (fadd (Fin 0) (round32 (- hx)))"
    by (rule fadd_zero_left_in) (use is_f32_small in simp_all)
  then obtain t where t: "fadd (Fin 0) (round32 (- hx)) = Fin t" "t \<le> - (1 / 2)"
    using fin_inE by blast
  have nh: "fdot (FVec3 (Fin 0) (Fin 0) (Fin 1)) (FVec3 (Fin hx) (Fin 0) (Fin (- hx))) = Fin t"
    using t(1) by (simp add: fdot_def f32_zero_ops del: fadd.simps)
  obtain q where q: "calculateDistributionGGX_f32 (FVec3 (Fin 0) (Fin 0) (Fin 1))
      (FVec3 (Fin hx) (Fin 0) (Fin (- hx))) (Fin (1 / 2)) = Fin q"
    using GGX_f32_divisor_pos [of "1 / 2" "FVec3 (Fin 0) (Fin 0) (Fin 1)"
        "FVec3 (Fin hx) (Fin 0) (Fin (- hx))" t] nh t(2)
    by auto
  have g: "calculateGeometrySmith_f32 (FVec3 (Fin 0) (Fin 0) (Fin 1)) (FVec3 (Fin 0) (Fin 0) (Fin (- 1)))
      (FVec3 (Fin 1) (Fin 0) (Fin 0)) (Fin (9 / 32)) = Fin 0"
    using geometry_schlick_f32_zero [OF fdot_behind] geometry_schlick_f32_zero [OF fdot_view_normal(2)]
    by (simp add: calculateGeometrySmith_f32_def)
  obtain v where v: "0 < v"
    "fmul (fmul (lit32 4.0) (fmax (Fin 0) (lit32 0.00001))) (fmax (Fin (- 1)) (lit32 0.00001)) = Fin v"
    using specular_divisor_f32 [of 0 "- 1"] by auto
  show ?thesis
    unfolding calculateSpecularBRDF_f32_def Let_def schlick_k_f32 hx(3) q g fdot_view_normal v(2)
    using v(1) by simp
qed

lemma far_light_radiance_f32:
  "vfin_in 5 10 (calculatePointLight_f32
     \<lparr>pos_f = FVec3 (Fin 0) (Fin 0) (Fin (- 5)), color_f = FVec3 (Fin 1) (Fin 1) (Fin 1),
       intensity_f = Fin 2000\<rparr> (FVec3 (Fin 0) (Fin 0) (Fin 0)))"
proof -
  have i: "is_f32 40" "is_f32 80" "is_f32 200" "is_f32 400" "is_f32 5" "is_f32 10"
    using is_f32_int [of 40] is_f32_int [of 80] is_f32_int [of 200] is_f32_int [of 400]
      is_f32_int [of 5] is_f32_int [of 10]
    by simp_all
  have d: "flength (fvsub (FVec3 (Fin 0) (Fin 0) (Fin (- 5))) (FVec3 (Fin 0) (Fin 0) (Fin 0))) = Fin 5"
    using round32_small_vals round32_neg_vals sqrt_25
    by (simp add: flength_def fdot_def fvsub_def fsub_Fin)
  have p: "fin_in 8 16 (fmul (lit32 4.0) (lit32 3.14159))" using four_pi_f32 by simp
  have m1: "fin_in 40 80 (fmul (fmul (lit32 4.0) (lit32 3.14159)) (Fin 5))"
    by (rule fmul_in [OF p fin_in_Fin_self]) (use i in simp_all)
  have m2: "fin_in 200 400 (fmul (fmul (fmul (lit32 4.0) (lit32 3.14159)) (Fin 5)) (Fin 5))"
    by (rule fmul_in [OF m1 fin_in_Fin_self]) (use i in simp_all)
  have q: "fin_in 5 10 (fdiv32 (Fin 2000)
      (fmul (fmul (fmul (lit32 4.0) (lit32 3.14159)) (Fin 5)) (Fin 5)))"
    by (rule fdiv32_in [OF fin_in_Fin_self m2]) (use i in simp_all)
  have "fin_in 5 10 (fmul (Fin 1) (fdiv32 (Fin 2000)
      (fmul (fmul (fmul (lit32 4.0) (lit32 3.14159)) (Fin 5)) (Fin 5))))"
    by (rule fmul_one_left_in [OF q]) (use i in simp_all)
  then show ?thesis
    unfolding calculatePointLight_f32_def Let_def
    by (simp add: d vfin_in_def fvscale_def del: fmul.simps fdiv32.simps)
qed

lemma far_light_BRDF_radiance_f32:
  "vfin_in (- 5) 5 (BRDF_radiance_f32
     \<lparr>pos_f = FVec3 (Fin 0) (Fin 0) (Fin (- 5)), color_f = FVec3 (Fin 1) (Fin 1) (Fin 1),
       intensity_f = Fin 2000\<rparr>
     (FVec3 (Fin 0) (Fin 0) (Fin 0)) (FVec3 (Fin 0) (Fin 0) (Fin 1)) (FVec3 (Fin 1) (Fin 0) (Fin 0))
     (Fin (1 / 2)) (Fin 0) (FVec3 (Fin 1) (Fin 1) (Fin 1)))"
proof -
  define F0 where "F0 = fvmix (fsplat (lit32 0.04)) (FVec3 (Fin 1) (Fin 1) (Fin 1)) (Fin 0)"
  define kS where "kS = calculateFresnelSchlick_f32 (FVec3 (Fin 0) (Fin 0) (Fin (- 1)))
      (FVec3 (Fin 1) (Fin 0) (Fin 0)) F0"
  define lam where "lam = calculateDiffuseBRDF_f32 (FVec3 (Fin 1) (Fin 1) (Fin 1))"
  define rad where "rad = calculatePointLight_f32
     \<lparr>pos_f = FVec3 (Fin 0) (Fin 0) (Fin (- 5)), color_f = FVec3 (Fin 1) (Fin 1) (Fin 1),
       intensity_f = Fin 2000\<rparr> (FVec3 (Fin 0) (Fin 0) (Fin 0))"
  have i: "is_f32 (1 / 32)" "is_f32 (1 / 16)" "is_f32 10" "is_f32 (- (1 / 2))"
    using is_f32_small is_f32_int [of 10] by simp_all
  have l4: "fin_in (1 / 32) (1 / 16) (lit32 0.04)"
    unfolding lit32_def by (rule round32_in) (use i in simp_all)
  have "fin_in (1 / 32) (1 / 16) (fmul (lit32 0.04) (Fin 1))"
    by (rule fmul_one_right_in [OF l4]) (use i in simp_all)
  then have "fin_in (1 / 32) (1 / 16) (fadd (fmul (lit32 0.04) (Fin 1)) (Fin 0))"
    by (rule fadd_zero_right_in) (use i in simp_all)
  then have F0: "vfin_in (1 / 32) (1 / 16) F0"
    by (simp add: F0_def fvmix_def fmix_def fsub_Fin fsplat_def vfin_in_def f32_zero_ops
        del: fmul.simps fadd.simps)
  obtain hx where hx: "1 / 2 \<le> hx" "hx \<le> 1"
    "fnormalize (fvadd (FVec3 (Fin 0) (Fin 0) (Fin (- 1))) (FVec3 (Fin 1) (Fin 0) (Fin 0))) =
       FVec3 (Fin hx) (Fin 0) (Fin (- hx))"
    using half_vector_f32 by blast
  have "fin_in (1 / 2) 1 (round32 hx)"
    by (rule round32_in) (use is_f32_small hx in simp_all)
  then have "fin_in (1 / 2) 1 (fadd (round32 hx) (Fin 0))"
    by (rule fadd_zero_right_in) (use is_f32_small in simp_all)
  then have "fin_in (1 / 2) 1 (fadd (fadd (round32 hx) (Fin 0)) (Fin 0))"
    by (rule fadd_zero_right_in) (use is_f32_small in simp_all)
  then have "fin_in (1 / 2) 1 (fdot (FVec3 (Fin 1) (Fin 0) (Fin 0))
      (fnormalize (fvadd (FVec3 (Fin 0) (Fin 0) (Fin (- 1))) (FVec3 (Fin 1) (Fin 0) (Fin 0)))))"
    unfolding hx(3) by (simp add: fdot_def f32_zero_ops del: fadd.simps)
  then have kS: "vfin_in 0 2 kS" unfolding kS_def by (rule fresnel_f32_in [OF F0])
  have spec: "fvmul kS (fsplat (Fin 0)) = fsplat (Fin 0)"
    using kS by (auto simp: vfin_in_def fvmul_def fsplat_def fmul_zero_right_in)
  have pi: "fin_in 2 4 (lit32 3.14159)" using lit32_pi by simp
  have lam: "vfin_in (1 / 4) (1 / 2) lam"
    unfolding lam_def calculateDiffuseBRDF_f32_def
    by (rule fvdivs_in [OF _ pi, of 1 1]) (use is_f32_small in \<open>simp_all add: vfin_in_def\<close>)
  have omk: "vfin_in (- 1) 1 (fvsub (fsplat (Fin 1)) kS)"
    by (rule fvsub_in [OF _ kS, of 1 1]) (use is_f32_small in simp_all)
  have prod: "vfin_in (- (1 / 2)) (1 / 2) (fvmul (fvsub (fsplat (Fin 1)) kS) lam)"
  proof -
    have "vfin_in (- (1 / 2)) (1 / 2) lam" by (rule vfin_in_mono [OF lam]) simp_all
    then show ?thesis by (rule fvmul_in_abs [OF omk]) (use is_f32_small in simp_all)
  qed
  have diff: "vfin_in (- (1 / 2)) (1 / 2) (fvscale (fvmul (fvsub (fsplat (Fin 1)) kS) lam) (Fin 1))"
    by (rule fvscale_in_abs [OF prod, of 1]) (use is_f32_small in simp_all)
  have sum: "vfin_in (- (1 / 2)) (1 / 2)
      (fvadd (fvscale (fvmul (fvsub (fsplat (Fin 1)) kS) lam) (Fin 1)) (fsplat (Fin 0)))"
    by (rule fvadd_in [OF diff, of 0 0]) (use is_f32_small in simp_all)
  have rad: "vfin_in (- 10) 10 rad"
    unfolding rad_def by (rule vfin_in_mono [OF far_light_radiance_f32]) simp_all
  have "vfin_in (- 5) 5
      (fvmul (fvadd (fvscale (fvmul (fvsub (fsplat (Fin 1)) kS) lam) (Fin 1)) (fsplat (Fin 0))) rad)"
    by (rule fvmul_in_abs [OF sum rad]) (use is_f32_small in simp_all)
  then have "vfin_in (- 5) 5
      (fvmul (fvadd (fvscale (fvmul (fvsub (fsplat (Fin 1)) kS) lam) (Fin 1))
                (fvmul kS (fsplat (Fin 0)))) rad)"
    by (simp only: spec)
  then show ?thesis
    unfolding BRDF_radiance_f32_def Let_def kS_def F0_def lam_def rad_def
    by (simp add: far_light_direction specular_f32_zero fsub_Fin)
qed

section \<open>The properties\<close>

text \<open>
  C1: with an active count between 0 and \<^verbatim>\<open>MAX_LIGHTS\<close>, \<^verbatim>\<open>main\<close> computes the
  output by the ordered steps of \<open>shade\<close>: the albedo is decoded by \<^verbatim>\<open>sRGBToLinear\<close>,
  the contributions \<^verbatim>\<open>calculateBRDF\<close> of the lights below the active count are summed on
  the decoded albedo, the sum is tone-mapped, and the tone-mapped colour is encoded
  once by \<^verbatim>\<open>LinearTosRGB\<close>; the alpha channel of every output is 1.
\<close>

theorem main_pipeline:
  assumes "0 \<le> uLightCount u" and "uLightCount u \<le> MAX_LIGHTS"
  shows "main u f = shade u f \<and> (\<forall>out. main u f = Some out \<longrightarrow> alpha out = 1)"
proof -
  have m: "min (uLightCount u) MAX_LIGHTS = uLightCount u" using assms by simp
  have eq: "main u f = shade u f"
    unfolding main_def shade_def Let_def main_irradiance_accumulate m
      light_contribution_shade [symmetric]
    by (simp add: LinearTosRGB_def split: option.splits)
  moreover have "\<forall>out. shade u f = Some out \<longrightarrow> alpha out = 1"
    by (auto simp: shade_def Let_def split: option.splits)
  ultimately show ?thesis by simp
qed

theorem main_pipeline_witness:
  "0 \<le> uLightCount (scenario_uniforms 1) \<and> uLightCount (scenario_uniforms 1) \<le> MAX_LIGHTS \<and>
   main (scenario_uniforms 1) scenario_fragment = shade (scenario_uniforms 1) scenario_fragment \<and>
   main (scenario_uniforms 1) scenario_fragment =
     Some (Vec4 (vsplat ((20 / (3.14159 * 3.14159) / (20 / (3.14159 * 3.14159) + 1)) powr 0.41666
                           * 1.055 - 0.055)) 1)"
proof -
  have c: "0 \<le> uLightCount (scenario_uniforms 1)" "uLightCount (scenario_uniforms 1) \<le> MAX_LIGHTS"
    by (simp_all add: scenario_uniforms_def MAX_LIGHTS_def)
  have "shade (scenario_uniforms 1) scenario_fragment =
     Some (Vec4 (vsplat ((20 / (3.14159 * 3.14159) / (20 / (3.14159 * 3.14159) + 1)) powr 0.41666
                           * 1.055 - 0.055)) 1)"
    by (simp add: scenario_uniforms_def scenario_fragment_def shade_def light_at_def decode_white
        normalize_axis scene_brdf tonemap_def vdiv_def vadd_def vsplat_def vec3_opt_def fdiv_def
        LinearTosRGB_channel_def glsl_pow_def mix_def lessThanEqual_def)
  with main_pipeline [OF c, of scenario_fragment] c show ?thesis by simp
qed

text \<open>
  C2, as the code has it. \<^verbatim>\<open>calculateSpecularBRDF\<close> assigns the Fresnel term to the
  local \<^verbatim>\<open>F\<close> and never reads it: its result is \<open>D * G / (4 * max(..) * max(..))\<close> for
  every \<^verbatim>\<open>F0\<close>. \<^verbatim>\<open>calculateBRDF\<close> multiplies that result by \<^verbatim>\<open>kS\<close> once, so the
  specular term carries the Fresnel weight exactly once.
\<close>

theorem fresnel_weight_once:
  assumes "normalize_vec (vsub (pos light) p) = Some w_i"
    and "normalize_vec (vadd w_i w_o) = Some h"
    and "calculateFresnelSchlick w_i w_o (vmix (vsplat 0.04) albedo m) = Some kS"
    and "calculateDistributionGGX n h r = Some D"
    and "calculateGeometrySmith n w_i w_o ((r + 1) * (r + 1) / 8) = Some G"
    and "calculatePointLight light p = Some radiance"
  shows "(\<forall>F0. calculateSpecularBRDF albedo n w_o w_i r m F0 =
            Some (vsplat (D * G / (4 * max (dot w_o n) 0.00001 * max (dot w_i n) 0.00001)))) \<and>
         calculateBRDF light p n w_o r m albedo =
           Some (vscale
                   (vmul (vadd (vscale (vmul (vsub (vsplat 1) kS)
                                          (Vec3 (vx albedo / 3.14159) (vy albedo / 3.14159)
                                                (vz albedo / 3.14159)))
                                  (1 - m))
                               (vmul kS
                                  (vsplat (D * G /
                                     (4 * max (dot w_o n) 0.00001 * max (dot w_i n) 0.00001)))))
                         radiance)
                   (max (dot n w_i) 0))"
  using calculateSpecularBRDF_eq [OF assms(2,4,5)]
    calculateBRDF_eq [OF assms(1,3) calculateSpecularBRDF_eq [OF assms(2,4,5)] assms(6)]
  by simp

theorem fresnel_weight_once_witness:
  "normalize_vec (vsub (pos \<lparr>pos = Vec3 3 0 4, color = Vec3 1 1 1, intensity = 2000\<rparr>) (Vec3 0 0 0)) =
     Some (Vec3 (3 / 5) 0 (4 / 5)) \<and>
   normalize_vec (vadd (Vec3 (3 / 5) 0 (4 / 5)) (Vec3 (- (3 / 5)) 0 (4 / 5))) = Some (Vec3 0 0 1) \<and>
   calculateFresnelSchlick (Vec3 (3 / 5) 0 (4 / 5)) (Vec3 (- (3 / 5)) 0 (4 / 5))
       (vmix (vsplat 0.04) (Vec3 1 1 1) 0) = Some (vsplat (1 / 25 + 24 / 25 / 3125)) \<and>
   calculateDistributionGGX (Vec3 0 0 1) (Vec3 0 0 1) (1 / 2) = Some (400000 / 314159) \<and>
   calculateGeometrySmith (Vec3 0 0 1) (Vec3 (3 / 5) 0 (4 / 5)) (Vec3 (- (3 / 5)) 0 (4 / 5))
     ((1 / 2 + 1) * (1 / 2 + 1) / 8) = Some (128 / 137 * (128 / 137)) \<and>
   calculatePointLight \<lparr>pos = Vec3 3 0 4, color = Vec3 1 1 1, intensity = 2000\<rparr> (Vec3 0 0 0) =
     Some (vsplat (2000 / (4 * 3.14159 * 25))) \<and>
   calculateSpecularBRDF (Vec3 1 1 1) (Vec3 0 0 1) (Vec3 (- (3 / 5)) 0 (4 / 5)) (Vec3 (3 / 5) 0 (4 / 5))
       (1 / 2) 0 (Vec3 1 1 1) =
     Some (vsplat (400000 / 314159 * (128 / 137 * (128 / 137)) / (4 * (4 / 5) * (4 / 5)))) \<and>
   calculateBRDF \<lparr>pos = Vec3 3 0 4, color = Vec3 1 1 1, intensity = 2000\<rparr> (Vec3 0 0 0)
       (Vec3 0 0 1) (Vec3 (- (3 / 5)) 0 (4 / 5)) (1 / 2) 0 (Vec3 1 1 1) =
     Some (vsplat (((1 - (1 / 25 + 24 / 25 / 3125)) * (1 / 3.14159) +
                     (1 / 25 + 24 / 25 / 3125) *
                       (400000 / 314159 * (128 / 137 * (128 / 137)) / (4 * (4 / 5) * (4 / 5)))) *
                   (2000 / (4 * 3.14159 * 25)) * (4 / 5)))"
proof -
  have a1: "normalize_vec (vsub (pos \<lparr>pos = Vec3 3 0 4, color = Vec3 1 1 1, intensity = 2000\<rparr>)
              (Vec3 0 0 0)) = Some (Vec3 (3 / 5) 0 (4 / 5))"
    by (simp add: vsub_def normalize_345)
  have a3: "calculateFresnelSchlick (Vec3 (3 / 5) 0 (4 / 5)) (Vec3 (- (3 / 5)) 0 (4 / 5))
       (vmix (vsplat 0.04) (Vec3 1 1 1) 0) = Some (vsplat (1 / 25 + 24 / 25 / 3125))"
    by (simp add: fresnel_345 vmix_def mix_def vsplat_def vadd_def vscale_def vsub_def)
  note w = fresnel_weight_once [OF a1 half_vector_345 a3 GGX_345 smith_345 point_light_345]
  have "calculateSpecularBRDF (Vec3 1 1 1) (Vec3 0 0 1) (Vec3 (- (3 / 5)) 0 (4 / 5))
       (Vec3 (3 / 5) 0 (4 / 5)) (1 / 2) 0 (Vec3 1 1 1) =
     Some (vsplat (400000 / 314159 * (128 / 137 * (128 / 137)) / (4 * (4 / 5) * (4 / 5))))"
    using w by (simp add: dot_def)
  moreover have "calculateBRDF \<lparr>pos = Vec3 3 0 4, color = Vec3 1 1 1, intensity = 2000\<rparr> (Vec3 0 0 0)
       (Vec3 0 0 1) (Vec3 (- (3 / 5)) 0 (4 / 5)) (1 / 2) 0 (Vec3 1 1 1) =
     Some (vsplat (((1 - (1 / 25 + 24 / 25 / 3125)) * (1 / 3.14159) +
                     (1 / 25 + 24 / 25 / 3125) *
                       (400000 / 314159 * (128 / 137 * (128 / 137)) / (4 * (4 / 5) * (4 / 5)))) *
                   (2000 / (4 * 3.14159 * 25)) * (4 / 5)))"
    using w by (simp add: dot_def vsplat_def vadd_def vscale_def vmul_def vsub_def)
  ultimately show ?thesis
    using a1 half_vector_345 a3 GGX_345 smith_345 point_light_345 by blast
qed

text \<open>
  C2, as stated, fails: in the scenario of the specification the Fresnel weight is
  \<open>0.04\<close>, the result of \<^verbatim>\<open>calculateSpecularBRDF\<close> is \<open>1 / 3.14159\<close>, which carries no
  Fresnel factor, and \<^verbatim>\<open>calculateBRDF\<close> returns the value with the specular term
  \<open>0.04 * (1 / 3.14159)\<close>, not the one with \<open>0.04 * (0.04 * (1 / 3.14159))\<close>.
\<close>

theorem fresnel_weight_single:
  "calculateFresnelSchlick (Vec3 0 0 1) (Vec3 0 0 1) (vmix (vsplat 0.04) (Vec3 1 1 1) 0) =
     Some (vsplat 0.04) \<and>
   calculateSpecularBRDF (Vec3 1 1 1) (Vec3 0 0 1) (Vec3 0 0 1) (Vec3 0 0 1) (1 / 2) 0
       (vmix (vsplat 0.04) (Vec3 1 1 1) 0) = Some (vsplat (1 / 3.14159)) \<and>
   calculateBRDF \<lparr>pos = Vec3 0 0 5, color = Vec3 1 1 1, intensity = 2000\<rparr> (Vec3 0 0 0)
       (Vec3 0 0 1) (Vec3 0 0 1) (1 / 2) 0 (Vec3 1 1 1) =
     Some (vsplat (((1 - 0.04) * (1 / 3.14159) + 0.04 * (1 / 3.14159)) *
                   (2000 / (4 * 3.14159 * 25)) * 1)) \<and>
   calculateBRDF \<lparr>pos = Vec3 0 0 5, color = Vec3 1 1 1, intensity = 2000\<rparr> (Vec3 0 0 0)
       (Vec3 0 0 1) (Vec3 0 0 1) (1 / 2) 0 (Vec3 1 1 1) \<noteq>
     Some (vsplat (((1 - 0.04) * (1 / 3.14159) + 0.04 * (0.04 * (1 / 3.14159))) *
                   (2000 / (4 * 3.14159 * 25)) * 1))"
  by (simp add: calculateBRDF_def calculateFresnelSchlick_def calculateSpecularBRDF_def
      calculateDistributionGGX_def calculateGeometrySmith_def calculateGeometrySchlick_def
      calculateDiffuseBRDF_def calculatePointLight_def
      vsub_def vadd_def vmul_def vscale_def vsplat_def vmix_def mix_def vdivs_def vec3_opt_def fdiv_def
      normalize_axis vlength_axis dot_def glsl_pow_def Let_def)

text \<open>
  C3, as the code has it, on float32. \<^verbatim>\<open>calculatePointLight\<close> divides the intensity by
  \<open>4 * 3.14159 * d * d\<close> with no guard and no special case. When the surface point is
  the light position, the distance and the divisor are zero and the result is the
  colour times \<open>intensity / 0\<close>: the colour times \<open>+\<infinity>\<close> for a positive intensity, never a
  zero contribution. The result does not stay finite as the light approaches the
  point either: for a light within \<open>2^-62\<close> of the point on every axis and an
  intensity of at least \<open>1024\<close>, the divisor is zero or the quotient overflows, and the
  result is again the colour times \<open>+\<infinity>\<close>.
\<close>

theorem calculatePointLight_f32_singularity:
  "calculatePointLight_f32
     \<lparr>pos_f = FVec3 (Fin x) (Fin y) (Fin z), color_f = c, intensity_f = Fin i\<rparr>
     (FVec3 (Fin x) (Fin y) (Fin z)) = fvscale c (finf i) \<and>
   (\<bar>lx - px\<bar> \<le> 1 / 2 ^ 62 \<and> \<bar>ly - py\<bar> \<le> 1 / 2 ^ 62 \<and> \<bar>lz - pz\<bar> \<le> 1 / 2 ^ 62 \<and> 1024 \<le> j \<longrightarrow>
      calculatePointLight_f32
        \<lparr>pos_f = FVec3 (Fin lx) (Fin ly) (Fin lz), color_f = c, intensity_f = Fin j\<rparr>
        (FVec3 (Fin px) (Fin py) (Fin pz)) = fvscale c PInf)"
  using calculatePointLight_f32_coincident [of x y z c i]
    calculatePointLight_f32_overflow [of lx px ly py lz pz j c]
  by blast

theorem calculatePointLight_f32_singularity_witness:
  "\<bar>0 - 0 :: real\<bar> \<le> 1 / 2 ^ 62 \<and> \<bar>1 / 2 ^ 62 - 0 :: real\<bar> \<le> 1 / 2 ^ 62 \<and> (1024 :: real) \<le> 2000 \<and>
   calculatePointLight_f32
     \<lparr>pos_f = FVec3 (Fin 0) (Fin 0) (Fin (1 / 2 ^ 62)), color_f = FVec3 (Fin 1) (Fin 1) (Fin 1),
       intensity_f = Fin 2000\<rparr>
     (FVec3 (Fin 0) (Fin 0) (Fin 0)) = FVec3 PInf PInf PInf"
  using calculatePointLight_f32_singularity [of 0 0 0 "FVec3 (Fin 1) (Fin 1) (Fin 1)" 0
      0 0 0 0 "1 / 2 ^ 62" 0 2000]
  by (simp add: fvscale_def finf_def)

text \<open>
  C3, as stated, fails: with the light at the surface point \<open>(1, 2, 3)\<close>, intensity
  \<open>2000\<close> and colour \<open>(1, 1, 1)\<close>, the distance is zero, the code divides by zero and
  returns \<open>+\<infinity>\<close> on every channel, not a zero contribution.
\<close>

theorem calculatePointLight_f32_coincident_infinite:
  "flength (fvsub (pos_f \<lparr>pos_f = FVec3 (Fin 1) (Fin 2) (Fin 3), color_f = FVec3 (Fin 1) (Fin 1) (Fin 1),
       intensity_f = Fin 2000\<rparr>) (FVec3 (Fin 1) (Fin 2) (Fin 3))) = Fin 0 \<and>
   calculatePointLight_f32
     \<lparr>pos_f = FVec3 (Fin 1) (Fin 2) (Fin 3), color_f = FVec3 (Fin 1) (Fin 1) (Fin 1),
       intensity_f = Fin 2000\<rparr>
     (FVec3 (Fin 1) (Fin 2) (Fin 3)) = FVec3 PInf PInf PInf"
  using calculatePointLight_f32_coincident [of 1 2 3 "FVec3 (Fin 1) (Fin 1) (Fin 1)" 2000]
  by (simp add: fvscale_def finf_def flength_def fvsub_def fdot_def)

text \<open>
  C4, as the code has it, on float32. When the computed cosine \<open>dot(normal, w_i)\<close> is
  at most zero, the factor \<open>max(dot(normal, w_i), 0.0)\<close> is zero, and each channel of
  the contribution is the product of that channel of
  \<open>(diffuseBRDF + specularBRDF) * calculatePointLight(light, position)\<close> with zero:
  exactly zero when the channel is finite, NaN when it is an infinity or NaN.
\<close>

theorem backface_f32:
  assumes "fle (fdot normal (fnormalize (fvsub (pos_f light) position))) (Fin 0)"
  shows "calculateBRDF_f32 light position normal w_o roughness metallic albedo =
     FVec3 (backface_channel (fx (BRDF_radiance_f32 light position normal w_o roughness metallic albedo)))
           (backface_channel (fy (BRDF_radiance_f32 light position normal w_o roughness metallic albedo)))
           (backface_channel (fz (BRDF_radiance_f32 light position normal w_o roughness metallic albedo)))"
  using assms by (rule calculateBRDF_f32_backface)

theorem backface_f32_witness:
  "fle (fdot (FVec3 (Fin 0) (Fin 0) (Fin 1))
         (fnormalize (fvsub (pos_f \<lparr>pos_f = FVec3 (Fin 0) (Fin 0) (Fin (- 5)),
              color_f = FVec3 (Fin 1) (Fin 1) (Fin 1), intensity_f = Fin 2000\<rparr>)
            (FVec3 (Fin 0) (Fin 0) (Fin 0))))) (Fin 0) \<and>
   calculateBRDF_f32
     \<lparr>pos_f = FVec3 (Fin 0) (Fin 0) (Fin (- 5)), color_f = FVec3 (Fin 1) (Fin 1) (Fin 1),
       intensity_f = Fin 2000\<rparr>
     (FVec3 (Fin 0) (Fin 0) (Fin 0)) (FVec3 (Fin 0) (Fin 0) (Fin 1)) (FVec3 (Fin 1) (Fin 0) (Fin 0))
     (Fin (1 / 2)) (Fin 0) (FVec3 (Fin 1) (Fin 1) (Fin 1)) = FVec3 (Fin 0) (Fin 0) (Fin 0)"
proof -
  have c: "fle (fdot (FVec3 (Fin 0) (Fin 0) (Fin 1))
         (fnormalize (fvsub (pos_f \<lparr>pos_f = FVec3 (Fin 0) (Fin 0) (Fin (- 5)),
              color_f = FVec3 (Fin 1) (Fin 1) (Fin 1), intensity_f = Fin 2000\<rparr>)
            (FVec3 (Fin 0) (Fin 0) (Fin 0))))) (Fin 0)"
    by (simp add: far_light_direction fdot_behind)
  show ?thesis
    using backface_f32 [OF c, of "FVec3 (Fin 1) (Fin 0) (Fin 0)" "Fin (1 / 2)" "Fin 0"
        "FVec3 (Fin 1) (Fin 1) (Fin 1)"]
      vfin_in_finite32 [OF far_light_BRDF_radiance_f32] c
    by (simp add: backface_channel_def)
qed

text \<open>
  C4, as stated, fails: a light \<open>2^-62\<close> straight behind the surface, with intensity
  \<open>2000\<close>. The cosine is \<open>-1\<close>, the radiance overflows to \<open>+\<infinity>\<close> on every channel, and the
  contribution is NaN on every channel, not zero.
\<close>

theorem backface_infinite_radiance_f32:
  "fle (fdot (FVec3 (Fin 0) (Fin 0) (Fin 1))
         (fnormalize (fvsub (pos_f \<lparr>pos_f = FVec3 (Fin 0) (Fin 0) (Fin (- (1 / 2 ^ 62))),
              color_f = FVec3 (Fin 1) (Fin 1) (Fin 1), intensity_f = Fin 2000\<rparr>)
            (FVec3 (Fin 0) (Fin 0) (Fin 0))))) (Fin 0) \<and>
   calculatePointLight_f32
     \<lparr>pos_f = FVec3 (Fin 0) (Fin 0) (Fin (- (1 / 2 ^ 62))),
       color_f = FVec3 (Fin 1) (Fin 1) (Fin 1), intensity_f = Fin 2000\<rparr>
     (FVec3 (Fin 0) (Fin 0) (Fin 0)) = FVec3 PInf PInf PInf \<and>
   calculateBRDF_f32
     \<lparr>pos_f = FVec3 (Fin 0) (Fin 0) (Fin (- (1 / 2 ^ 62))),
       color_f = FVec3 (Fin 1) (Fin 1) (Fin 1), intensity_f = Fin 2000\<rparr>
     (FVec3 (Fin 0) (Fin 0) (Fin 0)) (FVec3 (Fin 0) (Fin 0) (Fin 1)) (FVec3 (Fin 1) (Fin 0) (Fin 0))
     (Fin (1 / 2)) (Fin 0) (FVec3 (Fin 1) (Fin 1) (Fin 1)) = FVec3 NaN NaN NaN"
proof -
  define L where "L = \<lparr>pos_f = FVec3 (Fin 0) (Fin 0) (Fin (- (1 / 2 ^ 62))),
       color_f = FVec3 (Fin 1) (Fin 1) (Fin 1), intensity_f = Fin 2000\<rparr>"
  define P where "P = FVec3 (Fin 0) (Fin 0) (Fin 0)"
  have c: "fle (fdot (FVec3 (Fin 0) (Fin 0) (Fin 1)) (fnormalize (fvsub (pos_f L) P))) (Fin 0)"
    using near_light_direction by (simp add: L_def P_def fdot_behind)
  have r: "calculatePointLight_f32 L P = FVec3 PInf PInf PInf"
    unfolding L_def P_def
    using calculatePointLight_f32_overflow [of 0 0 0 0 "- (1 / 2 ^ 62)" 0 2000
        "FVec3 (Fin 1) (Fin 1) (Fin 1)"]
    by (simp add: fvscale_def finf_def)
  obtain X where X: "BRDF_radiance_f32 L P (FVec3 (Fin 0) (Fin 0) (Fin 1)) (FVec3 (Fin 1) (Fin 0) (Fin 0))
      (Fin (1 / 2)) (Fin 0) (FVec3 (Fin 1) (Fin 1) (Fin 1)) = fvmul X (FVec3 PInf PInf PInf)"
    using BRDF_radiance_f32_factor [of L P] r by metis
  have "calculateBRDF_f32 L P (FVec3 (Fin 0) (Fin 0) (Fin 1)) (FVec3 (Fin 1) (Fin 0) (Fin 0))
      (Fin (1 / 2)) (Fin 0) (FVec3 (Fin 1) (Fin 1) (Fin 1)) = FVec3 NaN NaN NaN"
    unfolding calculateBRDF_f32_backface [OF c] X
    by (simp add: fvmul_def backface_channel_infinite)
  then show ?thesis using c r unfolding L_def P_def by simp
qed



text \<open>
  C6, as the code has it. For a roughness above zero, unit vectors \<open>n\<close>, \<open>w_i\<close>, \<open>w_o\<close>
  and the half vector \<open>h\<close>: the distribution is \<open>D = a2 / (3.14159 * (nh\<^sup>2 * (a2 - 1) + 1)\<^sup>2)\<close>
  with \<open>a2\<close> the squared roughness and \<open>nh\<close> the dot product clamped at zero, the
  constant being the literal \<open>3.14159\<close> of the source; the geometry term is
  \<open>G1 w_i * G1 w_o\<close> with \<open>k = (r + 1)\<^sup>2 / 8\<close> and clamped dot products; the specular
  term is \<open>D * G\<close> over \<open>4 * max (n \<cdot> w_o) 0.00001 * max (n \<cdot> w_i) 0.00001\<close>.
\<close>

theorem cook_torrance_terms:
  assumes "0 < r" and "vlength n = 1" and "vlength w_i = 1" and "vlength w_o = 1"
    and "normalize_vec (vadd w_i w_o) = Some h"
  shows "let a2 = r * r;
             nh = max (dot n h) 0;
             D = a2 / (3.14159 * (nh\<^sup>2 * (a2 - 1) + 1)\<^sup>2);
             k = (r + 1)\<^sup>2 / 8;
             G1 = (\<lambda>v. max (dot n v) 0 / (max (dot n v) 0 * (1 - k) + k));
             G = G1 w_i * G1 w_o
         in calculateDistributionGGX n h r = Some D \<and>
            calculateGeometrySchlick n w_i k = Some (G1 w_i) \<and>
            calculateGeometrySchlick n w_o k = Some (G1 w_o) \<and>
            calculateGeometrySmith n w_i w_o k = Some G \<and>
            calculateSpecularBRDF albedo n w_o w_i r m F0 =
              Some (vsplat (D * G / (4 * max (dot n w_o) 0.00001 * max (dot n w_i) 0.00001)))"
proof -
  have hu: "vlength h = 1" using assms(5) by (rule normalize_unit)
  have sq: "(r + 1) * (r + 1) = (r + 1)\<^sup>2" by (simp add: power2_eq_square)
  have k: "0 < (r + 1)\<^sup>2 / 8" using schlick_k_pos [OF assms(1)] unfolding sq .
  have "0 < max (dot n h) 0 * max (dot n h) 0 * (r * r - 1) + 1"
    using GGX_inner_pos [OF clamped_dot_range [OF assms(2) hu]] assms(1) by simp
  then have D: "calculateDistributionGGX n h r =
             Some (r * r / (3.14159 * ((max (dot n h) 0)\<^sup>2 * (r * r - 1) + 1)\<^sup>2))"
    by (simp add: calculateDistributionGGX_def fdiv_def Let_def power2_eq_square)
  note G = smith_Some [OF assms(2,3,4) k]
  have comm: "dot w_o n = dot n w_o" "dot w_i n = dot n w_i" by (simp_all add: dot_def mult.commute)
  have S: "calculateSpecularBRDF albedo n w_o w_i r m F0 =
      Some (vsplat (r * r / (3.14159 * ((max (dot n h) 0)\<^sup>2 * (r * r - 1) + 1)\<^sup>2) *
                    (max (dot n w_i) 0 / (max (dot n w_i) 0 * (1 - (r + 1)\<^sup>2 / 8) + (r + 1)\<^sup>2 / 8) *
                     (max (dot n w_o) 0 / (max (dot n w_o) 0 * (1 - (r + 1)\<^sup>2 / 8) + (r + 1)\<^sup>2 / 8))) /
                    (4 * max (dot n w_o) 0.00001 * max (dot n w_i) 0.00001)))"
    using calculateSpecularBRDF_eq [OF assms(5) D G [folded sq], of albedo m F0]
    unfolding sq comm .
  show ?thesis
    unfolding Let_def
    using D schlick_Some [OF assms(2,3) k] schlick_Some [OF assms(2,4) k] G S by blast
qed

theorem cook_torrance_terms_witness:
  "(0::real) < 1 / 2 \<and> vlength (Vec3 0 0 1) = 1 \<and> vlength (Vec3 (3 / 5) 0 (4 / 5)) = 1 \<and>
   vlength (Vec3 (- (3 / 5)) 0 (4 / 5)) = 1 \<and>
   normalize_vec (vadd (Vec3 (3 / 5) 0 (4 / 5)) (Vec3 (- (3 / 5)) 0 (4 / 5))) = Some (Vec3 0 0 1) \<and>
   calculateDistributionGGX (Vec3 0 0 1) (Vec3 0 0 1) (1 / 2) = Some (400000 / 314159) \<and>
   calculateGeometrySchlick (Vec3 0 0 1) (Vec3 (3 / 5) 0 (4 / 5)) (9 / 32) = Some (128 / 137) \<and>
   calculateGeometrySmith (Vec3 0 0 1) (Vec3 (3 / 5) 0 (4 / 5)) (Vec3 (- (3 / 5)) 0 (4 / 5)) (9 / 32) =
     Some (128 / 137 * (128 / 137)) \<and>
   calculateSpecularBRDF (Vec3 1 1 1) (Vec3 0 0 1) (Vec3 (- (3 / 5)) 0 (4 / 5)) (Vec3 (3 / 5) 0 (4 / 5))
       (1 / 2) 0 (Vec3 1 1 1) =
     Some (vsplat (400000 / 314159 * (128 / 137 * (128 / 137)) / (4 * (4 / 5) * (4 / 5))))"
proof -
  have r: "(0::real) < 1 / 2" by simp
  have u: "vlength (Vec3 0 0 1) = 1" "vlength (Vec3 (3 / 5) 0 (4 / 5)) = 1"
    "vlength (Vec3 (- (3 / 5)) 0 (4 / 5)) = 1"
    by (simp_all add: vlength_def dot_def)
  from cook_torrance_terms [OF r u half_vector_345, of "Vec3 1 1 1" 0 "Vec3 1 1 1"] r u half_vector_345
  show ?thesis by (simp add: Let_def dot_def power2_eq_square)
qed

text \<open>
  C6, as stated, fails: at roughness \<open>1 / 2\<close> with \<open>n = h\<close> the code returns
  \<open>400000 / 314159\<close>, which is not the value \<open>a2 / (\<pi> * (nh\<^sup>2 * (a2 - 1) + 1)\<^sup>2)\<close> of the
  formula with \<open>\<pi>\<close>.
\<close>

theorem GGX_constant_not_pi:
  "calculateDistributionGGX (Vec3 0 0 1) (Vec3 0 0 1) (1 / 2) = Some (400000 / 314159) \<and>
   400000 / 314159 \<noteq>
     (1 / 2 * (1 / 2)) /
       (pi * ((max (dot (Vec3 0 0 1) (Vec3 0 0 1)) 0)\<^sup>2 * (1 / 2 * (1 / 2) - 1) + 1)\<^sup>2)"
proof -
  have "(1 / 2 * (1 / 2)) /
       (pi * ((max (dot (Vec3 0 0 1) (Vec3 0 0 1)) 0)\<^sup>2 * (1 / 2 * (1 / 2) - 1) + 1)\<^sup>2) = 4 / pi"
    by (simp add: dot_def power2_eq_square)
  moreover have "400000 / 314159 \<noteq> 4 / pi"
    using pi_neq_314159 by (simp add: field_simps)
  ultimately show ?thesis using GGX_345 by simp
qed




text \<open>
  C8: the loop of \<^verbatim>\<open>main\<close> accumulates the contributions of the lights at the indices
  below the smaller of \<^verbatim>\<open>uLightCount\<close> and \<^verbatim>\<open>MAX_LIGHTS\<close>, so of ten lights at most.
  Two uniform blocks with the same material and the same count whose lights agree
  below that bound give the same irradiance, whatever the arrays hold beyond it. With
  a count of zero the irradiance before tone mapping is black. A count above
  \<^verbatim>\<open>MAX_LIGHTS\<close> gives the irradiance of the count \<^verbatim>\<open>MAX_LIGHTS\<close>.
\<close>

theorem active_lights_only:
  "main_irradiance u f =
     accumulate (map (\<lambda>j. light_contribution u f (int j))
                   [0 ..< nat (min (uLightCount u) MAX_LIGHTS)]) (vsplat 0) \<and>
   length [0 ..< nat (min (uLightCount u) MAX_LIGHTS)] \<le> 10 \<and>
   (same_material u v \<and> uLightCount u = uLightCount v \<and>
    (\<forall>j. 0 \<le> j \<and> j < min (uLightCount u) MAX_LIGHTS \<longrightarrow> light_at u j = light_at v j) \<longrightarrow>
      main_irradiance u f = main_irradiance v f) \<and>
   (uLightCount u = 0 \<longrightarrow> main_irradiance u f = Some (vsplat 0)) \<and>
   (MAX_LIGHTS < uLightCount u \<longrightarrow>
      main_irradiance u f = main_irradiance (u\<lparr>uLightCount := MAX_LIGHTS\<rparr>) f)"
proof (intro conjI impI)
  show "main_irradiance u f =
     accumulate (map (\<lambda>j. light_contribution u f (int j))
                   [0 ..< nat (min (uLightCount u) MAX_LIGHTS)]) (vsplat 0)"
    by (rule main_irradiance_accumulate)
  show "length [0 ..< nat (min (uLightCount u) MAX_LIGHTS)] \<le> 10"
    by (simp add: MAX_LIGHTS_def)
next
  assume a: "same_material u v \<and> uLightCount u = uLightCount v \<and>
    (\<forall>j. 0 \<le> j \<and> j < min (uLightCount u) MAX_LIGHTS \<longrightarrow> light_at u j = light_at v j)"
  have eq: "map (\<lambda>j. light_contribution u f (int j)) [0 ..< nat (min (uLightCount u) MAX_LIGHTS)] =
        map (\<lambda>j. light_contribution v f (int j)) [0 ..< nat (min (uLightCount u) MAX_LIGHTS)]"
  proof (rule map_cong [OF refl])
    fix j assume "j \<in> set [0 ..< nat (min (uLightCount u) MAX_LIGHTS)]"
    then have "0 \<le> int j \<and> int j < min (uLightCount u) MAX_LIGHTS" by auto
    with a have "light_at u (int j) = light_at v (int j)" by blast
    with a show "light_contribution u f (int j) = light_contribution v f (int j)"
      by (simp add: light_contribution_cong)
  qed
  have "uLightCount v = uLightCount u" using a by simp
  then show "main_irradiance u f = main_irradiance v f"
    unfolding main_irradiance_accumulate eq by simp
next
  assume "uLightCount u = 0"
  then show "main_irradiance u f = Some (vsplat 0)"
    by (simp add: main_irradiance_accumulate)
next
  assume a: "MAX_LIGHTS < uLightCount u"
  have "\<And>j. light_contribution (u\<lparr>uLightCount := MAX_LIGHTS\<rparr>) f j = light_contribution u f j"
    by (rule light_contribution_cong) (simp_all add: same_material_def light_at_def)
  with a show "main_irradiance u f = main_irradiance (u\<lparr>uLightCount := MAX_LIGHTS\<rparr>) f"
    by (simp add: main_irradiance_accumulate)
qed

theorem active_lights_only_witness:
  "same_material (scenario_uniforms 1)
     ((scenario_uniforms 1)\<lparr>uLightPositions := [0, 0, 5, 7, 7, 7] @ replicate 24 0,
        uLightIntensities := [2000, 99] @ replicate 8 0\<rparr>) \<and>
   uLightCount (scenario_uniforms 1) =
     uLightCount ((scenario_uniforms 1)\<lparr>uLightPositions := [0, 0, 5, 7, 7, 7] @ replicate 24 0,
        uLightIntensities := [2000, 99] @ replicate 8 0\<rparr>) \<and>
   min (uLightCount (scenario_uniforms 1)) MAX_LIGHTS = 1 \<and>
   light_at (scenario_uniforms 1) 0 =
     light_at ((scenario_uniforms 1)\<lparr>uLightPositions := [0, 0, 5, 7, 7, 7] @ replicate 24 0,
        uLightIntensities := [2000, 99] @ replicate 8 0\<rparr>) 0 \<and>
   light_at (scenario_uniforms 1) 1 \<noteq>
     light_at ((scenario_uniforms 1)\<lparr>uLightPositions := [0, 0, 5, 7, 7, 7] @ replicate 24 0,
        uLightIntensities := [2000, 99] @ replicate 8 0\<rparr>) 1 \<and>
   main_irradiance (scenario_uniforms 1) scenario_fragment =
     main_irradiance
       ((scenario_uniforms 1)\<lparr>uLightPositions := [0, 0, 5, 7, 7, 7] @ replicate 24 0,
          uLightIntensities := [2000, 99] @ replicate 8 0\<rparr>) scenario_fragment \<and>
   uLightCount (scenario_uniforms 0) = 0 \<and>
   main_irradiance (scenario_uniforms 0) scenario_fragment = Some (vsplat 0) \<and>
   MAX_LIGHTS < uLightCount (scenario_uniforms 12) \<and>
   main_irradiance (scenario_uniforms 12) scenario_fragment =
     main_irradiance (scenario_uniforms MAX_LIGHTS) scenario_fragment"
proof -
  let ?v = "(scenario_uniforms 1)\<lparr>uLightPositions := [0, 0, 5, 7, 7, 7] @ replicate 24 0,
        uLightIntensities := [2000, 99] @ replicate 8 0\<rparr>"
  have h1: "same_material (scenario_uniforms 1) ?v"
    by (simp add: same_material_def scenario_uniforms_def)
  have h2: "uLightCount (scenario_uniforms 1) = uLightCount ?v"
    by (simp add: scenario_uniforms_def)
  have h3: "\<forall>j. 0 \<le> j \<and> j < min (uLightCount (scenario_uniforms 1)) MAX_LIGHTS \<longrightarrow>
      light_at (scenario_uniforms 1) j = light_at ?v j"
  proof (intro allI impI)
    fix j :: int
    assume "0 \<le> j \<and> j < min (uLightCount (scenario_uniforms 1)) MAX_LIGHTS"
    then have "j = 0" by (simp add: scenario_uniforms_def)
    then show "light_at (scenario_uniforms 1) j = light_at ?v j"
      by (simp add: scenario_uniforms_def light_at_def)
  qed
  have c1: "main_irradiance (scenario_uniforms 1) scenario_fragment =
     main_irradiance ?v scenario_fragment"
    using active_lights_only [of "scenario_uniforms 1" scenario_fragment ?v] h1 h2 h3 by blast
  have h4: "uLightCount (scenario_uniforms 0) = 0" by (simp add: scenario_uniforms_def)
  have c2: "main_irradiance (scenario_uniforms 0) scenario_fragment = Some (vsplat 0)"
    using active_lights_only [of "scenario_uniforms 0" scenario_fragment] h4 by blast
  have h5: "MAX_LIGHTS < uLightCount (scenario_uniforms 12)"
    by (simp add: scenario_uniforms_def MAX_LIGHTS_def)
  have "main_irradiance (scenario_uniforms 12) scenario_fragment =
     main_irradiance ((scenario_uniforms 12)\<lparr>uLightCount := MAX_LIGHTS\<rparr>) scenario_fragment"
    using active_lights_only [of "scenario_uniforms 12" scenario_fragment] h5 by blast
  then have c3: "main_irradiance (scenario_uniforms 12) scenario_fragment =
     main_irradiance (scenario_uniforms MAX_LIGHTS) scenario_fragment"
    by (simp add: scenario_uniforms_def)
  have m: "min (uLightCount (scenario_uniforms 1)) MAX_LIGHTS = 1"
    by (simp add: scenario_uniforms_def MAX_LIGHTS_def)
  have l0: "light_at (scenario_uniforms 1) 0 = light_at ?v 0"
    by (simp add: scenario_uniforms_def light_at_def)
  have l1: "light_at (scenario_uniforms 1) 1 \<noteq> light_at ?v 1"
    by (simp add: scenario_uniforms_def light_at_def)
  from h1 h2 m l0 l1 c1 h4 c2 h5 c3 show ?thesis by blast
qed

text \<open>
  C9: for a colour \<open>c\<close> with every channel in \<open>[0, 1]\<close>, \<^verbatim>\<open>LinearTosRGB\<close> after
  \<^verbatim>\<open>sRGBToLinear\<close> and \<^verbatim>\<open>sRGBToLinear\<close> after \<^verbatim>\<open>LinearTosRGB\<close> both return a colour
  within \<open>1 / 1000\<close> of \<open>c\<close> on every channel, with the alpha channel unchanged. The
  round trip is not exact: the channel value \<open>1 / 100\<close> comes back as
  \<open>0.00999999999936\<close>.
\<close>

theorem colour_round_trip:
  assumes "vle (vsplat 0) c" and "vle c (vsplat 1)"
  shows "(\<exists>l e. sRGBToLinear (Vec4 c al) = Some l \<and> LinearTosRGB l = Some e \<and>
            alpha e = al \<and> vclose (rgb e) c (1 / 1000)) \<and>
         (\<exists>g e. LinearTosRGB (Vec4 c al) = Some g \<and> sRGBToLinear g = Some e \<and>
            alpha e = al \<and> vclose (rgb e) c (1 / 1000)) \<and>
         sRGBToLinear (Vec4 (vsplat (1 / 100)) 1) = Some (Vec4 (vsplat 0.000773993808) 1) \<and>
         LinearTosRGB (Vec4 (vsplat 0.000773993808) 1) = Some (Vec4 (vsplat 0.00999999999936) 1) \<and>
         vsplat 0.00999999999936 \<noteq> vsplat (1 / 100)"
  using encode_after_decode [OF assms] decode_after_encode [OF assms] round_trip_inexact
  by blast

theorem colour_round_trip_witness:
  "vle (vsplat 0) (Vec3 0 (1 / 100) 1) \<and> vle (Vec3 0 (1 / 100) 1) (vsplat 1) \<and>
   (\<exists>l e. sRGBToLinear (Vec4 (Vec3 0 (1 / 100) 1) 1) = Some l \<and> LinearTosRGB l = Some e \<and>
            alpha e = 1 \<and> vclose (rgb e) (Vec3 0 (1 / 100) 1) (1 / 1000)) \<and>
   (\<exists>g e. LinearTosRGB (Vec4 (Vec3 0 (1 / 100) 1) 1) = Some g \<and> sRGBToLinear g = Some e \<and>
            alpha e = 1 \<and> vclose (rgb e) (Vec3 0 (1 / 100) 1) (1 / 1000))"
proof -
  have h: "vle (vsplat 0) (Vec3 0 (1 / 100) 1)" "vle (Vec3 0 (1 / 100) 1) (vsplat 1)"
    by (simp_all add: vle_def vsplat_def)
  from colour_round_trip [OF h, of 1] h show ?thesis by blast
qed

text \<open>
  C10, as the code has it, on float32. \<^verbatim>\<open>calculateDistributionGGX\<close> divides \<open>a2\<close> by
  \<open>3.14159 * denom * denom\<close> with no guard. For a roughness in \<open>[2^-12, 1]\<close> and a
  computed \<open>n \<cdot> h\<close> of at most \<open>1\<close>, the divisor is finite and strictly positive and the
  quotient is finite. For a roughness of magnitude at most \<open>2^-13\<close> and a computed
  \<open>n \<cdot> h\<close> of \<open>1\<close>, the difference \<open>a2 - 1.0\<close> rounds to \<open>-1\<close> and the divisor is exactly
  zero: the result is \<open>+\<infinity>\<close>, or NaN, the quotient \<open>0 / 0\<close>, when \<open>a2\<close> itself is zero, as
  it is at roughness zero.
\<close>

theorem GGX_f32_division:
  "calculateDistributionGGX_f32 n h r = fdiv32 (fmul r r) (GGX_denom_f32 n h r) \<and>
   (1 / 2 ^ 12 \<le> a \<and> a \<le> 1 \<and> fdot n h = Fin t \<and> t \<le> 1 \<longrightarrow>
      (\<exists>d q. GGX_denom_f32 n h (Fin a) = Fin d \<and> 0 < d \<and>
         calculateDistributionGGX_f32 n h (Fin a) = Fin q \<and> 0 \<le> q)) \<and>
   (\<bar>s\<bar> \<le> 1 / 2 ^ 13 \<and> fdot n h = Fin 1 \<longrightarrow>
      GGX_denom_f32 n h (Fin s) = Fin 0 \<and>
      calculateDistributionGGX_f32 n h (Fin s) = (if round32 (s * s) = Fin 0 then NaN else PInf))"
  using GGX_f32_divisor_pos [of a n h t] GGX_f32_small_roughness [of s n h]
    calculateDistributionGGX_f32_eq [of n h r]
  by blast

theorem GGX_f32_division_witness:
  "(1 / 2 ^ 12 \<le> (1 / 2 :: real) \<and> (1 / 2 :: real) \<le> 1 \<and>
    fdot (FVec3 (Fin 0) (Fin 0) (Fin 1)) (FVec3 (Fin 0) (Fin 0) (Fin 1)) = Fin 1 \<and> (1::real) \<le> 1 \<and>
    (\<exists>d q. GGX_denom_f32 (FVec3 (Fin 0) (Fin 0) (Fin 1)) (FVec3 (Fin 0) (Fin 0) (Fin 1)) (Fin (1 / 2)) = Fin d \<and>
       0 < d \<and>
       calculateDistributionGGX_f32 (FVec3 (Fin 0) (Fin 0) (Fin 1)) (FVec3 (Fin 0) (Fin 0) (Fin 1)) (Fin (1 / 2)) = Fin q \<and>
       0 \<le> q)) \<and>
   \<bar>0 :: real\<bar> \<le> 1 / 2 ^ 13 \<and>
   GGX_denom_f32 (FVec3 (Fin 0) (Fin 0) (Fin 1)) (FVec3 (Fin 0) (Fin 0) (Fin 1)) (Fin 0) = Fin 0 \<and>
   calculateDistributionGGX_f32 (FVec3 (Fin 0) (Fin 0) (Fin 1)) (FVec3 (Fin 0) (Fin 0) (Fin 1)) (Fin 0) = NaN"
  using GGX_f32_division [of "FVec3 (Fin 0) (Fin 0) (Fin 1)" "FVec3 (Fin 0) (Fin 0) (Fin 1)" "Fin 0"
      "1 / 2" 1 0] fdot_axis
  by (simp add: finf_def)

text \<open>
  C10, as stated, fails: at the roughness \<open>2^-13\<close>, which is above zero, with the unit
  vectors \<open>n = h = (0, 0, 1)\<close>, the divisor is zero and the division returns \<open>+\<infinity>\<close>.
\<close>

theorem GGX_f32_division_by_zero:
  "(0::real) < 1 / 2 ^ 13 \<and>
   fdot (FVec3 (Fin 0) (Fin 0) (Fin 1)) (FVec3 (Fin 0) (Fin 0) (Fin 1)) = Fin 1 \<and>
   GGX_denom_f32 (FVec3 (Fin 0) (Fin 0) (Fin 1)) (FVec3 (Fin 0) (Fin 0) (Fin 1)) (Fin (1 / 2 ^ 13)) = Fin 0 \<and>
   calculateDistributionGGX_f32 (FVec3 (Fin 0) (Fin 0) (Fin 1)) (FVec3 (Fin 0) (Fin 0) (Fin 1)) (Fin (1 / 2 ^ 13)) = PInf"
proof -
  have "round32 (1 / 2 ^ 13 * (1 / 2 ^ 13)) = Fin (1 / 2 ^ 26)"
    using round32_repr [OF is_f32_dyadic [of 1 26]] by simp
  then show ?thesis
    using GGX_f32_small_roughness [of "1 / 2 ^ 13", OF _ fdot_axis] fdot_axis by simp
qed

end
